(* ===== verification/Prelude.thy ===== *)
theory Prelude
  imports Main "HOL-Library.Sublist"
begin

text \<open>
  What every component of the worker shares: Python's text as lists of code points, the
  exceptions the package raises as values of a sum type, the environment as a map, the
  text operations of the language the package uses (\<open>strip\<close>, \<open>rstrip\<close>, \<open>partition\<close>,
  \<open>join\<close>, \<open>int\<close> and \<open>str\<close> on decimal numbers, \<open>re.fullmatch\<close> on a
  character class with a bounded length), and the two contracts every stateful component
  is proved against: \<open>event_machine\<close> (an invariant of the steps is an invariant of
  the runs) and \<open>latched_machine\<close> (a flag that no step clears).
\<close>

named_theorems res_simps "bind and the branches of the result type"

section \<open>Text\<close>

text \<open>
  A Python \<open>str\<close> is a sequence of code points (lone surrogates included), so
  \<open>len\<close> is \<open>length\<close> and an index is a code point. \<open>str\<close> turns an ASCII
  literal of HOL into such a sequence.
\<close>

type_synonym pystr = "nat list"
type_synonym pybytes = "nat list"
type_synonym environ = "pystr \<Rightarrow> pystr option"

definition str :: "string \<Rightarrow> pystr" where
  "str s = map of_char s"

lemma str_inject [simp]: "str a = str b \<longleftrightarrow> a = b"
  unfolding str_def by (rule inj_map_eq_map) (simp add: inj_def)

lemma length_str [simp]: "length (str s) = length s"
  by (simp add: str_def)

lemma str_Nil [simp]: "str [] = []"
  by (simp add: str_def)

lemma str_eq_Nil [simp]: "str s = [] \<longleftrightarrow> s = []"
  by (simp add: str_def)

lemma str_append: "str (a @ b) = str a @ str b"
  by (simp add: str_def)

abbreviation chr :: "char \<Rightarrow> nat" where
  "chr c \<equiv> of_char c"

text \<open>\<open>str.isspace\<close> on one code point: the 29 white-space code points of Unicode.\<close>

definition py_isspace :: "nat \<Rightarrow> bool" where
  "py_isspace c \<longleftrightarrow> 9 \<le> c \<and> c \<le> 13 \<or> 28 \<le> c \<and> c \<le> 32 \<or> c = 133 \<or> c = 160 \<or> c = 5760
     \<or> 8192 \<le> c \<and> c \<le> 8202 \<or> c = 8232 \<or> c = 8233 \<or> c = 8239 \<or> c = 8287 \<or> c = 12288"

definition lstrip_by :: "(nat \<Rightarrow> bool) \<Rightarrow> pystr \<Rightarrow> pystr" where
  "lstrip_by p s = dropWhile p s"

definition rstrip_by :: "(nat \<Rightarrow> bool) \<Rightarrow> pystr \<Rightarrow> pystr" where
  "rstrip_by p s = rev (dropWhile p (rev s))"

definition strip_by :: "(nat \<Rightarrow> bool) \<Rightarrow> pystr \<Rightarrow> pystr" where
  "strip_by p s = rstrip_by p (lstrip_by p s)"

definition strip :: "pystr \<Rightarrow> pystr" where
  "strip s = strip_by py_isspace s"

lemma dropWhile_idem': "dropWhile p (dropWhile p xs) = dropWhile p xs"
  by (induction xs) auto

lemma rstrip_by_Nil [simp]: "rstrip_by p s = [] \<longleftrightarrow> (\<forall>c \<in> set s. p c)"
  by (simp add: rstrip_by_def dropWhile_eq_Nil_conv)

lemma lstrip_by_Nil: "lstrip_by p s = [] \<longleftrightarrow> (\<forall>c \<in> set s. p c)"
  by (simp add: lstrip_by_def dropWhile_eq_Nil_conv)

lemma strip_by_Nil: "strip_by p s = [] \<longleftrightarrow> (\<forall>c \<in> set s. p c)"
  unfolding strip_by_def rstrip_by_Nil
  by (metis lstrip_by_Nil lstrip_by_def set_dropWhileD hd_dropWhile list.set_sel(1)
      dropWhile_eq_Nil_conv)

lemma strip_Nil: "strip s = [] \<longleftrightarrow> (\<forall>c \<in> set s. py_isspace c)"
  by (simp add: strip_def strip_by_Nil)

lemma strip_empty [simp]: "strip [] = []"
  by (simp add: strip_Nil)

text \<open>The ends of a stripped text are no longer in the stripped class.\<close>

lemma rstrip_by_last: "rstrip_by p s \<noteq> [] \<Longrightarrow> \<not> p (last (rstrip_by p s))"
  unfolding rstrip_by_def by (simp add: last_rev hd_dropWhile)

lemma rstrip_by_prefix: "prefix (rstrip_by p s) s"
proof -
  have "rev (takeWhile p (rev s) @ dropWhile p (rev s)) = s"
    by (simp only: takeWhile_dropWhile_id rev_rev_ident)
  then have "s = rstrip_by p s @ rev (takeWhile p (rev s))"
    by (simp only: rstrip_by_def rev_append)
  then show ?thesis by (metis prefixI)
qed

lemma strip_by_subset: "set (strip_by p s) \<subseteq> set s"
  using rstrip_by_prefix [of p "lstrip_by p s"]
  by (auto simp: strip_by_def lstrip_by_def dest!: set_mono_prefix set_dropWhileD subsetD)

text \<open>
  \<open>str.partition(sep)\<close> on a one-character separator: the text before its first occurrence,
  whether it occurs, and the text after; \<open>rpartition\<close> splits at the last one.
\<close>

fun partition_at :: "nat \<Rightarrow> pystr \<Rightarrow> pystr \<times> bool \<times> pystr" where
  "partition_at c [] = ([], False, [])"
| "partition_at c (x # xs) =
     (if x = c then ([], True, xs)
      else (case partition_at c xs of (a, found, b) \<Rightarrow> (x # a, found, b)))"

definition rpartition_at :: "nat \<Rightarrow> pystr \<Rightarrow> pystr \<times> bool \<times> pystr" where
  "rpartition_at c s =
     (case partition_at c (rev s) of (b, found, a) \<Rightarrow>
        if found then (rev a, True, rev b) else ([], False, s))"

lemma partition_at_split:
  "partition_at c s = (a, found, b) \<Longrightarrow>
     c \<notin> set a \<and> s = (if found then a @ c # b else a) \<and> (\<not> found \<longrightarrow> b = [])"
  by (induction s arbitrary: a) (auto split: if_splits prod.splits)

lemma partition_at_absent: "c \<notin> set s \<Longrightarrow> partition_at c s = (s, False, [])"
  by (induction s) auto

text \<open>\<open>sep.join(parts)\<close>\<close>

fun join :: "pystr \<Rightarrow> pystr list \<Rightarrow> pystr" where
  "join sep [] = []"
| "join sep [x] = x"
| "join sep (x # y # zs) = x @ sep @ join sep (y # zs)"

text \<open>\<open>re.fullmatch\<close> of one character class repeated \<open>lo\<close> to \<open>hi\<close> times.\<close>

definition fullmatch :: "(nat \<Rightarrow> bool) \<Rightarrow> nat \<Rightarrow> nat \<Rightarrow> pystr \<Rightarrow> bool" where
  "fullmatch cls lo hi s \<longleftrightarrow> lo \<le> length s \<and> length s \<le> hi \<and> list_all cls s"

definition is_digit :: "nat \<Rightarrow> bool" where
  "is_digit c \<longleftrightarrow> 48 \<le> c \<and> c \<le> 57"

definition is_upper :: "nat \<Rightarrow> bool" where
  "is_upper c \<longleftrightarrow> 65 \<le> c \<and> c \<le> 90"

definition is_lower :: "nat \<Rightarrow> bool" where
  "is_lower c \<longleftrightarrow> 97 \<le> c \<and> c \<le> 122"

definition is_alnum :: "nat \<Rightarrow> bool" where
  "is_alnum c \<longleftrightarrow> is_digit c \<or> is_upper c \<or> is_lower c"

lemmas char_class_defs = is_digit_def is_upper_def is_lower_def is_alnum_def

text \<open>\<open>str.lower\<close> on the ASCII letters; other code points are kept.\<close>

definition ascii_lower :: "pystr \<Rightarrow> pystr" where
  "ascii_lower s = map (\<lambda>c. if is_upper c then c + 32 else c) s"

section \<open>Decimal numbers\<close>

fun show_nat :: "nat \<Rightarrow> pystr" where
  "show_nat n = (if n < 10 then [48 + n] else show_nat (n div 10) @ [48 + n mod 10])"

declare show_nat.simps [simp del]

definition digits_value :: "pystr \<Rightarrow> nat" where
  "digits_value ds = foldl (\<lambda>v d. 10 * v + (d - 48)) 0 ds"

definition show_int :: "int \<Rightarrow> pystr" where
  "show_int i = (if i < 0 then 45 # show_nat (nat (- i)) else show_nat (nat i))"

lemma show_nat_digits: "list_all is_digit (show_nat n)"
proof (induction n rule: show_nat.induct)
  case (1 n)
  then show ?case
    by (subst show_nat.simps) (force simp: list_all_iff is_digit_def)
qed

lemma show_nat_nonempty [simp]: "show_nat n \<noteq> []"
  by (subst show_nat.simps) simp

lemma digits_value_show_nat [simp]: "digits_value (show_nat n) = n"
proof (induction n rule: show_nat.induct)
  case (1 n)
  then show ?case by (subst show_nat.simps) (auto simp: digits_value_def)
qed

text \<open>No leading zero, except for zero itself.\<close>

lemma show_nat_hd: "hd (show_nat n) = 48 \<longleftrightarrow> n = 0"
proof (induction n rule: show_nat.induct)
  case (1 n)
  show ?case
  proof (cases "n < 10")
    case True
    then show ?thesis by (subst show_nat.simps) simp
  next
    case False
    then have "n div 10 \<noteq> 0" by simp
    with False "1" show ?thesis by (subst show_nat.simps) simp
  qed
qed

lemma length_show_nat_one: "n < 10 \<Longrightarrow> length (show_nat n) = 1"
  by (subst show_nat.simps) simp

lemma length_show_nat_le: "0 < k \<Longrightarrow> n < 10 ^ k \<Longrightarrow> length (show_nat n) \<le> k"
proof (induction k arbitrary: n)
  case 0
  then show ?case by simp
next
  case (Suc k)
  show ?case
  proof (cases "n < 10")
    case True
    then show ?thesis by (simp add: length_show_nat_one)
  next
    case False
    with Suc.prems have "0 < k" by (cases k) auto
    moreover from Suc.prems have "n div 10 < 10 ^ k" by (simp add: div_less_iff_less_mult)
    ultimately have "length (show_nat (n div 10)) \<le> k" by (rule Suc.IH)
    with False show ?thesis by (subst show_nat.simps) simp
  qed
qed

section \<open>Exceptions as values\<close>

text \<open>
  The package's own exceptions carry their message; the language's carry none. A call that
  raises is \<open>Inl\<close>, a call that returns is \<open>Inr\<close>.
\<close>

datatype exn =
    InvalidConfiguration string
  | SettingsUnavailable pystr
  | RpcError nat string
  | SystemExit pystr
  | ValueError
  | UnicodeError
  | RecursionError
  | TypeError
  | AttributeError
  | KeyError
  | RuntimeError
  | TimeoutError
  | OSError
  | ProviderError

type_synonym 'a result = "exn + 'a"

text \<open>\<open>InvalidConfiguration\<close> and \<open>UnicodeError\<close> are subclasses of \<open>ValueError\<close>.\<close>

fun is_value_error :: "exn \<Rightarrow> bool" where
  "is_value_error (InvalidConfiguration m) = True"
| "is_value_error ValueError = True"
| "is_value_error UnicodeError = True"
| "is_value_error e = False"

fun is_invalid_configuration :: "exn \<Rightarrow> bool" where
  "is_invalid_configuration (InvalidConfiguration m) = True"
| "is_invalid_configuration e = False"

definition bind_res :: "'e + 'a \<Rightarrow> ('a \<Rightarrow> 'e + 'b) \<Rightarrow> 'e + 'b" where
  "bind_res m f = (case m of Inl e \<Rightarrow> Inl e | Inr x \<Rightarrow> f x)"

lemma bind_res_Inl [simp, res_simps]: "bind_res (Inl e) f = Inl e"
  by (simp add: bind_res_def)

lemma bind_res_Inr [simp, res_simps]: "bind_res (Inr x) f = f x"
  by (simp add: bind_res_def)

lemma bind_res_eq_Inr [res_simps]: "bind_res m f = Inr y \<longleftrightarrow> (\<exists>x. m = Inr x \<and> f x = Inr y)"
  by (cases m) simp_all

lemma bind_res_eq_Inl [res_simps]:
  "bind_res m f = Inl e \<longleftrightarrow> m = Inl e \<or> (\<exists>x. m = Inr x \<and> f x = Inl e)"
  by (cases m) simp_all

lemma bind_res_cong [fundef_cong]:
  "m = m' \<Longrightarrow> (\<And>x. m' = Inr x \<Longrightarrow> f x = g x) \<Longrightarrow> bind_res m f = bind_res m' g"
  by (cases m') simp_all

text \<open>A computation whose only error is the package's \<open>InvalidConfiguration\<close>.\<close>

definition only_invalid :: "'a result \<Rightarrow> bool" where
  "only_invalid m \<longleftrightarrow> (\<forall>e. m = Inl e \<longrightarrow> is_invalid_configuration e)"

lemma only_invalid_simps [simp]:
  "only_invalid (Inr x)" "only_invalid (Inl (InvalidConfiguration m))"
  by (simp_all add: only_invalid_def)

lemma only_invalid_bind:
  "only_invalid m \<Longrightarrow> (\<And>x. m = Inr x \<Longrightarrow> only_invalid (f x)) \<Longrightarrow> only_invalid (bind_res m f)"
  by (cases m) (auto simp: only_invalid_def)

lemma only_invalid_if:
  "(b \<Longrightarrow> only_invalid m) \<Longrightarrow> (\<not> b \<Longrightarrow> only_invalid n) \<Longrightarrow> only_invalid (if b then m else n)"
  by simp

lemma only_invalidD: "only_invalid m \<Longrightarrow> m = Inl e \<Longrightarrow> is_invalid_configuration e"
  by (simp add: only_invalid_def)

text \<open>\<open>env.get(name, default)\<close>\<close>

definition env_get :: "environ \<Rightarrow> pystr \<Rightarrow> pystr \<Rightarrow> pystr" where
  "env_get env k d = (case env k of None \<Rightarrow> d | Some v \<Rightarrow> v)"

section \<open>The contract of a component with state\<close>

text \<open>
  A component is a start state and a step function on its events. \<open>event_machine\<close> is
  what the components prove of an invariant; a run is the fold of the steps.
\<close>

definition run :: "('s \<Rightarrow> 'e \<Rightarrow> 's) \<Rightarrow> 's \<Rightarrow> 'e list \<Rightarrow> 's" where
  "run step s es = foldl step s es"

lemma run_Nil [simp]: "run step s [] = s"
  by (simp add: run_def)

lemma run_Cons [simp]: "run step s (e # es) = run step (step s e) es"
  by (simp add: run_def)

lemma run_append: "run step s (es @ fs) = run step (run step s es) fs"
  by (simp add: run_def)

locale event_machine =
  fixes step :: "'s \<Rightarrow> 'e \<Rightarrow> 's"
    and inv :: "'s \<Rightarrow> bool"
  assumes step_inv: "inv s \<Longrightarrow> inv (step s e)"
begin

lemma run_inv: "inv s \<Longrightarrow> inv (run step s es)"
  by (induction es arbitrary: s) (simp_all add: step_inv)

lemma run_inv_prefix: "inv s \<Longrightarrow> prefix es fs \<Longrightarrow> inv (run step s es)"
  by (rule run_inv)

end

text \<open>A flag of the state that no step clears (closed, stopping, aborted).\<close>

locale latched_machine = event_machine step inv
  for step :: "'s \<Rightarrow> 'e \<Rightarrow> 's" and inv :: "'s \<Rightarrow> bool" +
  fixes flag :: "'s \<Rightarrow> bool"
  assumes flag_latched: "inv s \<Longrightarrow> flag s \<Longrightarrow> flag (step s e)"
begin

lemma run_latched: "inv s \<Longrightarrow> flag s \<Longrightarrow> flag (run step s es)"
  by (induction es arbitrary: s) (simp_all add: step_inv flag_latched)

lemma run_flag_prefix:
  "inv s \<Longrightarrow> flag (run step s es) \<Longrightarrow> flag (run step s (es @ fs))"
  by (simp add: run_append run_inv run_latched)

end

end
