(* ===== verification/Codecs.thy ===== *)
theory Codecs
  imports Prelude
begin

text \<open>
  The codecs of the language's standard library that the package uses: UTF-8 encoding
  (which raises on a lone surrogate), UTF-8 decoding with an error handler (\<open>ignore\<close>
  in transcripts.py, \<open>surrogatepass\<close> inside \<open>json.loads\<close>), the UTF-16 and UTF-32
  decoders and the encoding detection that \<open>json.loads\<close> applies to bytes. The main
  result is \<open>utf8_truncate_fit\<close>: cutting an encoded text at a byte limit and decoding it
  with \<open>ignore\<close> gives the longest prefix of code points whose encoding fits.
\<close>

section \<open>UTF-8 encoding\<close>

definition is_surrogate :: "nat \<Rightarrow> bool" where
  "is_surrogate c \<longleftrightarrow> 55296 \<le> c \<and> c < 57344"

definition is_high_surrogate :: "nat \<Rightarrow> bool" where
  "is_high_surrogate c \<longleftrightarrow> 55296 \<le> c \<and> c < 56320"

definition is_low_surrogate :: "nat \<Rightarrow> bool" where
  "is_low_surrogate c \<longleftrightarrow> 56320 \<le> c \<and> c < 57344"

text \<open>A code point of a Python \<open>str\<close>, and a Unicode scalar value.\<close>

definition is_codepoint :: "nat \<Rightarrow> bool" where
  "is_codepoint c \<longleftrightarrow> c < 1114112"

definition is_scalar :: "nat \<Rightarrow> bool" where
  "is_scalar c \<longleftrightarrow> c < 1114112 \<and> \<not> is_surrogate c"

lemmas surrogate_defs =
  is_surrogate_def is_high_surrogate_def is_low_surrogate_def is_codepoint_def is_scalar_def

definition join_surrogates :: "nat \<Rightarrow> nat \<Rightarrow> nat" where
  "join_surrogates h l = 65536 + (h - 55296) * 1024 + (l - 56320)"

definition utf8_char :: "nat \<Rightarrow> pybytes" where
  "utf8_char c =
     (if c < 128 then [c]
      else if c < 2048 then [192 + c div 64, 128 + c mod 64]
      else if c < 65536 then [224 + c div 4096, 128 + c div 64 mod 64, 128 + c mod 64]
      else [240 + c div 262144, 128 + c div 4096 mod 64, 128 + c div 64 mod 64,
            128 + c mod 64])"

definition utf8_bytes :: "pystr \<Rightarrow> pybytes" where
  "utf8_bytes s = concat (map utf8_char s)"

definition utf8_encode :: "pystr \<Rightarrow> pybytes result" where
  "utf8_encode s = (if list_ex is_surrogate s then Inl UnicodeError else Inr (utf8_bytes s))"

lemma utf8_bytes_simps [simp]:
  "utf8_bytes [] = []" "utf8_bytes (c # cs) = utf8_char c @ utf8_bytes cs"
  "utf8_bytes (xs @ ys) = utf8_bytes xs @ utf8_bytes ys"
  by (simp_all add: utf8_bytes_def)

lemma length_utf8_char: "0 < length (utf8_char c) \<and> length (utf8_char c) \<le> 4"
  by (simp add: utf8_char_def)

lemma utf8_char_nonempty [simp]: "utf8_char c \<noteq> []"
  using length_utf8_char [of c] by auto

lemma utf8_char_ascii [simp]: "c < 128 \<Longrightarrow> utf8_char c = [c]"
  by (simp add: utf8_char_def)

lemma utf8_bytes_ascii: "list_all (\<lambda>c. c < 128) s \<Longrightarrow> utf8_bytes s = s"
  by (induction s) auto

lemma length_utf8_bytes_ge: "length s \<le> length (utf8_bytes s)"
proof (induction s)
  case (Cons c s)
  have "0 < length (utf8_char c)" using length_utf8_char [of c] ..
  with Cons show ?case unfolding utf8_bytes_simps length_append list.size by linarith
qed simp

section \<open>UTF-8 decoding\<close>

text \<open>
  One position of the decoder: a code point and its width, or the number of bytes the
  malformed sequence spans (the maximal prefix of a well-formed one).
\<close>

datatype decoded = Decoded nat nat | Broken nat

definition is_cont :: "nat \<Rightarrow> bool" where
  "is_cont b \<longleftrightarrow> 128 \<le> b \<and> b < 192"

definition bad_second :: "nat \<Rightarrow> nat \<Rightarrow> bool" where
  "bad_second b c \<longleftrightarrow> \<not> is_cont c \<or> b = 224 \<and> c < 160 \<or> b = 237 \<and> 160 \<le> c
     \<or> b = 240 \<and> c < 144 \<or> b = 244 \<and> 144 \<le> c"

definition utf8_three :: "nat \<Rightarrow> nat \<Rightarrow> nat \<Rightarrow> nat" where
  "utf8_three b c d = (b - 224) * 4096 + (c - 128) * 64 + (d - 128)"

fun utf8_next :: "nat \<Rightarrow> pybytes \<Rightarrow> decoded" where
  "utf8_next b bs =
     (if b < 128 then Decoded b 1
      else if b < 194 \<or> 245 \<le> b then Broken 1
      else case bs of
        [] \<Rightarrow> Broken 1
      | c # cs \<Rightarrow>
          if bad_second b c then Broken 1
          else if b < 224 then Decoded ((b - 192) * 64 + (c - 128)) 2
          else case cs of
            [] \<Rightarrow> Broken 2
          | d # ds \<Rightarrow>
              if \<not> is_cont d then Broken 2
              else if b < 240 then Decoded (utf8_three b c d) 3
              else case ds of
                [] \<Rightarrow> Broken 3
              | e # es \<Rightarrow>
                  if \<not> is_cont e then Broken 3
                  else Decoded ((b - 240) * 262144 + (c - 128) * 4096 + (d - 128) * 64 + (e - 128)) 4)"

declare utf8_next.simps [simp del]

text \<open>
  The error handler gets the span of the malformed sequence and the input from there, and
  gives the replacement text and where to resume, or raises.
\<close>

type_synonym utf8_handler = "nat \<Rightarrow> pybytes \<Rightarrow> (pystr \<times> nat) option"

definition h_ignore :: utf8_handler where
  "h_ignore k s = Some ([], k)"

definition h_strict :: utf8_handler where
  "h_strict k s = None"

definition h_surrogatepass :: utf8_handler where
  "h_surrogatepass k s =
     (case s of
        b # c # d # _ \<Rightarrow>
          if b = 237 \<and> 160 \<le> c \<and> c < 192 \<and> is_cont d then Some ([utf8_three b c d], 3) else None
      | _ \<Rightarrow> None)"

text \<open>
  A resume position of 0 would loop for ever in the source's decoder; none of the three
  handlers gives one, and the decoder reads it as 1.
\<close>

function utf8_decode :: "utf8_handler \<Rightarrow> pybytes \<Rightarrow> pystr option" where
  "utf8_decode h [] = Some []"
| "utf8_decode h (b # bs) =
     (case utf8_next b bs of
        Decoded c w \<Rightarrow> map_option ((#) c) (utf8_decode h (drop (w - 1) bs))
      | Broken k \<Rightarrow>
          (case h k (b # bs) of
             None \<Rightarrow> None
           | Some (r, n) \<Rightarrow> map_option ((@) r) (utf8_decode h (drop (n - 1) bs))))"
  by pat_completeness auto
termination
  by (relation "measure (\<lambda>(h, s). length s)") auto

subsection \<open>Decoding what was encoded\<close>

lemma radix64: "(c::nat) = x * 64 + r \<Longrightarrow> x = p * 64 + q \<Longrightarrow> c = p * 4096 + q * 64 + r"
  by simp

lemma radix64':
  "(c::nat) = x * 64 + r \<Longrightarrow> x = y * 64 + q \<Longrightarrow> y = p * 64 + t \<Longrightarrow>
     c = p * 262144 + t * 4096 + q * 64 + r"
  by simp

lemma utf8_char_cases:
  assumes "is_scalar c"
  obtains (one) "c < 128" "utf8_char c = [c]"
  | (two) b d where "128 \<le> c" "c < 2048" "utf8_char c = [b, d]" "194 \<le> b" "b < 224"
      "is_cont d" "c = (b - 192) * 64 + (d - 128)" "\<not> bad_second b d"
  | (three) b d e where "2048 \<le> c" "c < 65536" "utf8_char c = [b, d, e]" "224 \<le> b" "b < 240"
      "is_cont d" "is_cont e" "c = utf8_three b d e" "\<not> bad_second b d"
  | (four) b d e f where "65536 \<le> c" "utf8_char c = [b, d, e, f]" "240 \<le> b" "b < 245"
      "is_cont d" "is_cont e" "is_cont f" "\<not> bad_second b d"
      "c = (b - 240) * 262144 + (d - 128) * 4096 + (e - 128) * 64 + (f - 128)"
proof -
  have lt: "c < 1114112" and ns: "c < 55296 \<or> 57344 \<le> c"
    using assms by (auto simp: surrogate_defs)
  consider "c < 128" | "128 \<le> c" "c < 2048" | "2048 \<le> c" "c < 65536" | "65536 \<le> c" by linarith
  then show ?thesis
  proof cases
    case 1
    then show ?thesis by (intro one) auto
  next
    case 2
    moreover have "2 \<le> c div 64" "c div 64 < 32" using 2 by linarith+
    moreover have "c mod 64 < 64" "c = c div 64 * 64 + c mod 64" by simp_all
    ultimately show ?thesis
      by (intro two [of "192 + c div 64" "128 + c mod 64"])
        (auto simp: utf8_char_def is_cont_def bad_second_def)
  next
    case 3
    have d: "c div 4096 < 16" using 3 by linarith
    have d': "c div 64 mod 64 < 64" "c mod 64 < 64" by simp_all
    have e: "c = c div 4096 * 4096 + c div 64 mod 64 * 64 + c mod 64"
    proof -
      have "c div 4096 = c div 64 div 64" using div_mult2_eq [of c 64 64] by simp
      then show ?thesis
        using radix64 [OF div_mult_mod_eq [of c 64, symmetric] div_mult_mod_eq [of "c div 64" 64, symmetric]]
        by simp
    qed
    have f: "32 \<le> c div 64 mod 64" if "c div 4096 = 0" using 3 d' e that by linarith
    have g: "c div 64 mod 64 < 32" if "c div 4096 = 13" using ns d d' e that by linarith
    show ?thesis
      using 3 d d' e f g
      by (intro three [of "224 + c div 4096" "128 + c div 64 mod 64" "128 + c mod 64"])
        (auto simp: utf8_char_def is_cont_def bad_second_def utf8_three_def)
  next
    case 4
    have d: "c div 262144 < 5" using lt by linarith
    have d': "c div 4096 mod 64 < 64" "c div 64 mod 64 < 64" "c mod 64 < 64" by simp_all
    have e: "c = c div 262144 * 262144 + c div 4096 mod 64 * 4096 + c div 64 mod 64 * 64 + c mod 64"
    proof -
      have "c div 4096 = c div 64 div 64" "c div 262144 = c div 64 div 64 div 64"
        using div_mult2_eq [of c 64 64] div_mult2_eq [of c 4096 64] by simp_all
      then show ?thesis
        using radix64 [OF div_mult_mod_eq [of c 64, symmetric] div_mult_mod_eq [of "c div 64" 64, symmetric]]
          div_mult_mod_eq [of "c div 64 div 64" 64] radix64'
        by (metis div_mult_mod_eq)
    qed
    have f: "16 \<le> c div 4096 mod 64" if "c div 262144 = 0" using 4 d' e that by linarith
    have g: "c div 4096 mod 64 < 16" if "c div 262144 = 4" using lt d' e that by linarith
    show ?thesis
      using 4 d d' e f g
      by (intro four [of "240 + c div 262144" "128 + c div 4096 mod 64" "128 + c div 64 mod 64"
            "128 + c mod 64"])
        (auto simp: utf8_char_def is_cont_def bad_second_def)
  qed
qed

text \<open>One encoded character in front of anything is read back.\<close>

lemma utf8_decode_char:
  assumes "is_scalar c"
  shows "utf8_decode h (utf8_char c @ rest) = map_option ((#) c) (utf8_decode h rest)"
  using assms
  by (cases c rule: utf8_char_cases) (auto simp: utf8_next.simps)

lemma utf8_decode_bytes_append:
  "list_all is_scalar s \<Longrightarrow>
     utf8_decode h (utf8_bytes s @ rest) = map_option ((@) s) (utf8_decode h rest)"
proof (induction s)
  case Nil
  show ?case by (cases "utf8_decode h rest") simp_all
next
  case (Cons c s)
  then show ?case by (cases "utf8_decode h rest") (simp_all add: utf8_decode_char)
qed

lemma utf8_roundtrip: "list_all is_scalar s \<Longrightarrow> utf8_decode h (utf8_bytes s) = Some s"
  using utf8_decode_bytes_append [of s h "[]"] by simp

text \<open>A proper prefix of one encoded character decodes to nothing under \<open>ignore\<close>.\<close>

lemma utf8_ignore_one: "128 \<le> b \<Longrightarrow> utf8_decode h_ignore [b] = Some []"
  by (simp add: utf8_next.simps h_ignore_def)

lemma utf8_ignore_two:
  "224 \<le> b \<Longrightarrow> b < 245 \<Longrightarrow> \<not> bad_second b c \<Longrightarrow> utf8_decode h_ignore [b, c] = Some []"
  by (simp add: utf8_next.simps h_ignore_def)

lemma utf8_ignore_three:
  "240 \<le> b \<Longrightarrow> b < 245 \<Longrightarrow> \<not> bad_second b c \<Longrightarrow> is_cont d \<Longrightarrow>
     utf8_decode h_ignore [b, c, d] = Some []"
  by (simp add: utf8_next.simps h_ignore_def)

lemma utf8_decode_partial:
  assumes "is_scalar c" "n < length (utf8_char c)"
  shows "utf8_decode h_ignore (take n (utf8_char c)) = Some []"
  using assms(1)
proof (cases c rule: utf8_char_cases)
  case one
  with assms(2) show ?thesis by simp
next
  case (two b d)
  with assms(2) have "take n (utf8_char c) = [] \<or> take n (utf8_char c) = [b]"
    by (cases n) auto
  with utf8_ignore_one [of b] two show ?thesis by fastforce
next
  case (three b d e)
  with assms(2) have "n = 0 \<or> n = 1 \<or> n = 2" by auto
  with three have "take n (utf8_char c) \<in> {[], [b], [b, d]}" by auto
  with utf8_ignore_one [of b] utf8_ignore_two [of b d] three show ?thesis by fastforce
next
  case (four b d e f)
  with assms(2) have "n = 0 \<or> n = 1 \<or> n = 2 \<or> n = 3" by auto
  with four have "take n (utf8_char c) \<in> {[], [b], [b, d], [b, d, e]}" by auto
  with utf8_ignore_one [of b] utf8_ignore_two [of b d] utf8_ignore_three [of b d e] four
  show ?thesis by fastforce
qed

section \<open>Truncation at a byte limit\<close>

text \<open>The longest prefix of code points whose encoding fits in \<open>n\<close> bytes.\<close>

fun fit_prefix :: "nat \<Rightarrow> pystr \<Rightarrow> pystr" where
  "fit_prefix n [] = []"
| "fit_prefix n (c # cs) =
     (if length (utf8_char c) \<le> n then c # fit_prefix (n - length (utf8_char c)) cs else [])"

lemma fit_prefix_prefix: "prefix (fit_prefix n s) s"
  by (induction n s rule: fit_prefix.induct) auto

lemma fit_prefix_length: "length (utf8_bytes (fit_prefix n s)) \<le> n"
  by (induction n s rule: fit_prefix.induct) auto

lemma fit_prefix_id: "length (utf8_bytes s) \<le> n \<Longrightarrow> fit_prefix n s = s"
  by (induction n s rule: fit_prefix.induct) auto

lemma fit_prefix_greatest:
  "prefix p s \<Longrightarrow> length (utf8_bytes p) \<le> n \<Longrightarrow> prefix p (fit_prefix n s)"
proof (induction n s arbitrary: p rule: fit_prefix.induct)
  case (2 n c cs)
  then show ?case by (cases p) auto
qed simp

lemma utf8_truncate_fit:
  "list_all is_scalar s \<Longrightarrow>
     utf8_decode h_ignore (take n (utf8_bytes s)) = Some (fit_prefix n s)"
proof (induction n s rule: fit_prefix.induct)
  case (2 n c cs)
  show ?case
  proof (cases "length (utf8_char c) \<le> n")
    case True
    with 2 show ?thesis by (simp add: utf8_decode_char)
  next
    case False
    with 2 show ?thesis by (simp add: utf8_decode_partial)
  qed
qed simp

section \<open>UTF-16, UTF-32 and the detection of \<open>json.loads\<close>\<close>

fun word16 :: "bool \<Rightarrow> nat \<Rightarrow> nat \<Rightarrow> nat" where
  "word16 big a b = (if big then a * 256 + b else a + b * 256)"

text \<open>With \<open>surrogatepass\<close>: a pair is joined, a lone surrogate is kept.\<close>

fun utf16_decode :: "bool \<Rightarrow> pybytes \<Rightarrow> pystr option" where
  "utf16_decode big [] = Some []"
| "utf16_decode big [a] = None"
| "utf16_decode big [a, b] = Some [word16 big a b]"
| "utf16_decode big [a, b, c] = None"
| "utf16_decode big (a # b # c # d # rest) =
     (let u = word16 big a b; v = word16 big c d in
      if is_high_surrogate u \<and> is_low_surrogate v
      then map_option ((#) (join_surrogates u v)) (utf16_decode big rest)
      else map_option ((#) u) (utf16_decode big (c # d # rest)))"

fun utf32_decode :: "bool \<Rightarrow> pybytes \<Rightarrow> pystr option" where
  "utf32_decode big [] = Some []"
| "utf32_decode big (a # b # c # d # rest) =
     (let v = (if big then word16 big a b * 65536 + word16 big c d
               else word16 big a b + word16 big c d * 65536) in
      if v < 1114112 then map_option ((#) v) (utf32_decode big rest) else None)"
| "utf32_decode big _ = None"

datatype encoding = Utf8 | Utf8Sig | Utf16 bool | Utf16Bom bool | Utf32 bool | Utf32Bom bool

text \<open>\<open>json.detect_encoding\<close>; the flag of a codec says big-endian.\<close>

fun detect_encoding :: "pybytes \<Rightarrow> encoding" where
  "detect_encoding b =
     (if prefix [0, 0, 254, 255] b then Utf32Bom True
      else if prefix [255, 254, 0, 0] b then Utf32Bom False
      else if prefix [254, 255] b then Utf16Bom True
      else if prefix [255, 254] b then Utf16Bom False
      else if prefix [239, 187, 191] b then Utf8Sig
      else case b of
        p # q # r # s # _ \<Rightarrow>
          if p = 0 then (if q \<noteq> 0 then Utf16 True else Utf32 True)
          else if q = 0 then (if r \<noteq> 0 \<or> s \<noteq> 0 then Utf16 False else Utf32 False)
          else Utf8
      | [p, q] \<Rightarrow> if p = 0 then Utf16 True else if q = 0 then Utf16 False else Utf8
      | _ \<Rightarrow> Utf8)"

declare detect_encoding.simps [simp del]

fun decode_as :: "encoding \<Rightarrow> pybytes \<Rightarrow> pystr option" where
  "decode_as Utf8 b = utf8_decode h_surrogatepass b"
| "decode_as Utf8Sig b = utf8_decode h_surrogatepass (drop 3 b)"
| "decode_as (Utf16 big) b = utf16_decode big b"
| "decode_as (Utf16Bom big) b = utf16_decode big (drop 2 b)"
| "decode_as (Utf32 big) b = utf32_decode big b"
| "decode_as (Utf32Bom big) b = utf32_decode big (drop 4 b)"

definition json_decode_bytes :: "pybytes \<Rightarrow> pystr result" where
  "json_decode_bytes b =
     (case decode_as (detect_encoding b) b of None \<Rightarrow> Inl UnicodeError | Some s \<Rightarrow> Inr s)"

text \<open>Text whose first two characters are not NUL is detected as UTF-8.\<close>

lemma detect_utf8:
  assumes "0 < b" "b < 128" "0 < c" "c < 128"
  shows "detect_encoding (b # c # s) = Utf8"
  using assms by (auto simp: detect_encoding.simps split: list.splits)

lemma json_decode_utf8:
  assumes "list_all is_scalar (b # c # s)" "0 < b" "b < 128" "0 < c" "c < 128"
  shows "json_decode_bytes (utf8_bytes (b # c # s)) = Inr (b # c # s)"
proof -
  have "utf8_bytes (b # c # s) = b # c # utf8_bytes s" using assms by simp
  then have "detect_encoding (utf8_bytes (b # c # s)) = Utf8"
    using assms by (simp add: detect_utf8)
  then show ?thesis
    using utf8_roundtrip [OF assms(1), of h_surrogatepass]
    by (simp only: json_decode_bytes_def decode_as.simps option.case)
qed

end
