(* ===== verification/Json_Print.thy ===== *)
theory Json_Print
  imports Json
begin

text \<open>
  \<open>json.dumps\<close> with its \<open>ensure_ascii\<close> and \<open>separators\<close> arguments, the round trip
  with the scanner, and the size of the output. The contract \<open>wire_format\<close> is what the
  clients of the two functions rely on; it is interpreted on the two ASCII formats the package
  sends and stores.
\<close>

section \<open>The printer\<close>

record dump_opts =
  ensure_ascii :: bool
  item_separator :: pystr
  key_separator :: pystr

definition hex_char :: "nat \<Rightarrow> nat" where
  "hex_char n = (if n < 10 then 48 + n else 87 + n)"

definition hex_body :: "nat \<Rightarrow> pystr" where
  "hex_body u =
     [hex_char (u div 4096), hex_char (u div 256 mod 16), hex_char (u div 16 mod 16),
      hex_char (u mod 16)]"

definition hex_escape :: "nat \<Rightarrow> pystr" where
  "hex_escape u = 92 # 117 # hex_body u"

definition escape_char :: "bool \<Rightarrow> nat \<Rightarrow> pystr" where
  "escape_char ascii c =
     (if c = 34 \<or> c = 92 then [92, c]
      else if c = 10 then [92, 110] else if c = 13 then [92, 114]
      else if c = 9 then [92, 116] else if c = 12 then [92, 102] else if c = 8 then [92, 98]
      else if c < 32 then hex_escape c
      else if ascii \<and> 126 < c then
        (if c < 65536 then hex_escape c
         else hex_escape (55296 + (c - 65536) div 1024) @ hex_escape (56320 + (c - 65536) mod 1024))
      else [c])"

definition quote :: "bool \<Rightarrow> pystr \<Rightarrow> pystr" where
  "quote ascii s = 34 # concat (map (escape_char ascii) s) @ [34]"

fun json_dumps :: "dump_opts \<Rightarrow> json \<Rightarrow> pystr" where
  "json_dumps p JNull = str ''null''"
| "json_dumps p (JBool b) = (if b then str ''true'' else str ''false'')"
| "json_dumps p (JInt i) = show_int i"
| "json_dumps p (JFloat r) = r"
| "json_dumps p (JStr s) = quote (ensure_ascii p) s"
| "json_dumps p (JArr vs) = 91 # join (item_separator p) (map (json_dumps p) vs) @ [93]"
| "json_dumps p (JObj ps) =
     123 # join (item_separator p)
       (map (\<lambda>(k, v). quote (ensure_ascii p) k @ key_separator p @ json_dumps p v) ps) @ [125]"

text \<open>\<open>json.dumps(x)\<close>, and the two compact forms the package asks for.\<close>

definition default_dump :: dump_opts where
  "default_dump = \<lparr>ensure_ascii = True, item_separator = str '', '', key_separator = str '': ''\<rparr>"

definition compact_ascii :: dump_opts where
  "compact_ascii = \<lparr>ensure_ascii = True, item_separator = str '','', key_separator = str '':''\<rparr>"

definition compact_unicode :: dump_opts where
  "compact_unicode = \<lparr>ensure_ascii = False, item_separator = str '','', key_separator = str '':''\<rparr>"

section \<open>Which values, and how deep\<close>

text \<open>
  Floats are left out (their \<open>repr\<close> is a parameter), strings hold no lone surrogate, keys
  are distinct and integers are within the scanner's digit limit.
\<close>

fun wf_json :: "json \<Rightarrow> bool" where
  "wf_json JNull = True"
| "wf_json (JBool b) = True"
| "wf_json (JInt i) = (length (show_nat (nat \<bar>i\<bar>)) \<le> max_int_digits)"
| "wf_json (JFloat r) = False"
| "wf_json (JStr s) = list_all is_scalar s"
| "wf_json (JArr vs) = (\<forall>v \<in> set vs. wf_json v)"
| "wf_json (JObj ps) =
     (distinct (map fst ps) \<and> (\<forall>(k, v) \<in> set ps. list_all is_scalar k \<and> wf_json v))"

fun jdepth :: "json \<Rightarrow> nat" where
  "jdepth (JArr vs) = Suc (foldr (\<lambda>v m. max (jdepth v) m) vs 0)"
| "jdepth (JObj ps) = Suc (foldr (\<lambda>(k, v) m. max (jdepth v) m) ps 0)"
| "jdepth v = 0"

lemma foldr_max_le: "foldr (\<lambda>v m. max (f v) m) vs 0 \<le> (d::nat) \<longleftrightarrow> (\<forall>v \<in> set vs. f v \<le> d)"
  by (induction vs) auto

lemma jdepth_JArr_le: "jdepth (JArr vs) \<le> Suc d \<longleftrightarrow> (\<forall>v \<in> set vs. jdepth v \<le> d)"
  using foldr_max_le [of jdepth vs d] by simp

lemma jdepth_JObj_le: "jdepth (JObj ps) \<le> Suc d \<longleftrightarrow> (\<forall>p \<in> set ps. jdepth (snd p) \<le> d)"
  using foldr_max_le [of "\<lambda>p. jdepth (snd p)" ps d] by (simp add: case_prod_beta')

definition seps_ok :: "dump_opts \<Rightarrow> bool" where
  "seps_ok p \<longleftrightarrow>
     (\<exists>w. item_separator p = 44 # w \<and> list_all is_ws w) \<and>
     (\<exists>w. key_separator p = 58 # w \<and> list_all is_ws w)"

definition hook_ok :: "json_opts \<Rightarrow> bool" where
  "hook_ok jo \<longleftrightarrow> (\<forall>ps. distinct (map fst ps) \<longrightarrow> object_hook jo ps = Some (JObj ps))"

lemma dict_insert_new: "k \<notin> fst ` set d \<Longrightarrow> dict_insert d k v = d @ [(k, v)]"
  by (induction d k v rule: dict_insert.induct) auto

lemma dict_of_append_distinct:
  "distinct (map fst (d @ ps)) \<Longrightarrow> foldl (\<lambda>d (k, v). dict_insert d k v) d ps = d @ ps"
proof (induction ps arbitrary: d)
  case (Cons p ps)
  obtain k v where p: "p = (k, v)" by (cases p)
  with Cons.prems have "k \<notin> fst ` set d" by auto
  then show ?case using Cons.IH [of "d @ [p]"] Cons.prems by (simp add: p dict_insert_new)
qed simp

lemma dict_of_distinct: "distinct (map fst ps) \<Longrightarrow> dict_of ps = ps"
  using dict_of_append_distinct [of "[]" ps] by (simp add: dict_of_def)

lemma hook_ok_plain: "hook_ok (plain_opts fl)"
  by (simp add: hook_ok_def plain_opts_def dict_of_distinct)

lemma seps_ok_dumps: "seps_ok default_dump" "seps_ok compact_ascii" "seps_ok compact_unicode"
  by (simp_all add: seps_ok_def default_dump_def compact_ascii_def compact_unicode_def str_def is_ws_def)

section \<open>Strings round trip\<close>

lemma hex_digit_char: "n < 16 \<Longrightarrow> hex_digit (hex_char n) = Some n"
  by (simp add: hex_digit_def hex_char_def is_digit_def)

lemma hex4_body:
  assumes "u < 65536"
  shows "hex4 (hex_body u @ r) = Some (u, r)"
proof -
  have "u div 4096 < 16" using assms by linarith
  moreover have "((u div 4096 * 16 + u div 256 mod 16) * 16 + u div 16 mod 16) * 16 + u mod 16 = u"
  proof -
    have "u div 256 = u div 16 div 16" "u div 4096 = u div 16 div 16 div 16"
      using div_mult2_eq [of u 16 16] div_mult2_eq [of u 256 16] by simp_all
    then show ?thesis
      by (metis div_mult_mod_eq)
  qed
  ultimately show ?thesis by (simp add: hex_body_def hex_digit_char)
qed

lemma escape_bmp:
  assumes "u < 65536" "\<not> is_high_surrogate u"
  shows "escape (117 # hex_body u @ r) = Some (u, r)"
  using assms by (simp add: hex4_body)

lemma escape_pair:
  assumes "65536 \<le> c" "c < 1114112"
  shows "escape (117 # hex_body (55296 + (c - 65536) div 1024)
           @ hex_escape (56320 + (c - 65536) mod 1024) @ r) = Some (c, r)"
proof -
  define h where "h = 55296 + (c - 65536) div 1024"
  define l where "l = 56320 + (c - 65536) mod 1024"
  have h: "h < 65536" "is_high_surrogate h"
    using assms by (auto simp: is_high_surrogate_def h_def)
  have m: "(c - 65536) mod 1024 < 1024" by simp
  then have l: "l < 65536" "is_low_surrogate l" by (auto simp: is_low_surrogate_def l_def)
  have "join_surrogates h l = c" using assms by (simp add: join_surrogates_def h_def l_def)
  with h l show ?thesis
    by (simp add: hex4_body hex_escape_def flip: h_def l_def)
qed

lemma escape_char_cases:
  obtains (short) e where "escape_char a c = [92, e]" "simple_escape e = Some c" "e \<noteq> 117"
  | (bmp) "escape_char a c = hex_escape c" "c < 65536" "c < 32 \<or> 126 < c"
  | (pair) "escape_char a c = hex_escape (55296 + (c - 65536) div 1024)
        @ hex_escape (56320 + (c - 65536) mod 1024)" "65536 \<le> c"
  | (plain) "escape_char a c = [c]" "32 \<le> c" "c \<noteq> 34" "c \<noteq> 92"
proof -
  consider "c = 34 \<or> c = 92 \<or> c = 10 \<or> c = 13 \<or> c = 9 \<or> c = 12 \<or> c = 8"
    | "c < 32 \<and> c \<noteq> 10 \<and> c \<noteq> 13 \<and> c \<noteq> 9 \<and> c \<noteq> 12 \<and> c \<noteq> 8"
    | "32 \<le> c \<and> c \<noteq> 34 \<and> c \<noteq> 92" by linarith
  then show ?thesis
  proof cases
    case 1
    then show ?thesis by (elim disjE) (auto simp: escape_char_def simple_escape_def intro: short)
  next
    case 2
    then show ?thesis by (intro bmp) (auto simp: escape_char_def)
  next
    case 3
    then show ?thesis
      by (cases "a \<and> 126 < c"; cases "c < 65536")
        (auto simp: escape_char_def intro: bmp pair plain)
  qed
qed

lemma scan_string_escape_char:
  assumes "is_scalar c"
  shows "scan_string (escape_char a c @ r) = map_option (\<lambda>(t, e). (c # t, e)) (scan_string r)"
  using escape_char_cases [of a c]
proof cases
  case (short e)
  then show ?thesis by simp
next
  case bmp
  moreover have "\<not> is_high_surrogate c" using assms by (auto simp: surrogate_defs)
  ultimately have "escape (117 # hex_body c @ r) = Some (c, r)" by (intro escape_bmp)
  then show ?thesis
    unfolding bmp(1) hex_escape_def by (simp del: escape.simps)
next
  case pair
  moreover have "c < 1114112" using assms by (simp add: is_scalar_def)
  ultimately have "escape (117 # hex_body (55296 + (c - 65536) div 1024)
      @ hex_escape (56320 + (c - 65536) mod 1024) @ r) = Some (c, r)"
    by (intro escape_pair) (simp_all add: pair)
  moreover have "escape_char a c @ r = 92 # 117 # hex_body (55296 + (c - 65536) div 1024)
      @ hex_escape (56320 + (c - 65536) mod 1024) @ r"
    unfolding pair(1) hex_escape_def [of "55296 + (c - 65536) div 1024"] by simp
  ultimately show ?thesis by (simp del: escape.simps)
next
  case plain
  then show ?thesis by simp
qed

lemma scan_string_quote:
  "list_all is_scalar s \<Longrightarrow> scan_string (tl (quote a s) @ r) = Some (s, r)"
  unfolding quote_def list.sel(3)
  by (induction s) (simp_all add: scan_string_escape_char)

lemma quote_hd: "quote a s = 34 # tl (quote a s)"
  by (simp add: quote_def)

section \<open>Numbers round trip\<close>

definition num_stop :: "pystr \<Rightarrow> bool" where
  "num_stop r \<longleftrightarrow>
     (case r of [] \<Rightarrow> True | c # _ \<Rightarrow> \<not> is_digit c \<and> c \<noteq> 46 \<and> c \<noteq> 101 \<and> c \<noteq> 69)"

lemma finish_number_int:
  "num_stop r \<Longrightarrow> length ds \<le> max_int_digits \<Longrightarrow>
     finish_number jo neg ds r =
       POk (JInt (if neg then - int (digits_value ds) else int (digits_value ds))) r"
  by (auto simp: finish_number_def scan_frac_def scan_exp_def num_stop_def split: list.splits)

lemma digit_run:
  "list_all is_digit ds \<Longrightarrow> r = [] \<or> \<not> is_digit (hd r) \<Longrightarrow>
     takeWhile is_digit (ds @ r) = ds \<and> dropWhile is_digit (ds @ r) = r"
  by (induction ds; cases r) auto

lemma scan_digits_show_nat:
  assumes "num_stop r" "length (show_nat n) \<le> max_int_digits"
  shows "scan_digits jo neg (show_nat n @ r) = POk (JInt (if neg then - int n else int n)) r"
proof -
  obtain c t where ct: "show_nat n = c # t" by (cases "show_nat n") auto
  have dig: "list_all is_digit (show_nat n)" by (rule show_nat_digits)
  have r: "r = [] \<or> \<not> is_digit (hd r)" using assms(1) by (auto simp: num_stop_def split: list.splits)
  show ?thesis
  proof (cases "n = 0")
    case True
    then have "show_nat n = [48]" by (simp add: show_nat.simps)
    with True assms show ?thesis
      by (simp add: scan_digits_def finish_number_int digits_value_def)
  next
    case False
    then have "c \<noteq> 48" using show_nat_hd [of n] ct by simp
    moreover have "takeWhile is_digit (show_nat n @ r) = show_nat n"
      "dropWhile is_digit (show_nat n @ r) = r"
      using digit_run [OF dig r] by simp_all
    moreover have "is_digit c" using dig ct by simp
    ultimately have "scan_digits jo neg (show_nat n @ r) = finish_number jo neg (show_nat n) r"
      using ct by (simp add: scan_digits_def)
    with assms show ?thesis by (simp add: finish_number_int)
  qed
qed

lemma scan_word_number:
  "is_digit c \<or> c = 45 \<and> (\<exists>d t. s = d # t \<and> is_digit d) \<Longrightarrow>
     scan_word jo (c # s) = scan_number jo (c # s)"
  by (auto simp: scan_word_def str_def is_digit_def)

lemma scan_word_show_int:
  assumes "num_stop r" "length (show_nat (nat \<bar>i\<bar>)) \<le> max_int_digits"
  shows "scan_word jo (show_int i @ r) = POk (JInt i) r"
proof -
  obtain c t where ct: "show_nat (nat \<bar>i\<bar>) = c # t" by (cases "show_nat (nat \<bar>i\<bar>)") auto
  with show_nat_digits [of "nat \<bar>i\<bar>"] have dig: "is_digit c" by simp
  then have c: "c \<noteq> 45" by (auto simp: is_digit_def)
  show ?thesis
  proof (cases "i < 0")
    case True
    then have "show_int i @ r = 45 # show_nat (nat \<bar>i\<bar>) @ r" by (simp add: show_int_def)
    moreover have "scan_word jo (45 # show_nat (nat \<bar>i\<bar>) @ r)
        = scan_number jo (45 # show_nat (nat \<bar>i\<bar>) @ r)"
      using ct dig by (intro scan_word_number) simp
    ultimately show ?thesis
      using True assms(2) scan_digits_show_nat [OF assms(1), of "nat (- i)" jo True]
      by (simp add: scan_number_def)
  next
    case False
    then have "show_int i @ r = show_nat (nat \<bar>i\<bar>) @ r" by (simp add: show_int_def)
    moreover have "scan_word jo (show_nat (nat \<bar>i\<bar>) @ r) = scan_number jo (show_nat (nat \<bar>i\<bar>) @ r)"
      using ct dig by (simp add: scan_word_number)
    moreover have "scan_number jo (show_nat (nat \<bar>i\<bar>) @ r)
        = scan_digits jo False (show_nat (nat \<bar>i\<bar>) @ r)"
      using ct c by (simp add: scan_number_def)
    ultimately show ?thesis
      using False assms(2) scan_digits_show_nat [OF assms(1), of "nat i" jo False] by simp
  qed
qed

section \<open>Values round trip\<close>

lemma json_dumps_hd:
  assumes "wf_json v"
  obtains c t where "json_dumps p v = c # t" "\<not> is_ws c" "c \<noteq> 93" "c \<noteq> 125"
proof (cases v)
  case (JInt i)
  obtain c t where ct: "show_nat (nat \<bar>i\<bar>) = c # t" by (cases "show_nat (nat \<bar>i\<bar>)") auto
  with show_nat_digits [of "nat \<bar>i\<bar>"] have "is_digit c" by simp
  then have "\<not> is_ws c" "c \<noteq> 93" "c \<noteq> 125" by (auto simp: is_digit_def is_ws_def)
  with ct JInt show ?thesis
    by (cases "i < 0") (auto simp: show_int_def is_ws_def intro: that)
next
  case (JBool b)
  then show ?thesis by (cases b) (auto simp: str_def is_ws_def intro: that)
qed (use assms in \<open>auto simp: str_def quote_def is_ws_def intro: that\<close>)

lemma skip_ws_json_dumps: "wf_json v \<Longrightarrow> skip_ws (json_dumps p v @ r) = json_dumps p v @ r"
  by (erule json_dumps_hd [of v p]) simp

definition parses :: "json_opts \<Rightarrow> dump_opts \<Rightarrow> json \<Rightarrow> bool" where
  "parses jo p v \<longleftrightarrow>
     (\<forall>n d r. jdepth v \<le> d \<longrightarrow> num_stop r \<longrightarrow> 2 * length (json_dumps p v @ r) + 1 \<le> n \<longrightarrow>
        parse_value jo n d (json_dumps p v @ r) = POk v r)"

lemma parsesD:
  "parses jo p v \<Longrightarrow> jdepth v \<le> d \<Longrightarrow> num_stop r \<Longrightarrow> 2 * length (json_dumps p v @ r) + 1 \<le> n \<Longrightarrow>
     parse_value jo n d (json_dumps p v @ r) = POk v r"
  by (simp add: parses_def)

lemma num_stop_punct: "num_stop (44 # r)" "num_stop (93 # r)" "num_stop (125 # r)" "num_stop []"
  by (simp_all add: num_stop_def is_digit_def)

lemma not_ws_punct: "\<not> is_ws 44" "\<not> is_ws 58" "\<not> is_ws 93" "\<not> is_ws 125" "\<not> is_ws 34"
  by (simp_all add: is_ws_def)

lemma parse_elems_dumps:
  assumes sep: "item_separator p = 44 # w" "list_all is_ws w"
  shows "\<forall>v \<in> set vs. parses jo p v \<and> wf_json v \<and> jdepth v \<le> d \<Longrightarrow> vs \<noteq> [] \<Longrightarrow>
    2 * length (join (item_separator p) (map (json_dumps p) vs) @ 93 # r) + 2 \<le> n \<Longrightarrow>
    parse_elems jo n d (join (item_separator p) (map (json_dumps p) vs) @ 93 # r) = POk vs r"
proof (induction vs arbitrary: n)
  case (Cons v vs)
  from Cons.prems(3) obtain m where n: "n = Suc m" by (cases n) auto
  show ?case
  proof (cases vs)
    case Nil
    have "parse_value jo m d (json_dumps p v @ 93 # r) = POk v (93 # r)"
      using Cons.prems Nil by (intro parsesD) (auto simp: n num_stop_punct)
    with Nil show ?thesis by (simp add: n not_ws_punct)
  next
    case (Cons u us)
    let ?rest = "join (item_separator p) (map (json_dumps p) vs) @ 93 # r"
    have split: "join (item_separator p) (map (json_dumps p) (v # vs)) @ 93 # r
        = json_dumps p v @ 44 # w @ ?rest"
      using Cons sep(1) by simp
    from Cons.prems(3) have len: "2 * length (json_dumps p v @ 44 # w @ ?rest) + 2 \<le> Suc m"
      unfolding split n .
    have v: "parse_value jo m d (json_dumps p v @ 44 # w @ ?rest) = POk v (44 # w @ ?rest)"
      using Cons.prems(1) len by (intro parsesD) (auto simp: num_stop_punct)
    have ws: "skip_ws (w @ ?rest) = ?rest"
      using Cons.prems(1) Cons sep(2) skip_ws_json_dumps [of u p]
      by (simp add: skip_ws_append) (cases us; simp)
    have "parse_elems jo m d ?rest = POk vs r"
      using Cons.prems(1) Cons len by (intro Cons.IH) auto
    then show ?thesis unfolding split n by (simp add: v ws not_ws_punct)
  qed
qed simp

lemma num_stop_blank: "list_all is_ws b \<Longrightarrow> num_stop (c # r) \<Longrightarrow> num_stop (b @ c # r)"
  by (cases b) (auto simp: num_stop_def is_ws_def is_digit_def)

text \<open>The members, with blanks before the closing brace.\<close>

lemma parse_members_padded:
  assumes sep: "item_separator p = 44 # w" "list_all is_ws w"
    and ksep: "key_separator p = 58 # u" "list_all is_ws u"
    and blank: "list_all is_ws b"
    and member: "member = (\<lambda>(k, v). quote (ensure_ascii p) k @ key_separator p @ json_dumps p v)"
  shows "\<forall>(k, v) \<in> set ps. parses jo p v \<and> wf_json v \<and> jdepth v \<le> d \<and> list_all is_scalar k \<Longrightarrow>
    ps \<noteq> [] \<Longrightarrow> 2 * length (join (item_separator p) (map member ps) @ b @ 125 # r) + 2 \<le> n \<Longrightarrow>
    parse_members jo n d (join (item_separator p) (map member ps) @ b @ 125 # r) = POk ps r"
proof (induction ps arbitrary: n)
  case (Cons kv ps)
  obtain k v where kv: "kv = (k, v)" by (cases kv)
  from Cons.prems(3) obtain m where n: "n = Suc m" by (cases n) auto
  have mem: "member kv @ t = 34 # tl (quote (ensure_ascii p) k) @ 58 # u @ json_dumps p v @ t" for t
    unfolding member kv ksep(1) by (simp, subst quote_hd) simp
  have key: "scan_string (tl (quote (ensure_ascii p) k) @ t) = Some (k, t)" for t
    using Cons.prems(1) by (intro scan_string_quote) (auto simp: kv)
  have kws: "skip_ws (u @ json_dumps p v @ t) = json_dumps p v @ t" for t
    using Cons.prems(1) ksep(2) by (simp add: skip_ws_append skip_ws_json_dumps kv)
  show ?case
  proof (cases ps)
    case Nil
    have end_: "skip_ws (b @ 125 # r) = 125 # r" using blank by (simp add: skip_ws_append not_ws_punct)
    have "parse_value jo m d (json_dumps p v @ b @ 125 # r) = POk v (b @ 125 # r)"
      using Cons.prems Nil num_stop_blank [OF blank num_stop_punct(3), of r]
      by (intro parsesD) (auto simp: n kv member)
    moreover have split: "join (item_separator p) (map member (kv # ps)) @ b @ 125 # r = member kv @ b @ 125 # r"
      using Nil by simp
    ultimately show ?thesis
      unfolding split n mem by (simp add: key kws end_ not_ws_punct kv Nil)
  next
    case (Cons y ys)
    let ?rest = "join (item_separator p) (map member ps) @ b @ 125 # r"
    have split: "join (item_separator p) (map member (kv # ps)) @ b @ 125 # r = member kv @ 44 # w @ ?rest"
      using Cons sep(1) by simp
    from Cons.prems(3) have len: "2 * length (member kv @ 44 # w @ ?rest) + 2 \<le> Suc m"
      unfolding split n .
    have v: "parse_value jo m d (json_dumps p v @ 44 # w @ ?rest) = POk v (44 # w @ ?rest)"
      using Cons.prems(1) len by (intro parsesD) (auto simp: num_stop_punct kv member)
    have hd: "?rest = 34 # tl ?rest"
    proof -
      have "member y @ t = 34 # tl (member y @ t)" for t
        unfolding member by (cases y) (simp, subst (1 2) quote_hd, simp)
      then show ?thesis using Cons by (cases ys) simp_all
    qed
    have ws: "skip_ws (w @ ?rest) = ?rest"
      using sep(2) by (simp only: skip_ws_append) (subst (1 2) hd, simp add: not_ws_punct)
    have "parse_members jo m d ?rest = POk ps r"
      using Cons.prems(1) Cons len by (intro Cons.IH) auto
    then show ?thesis
      unfolding split n mem by (simp add: key kws v ws not_ws_punct kv)
  qed
qed simp

lemma parses_word:
  "parses jo p JNull" "parses jo p (JBool True)" "parses jo p (JBool False)"
proof -
  have "parse_value jo n d (w @ r) = scan_word jo (w @ r)"
    if "w \<in> {str ''null'', str ''true'', str ''false''}" "0 < n" for n d w r
    using that by (cases n) (auto simp: str_def)
  then show "parses jo p JNull" "parses jo p (JBool True)" "parses jo p (JBool False)"
    by (simp_all add: parses_def scan_word_def) (simp_all add: str_def)
qed

lemma parses_JInt:
  assumes "wf_json (JInt i)"
  shows "parses jo p (JInt i)"
proof -
  obtain c t where ct: "show_nat (nat \<bar>i\<bar>) = c # t" by (cases "show_nat (nat \<bar>i\<bar>)") auto
  with show_nat_digits [of "nat \<bar>i\<bar>"] have "is_digit c" by simp
  with ct obtain b u where b: "show_int i = b # u" "b \<noteq> 34" "b \<noteq> 123" "b \<noteq> 91"
    by (cases "i < 0") (auto simp: show_int_def is_digit_def)
  have "parse_value jo n d (show_int i @ r) = scan_word jo (show_int i @ r)" if "0 < n" for n d r
    using that b by (cases n) auto
  with scan_word_show_int assms show ?thesis by (simp add: parses_def)
qed

lemma parses_JStr: "wf_json (JStr s) \<Longrightarrow> parses jo p (JStr s)"
  unfolding parses_def
proof (intro allI impI)
  fix n d r
  assume wf: "wf_json (JStr s)" and n: "2 * length (json_dumps p (JStr s) @ r) + 1 \<le> n"
  from n obtain m where m: "n = Suc m" by (cases n) auto
  have eq: "json_dumps p (JStr s) @ r = 34 # tl (quote (ensure_ascii p) s) @ r"
    by (simp, subst quote_hd) simp
  show "parse_value jo n d (json_dumps p (JStr s) @ r) = POk (JStr s) r"
    unfolding m eq using wf by (simp add: scan_string_quote)
qed

lemma parses_JArr:
  assumes sep: "item_separator p = 44 # w" "list_all is_ws w"
    and vs: "\<forall>v \<in> set vs. parses jo p v \<and> wf_json v"
  shows "parses jo p (JArr vs)"
  unfolding parses_def
proof (intro allI impI)
  fix n d r
  assume d: "jdepth (JArr vs) \<le> d" and n: "2 * length (json_dumps p (JArr vs) @ r) + 1 \<le> n"
  from d obtain e where e: "d = Suc e" by (cases d) auto
  from n obtain m where m: "n = Suc m" by (cases n) auto
  show "parse_value jo n d (json_dumps p (JArr vs) @ r) = POk (JArr vs) r"
  proof (cases vs)
    case Nil
    then show ?thesis by (simp add: m e not_ws_punct)
  next
    case (Cons v us)
    let ?s = "join (item_separator p) (map (json_dumps p) vs) @ 93 # r"
    obtain c t where c: "json_dumps p v = c # t" "\<not> is_ws c" "c \<noteq> 93"
      using vs Cons by (auto intro: json_dumps_hd [of v p])
    then have s: "?s = c # tl ?s" using Cons by (cases us) simp_all
    have "\<forall>v \<in> set vs. jdepth v \<le> e" using d unfolding e jdepth_JArr_le .
    with vs have "parse_elems jo m e ?s = POk vs r"
      using n by (intro parse_elems_dumps [OF sep]) (simp_all add: m Cons)
    moreover have "skip_ws ?s = ?s" by (subst (1 2) s) (simp add: c(2))
    moreover have "expect 93 ?s = None" by (subst s) (simp add: c(3))
    ultimately show ?thesis by (simp add: m e)
  qed
qed

lemma parses_JObj:
  assumes sep: "item_separator p = 44 # w" "list_all is_ws w"
    and ksep: "key_separator p = 58 # u" "list_all is_ws u"
    and hook: "hook_ok jo" and dist: "distinct (map fst ps)"
    and ps: "\<forall>(k, v) \<in> set ps. parses jo p v \<and> wf_json v \<and> list_all is_scalar k"
  shows "parses jo p (JObj ps)"
  unfolding parses_def
proof (intro allI impI)
  fix n d r
  let ?m = "\<lambda>(k, v). quote (ensure_ascii p) k @ key_separator p @ json_dumps p v"
  assume d: "jdepth (JObj ps) \<le> d" and n: "2 * length (json_dumps p (JObj ps) @ r) + 1 \<le> n"
  from d obtain e where e: "d = Suc e" by (cases d) auto
  from n obtain m where m: "n = Suc m" by (cases n) auto
  have h: "object_hook jo ps = Some (JObj ps)" using hook dist by (simp add: hook_ok_def)
  show "parse_value jo n d (json_dumps p (JObj ps) @ r) = POk (JObj ps) r"
  proof (cases ps)
    case Nil
    with h show ?thesis by (simp add: m e not_ws_punct)
  next
    case (Cons kv qs)
    let ?s = "join (item_separator p) (map ?m ps) @ 125 # r"
    have "?m kv @ t = 34 # tl (?m kv @ t)" for t
      by (cases kv) (simp, subst (1 2) quote_hd, simp)
    then have s: "?s = 34 # tl ?s" using Cons by (cases qs) simp_all
    have "\<forall>q \<in> set ps. jdepth (snd q) \<le> e" using d unfolding e jdepth_JObj_le .
    with ps have "\<forall>(k, v) \<in> set ps. parses jo p v \<and> wf_json v \<and> jdepth v \<le> e \<and> list_all is_scalar k"
      by auto
    then have "parse_members jo m e ?s = POk ps r"
      using n by (intro parse_members_padded [OF sep ksep, where b = "[]", simplified]) (simp_all add: m Cons)
    moreover have "skip_ws ?s = ?s" by (subst (1 2) s) (simp add: not_ws_punct)
    moreover have "expect 125 ?s = None" by (subst s) simp
    ultimately show ?thesis using h by (simp add: m e)
  qed
qed

lemma parses_dumps:
  assumes "seps_ok p" "hook_ok jo"
  shows "wf_json v \<Longrightarrow> parses jo p v"
proof (induction v)
  case (JBool b)
  then show ?case by (cases b) (simp_all add: parses_word)
next
  case (JArr vs)
  with assms show ?case by (auto simp: seps_ok_def intro: parses_JArr)
next
  case (JObj ps)
  have "parses jo p v" if "(k, v) \<in> set ps" for k v
    using JObj that by (auto intro: JObj.IH)
  with JObj.prems assms show ?case
    by (auto simp: seps_ok_def case_prod_beta' intro!: parses_JObj)
qed (simp_all add: parses_word parses_JInt parses_JStr)

text \<open>What was printed is loaded back, from text; the recursion limit must allow its depth.\<close>

theorem json_loads_dumps:
  assumes "seps_ok p" "hook_ok jo" "wf_json v" "jdepth v \<le> lim"
  shows "json_loads jo lim (RawStr (json_dumps p v)) = Inr v"
proof -
  obtain c t where c: "json_dumps p v = c # t" "\<not> is_ws c" using assms(3) by (rule json_dumps_hd)
  have "parses jo p v" using parses_dumps assms by blast
  from parsesD [OF this assms(4), of "[]"]
  have parse: "parse_value jo (json_fuel (json_dumps p v)) lim (json_dumps p v) = POk v []"
    by (simp add: num_stop_punct json_fuel_def del: parse_value.simps)
  have "\<not> prefix [65279] (json_dumps p v)"
  proof
    assume "prefix [65279] (json_dumps p v)"
    with c have "json_dumps p v = 65279 # t" by simp
    with parse show False
      by (simp add: json_fuel_def scan_word_def str_def scan_number_def scan_digits_def is_digit_def)
  qed
  with parse c show ?thesis
    by (simp add: json_loads_def json_decode_def skip_ws_def del: parse_value.simps)
qed

section \<open>What the output looks like\<close>

definition is_printable :: "nat \<Rightarrow> bool" where
  "is_printable c \<longleftrightarrow> 32 \<le> c \<and> c \<le> 126"

lemma is_printable_numeral [simp]:
  "is_printable (numeral n) \<longleftrightarrow> 32 \<le> (numeral n :: nat) \<and> (numeral n :: nat) \<le> 126"
  by (simp add: is_printable_def)

lemma hex_char_printable: "n < 16 \<Longrightarrow> is_printable (hex_char n)"
  by (auto simp: hex_char_def is_printable_def)

lemma hex_escape_printable: "u < 65536 \<Longrightarrow> list_all is_printable (hex_escape u)"
  by (simp add: hex_escape_def hex_body_def hex_char_printable div_less_iff_less_mult)

lemma escape_char_printable:
  assumes "is_codepoint c"
  shows "list_all is_printable (escape_char True c)"
proof -
  have "(c - 65536) mod 1024 < 1024" by simp
  then have "56320 + (c - 65536) mod 1024 < 65536" by linarith
  moreover have "55296 + (c - 65536) div 1024 < 65536"
    using assms unfolding is_codepoint_def by linarith
  ultimately show ?thesis
    by (auto simp: escape_char_def hex_escape_printable is_printable_def)
qed

lemma quote_printable: "list_all is_codepoint s \<Longrightarrow> list_all is_printable (quote True s)"
  by (induction s) (auto simp: quote_def escape_char_printable)

lemma join_all: "list_all P sep \<Longrightarrow> (\<forall>x \<in> set xs. list_all P x) \<Longrightarrow> list_all P (join sep xs)"
  by (induction sep xs rule: join.induct) auto

lemma is_scalar_codepoint: "list_all is_scalar s \<Longrightarrow> list_all is_codepoint s"
  by (auto simp: list_all_iff surrogate_defs)

text \<open>With \<open>ensure_ascii\<close> the output is printable ASCII: no control character, no line break.\<close>

lemma json_dumps_printable:
  assumes "ensure_ascii p" "list_all is_printable (item_separator p)"
    "list_all is_printable (key_separator p)"
  shows "wf_json v \<Longrightarrow> list_all is_printable (json_dumps p v)"
proof (induction v)
  case (JInt i)
  have "list_all is_printable (show_nat n)" for n
    using show_nat_digits [of n] by (auto simp: list_all_iff is_digit_def is_printable_def)
  then show ?case by (simp add: show_int_def)
next
  case (JStr s)
  then show ?case using assms(1) by (simp add: quote_printable is_scalar_codepoint)
next
  case (JArr vs)
  then show ?case using assms by (auto intro!: join_all)
next
  case (JObj ps)
  have "list_all is_printable (quote True k @ key_separator p @ json_dumps p v)"
    if "(k, v) \<in> set ps" for k v
    using JObj that assms by (auto simp: quote_printable is_scalar_codepoint intro: JObj.IH)
  then show ?case
    using assms by (auto intro!: join_all)
qed (auto simp: str_def)

lemma printable_ascii: "list_all is_printable s \<Longrightarrow> list_all (\<lambda>c. c < 128) s"
  by (auto simp: list_all_iff is_printable_def)

lemma printable_scalar: "list_all is_printable s \<Longrightarrow> list_all is_scalar s"
  by (auto simp: list_all_iff is_printable_def surrogate_defs)

text \<open>How long a quoted text is: at most two per printable character, six per other BMP one.\<close>

lemma quote_length_printable:
  "list_all is_printable s \<Longrightarrow> length (quote a s) \<le> 2 * length s + 2"
  by (induction s) (auto simp: quote_def escape_char_def is_printable_def)

lemma quote_length_non_ascii:
  "list_all (\<lambda>c. 126 < c \<and> c < 65536) s \<Longrightarrow> length (quote True s) = 6 * length s + 2"
  by (induction s) (auto simp: quote_def escape_char_def hex_escape_def hex_body_def)

lemma escape_char_length: "length (escape_char a c) \<le> 12"
  by (simp add: escape_char_def hex_escape_def hex_body_def)

lemma quote_length: "length (quote a s) \<le> 12 * length s + 2"
proof (induction s)
  case (Cons c s)
  then show ?case using escape_char_length [of a c] by (simp add: quote_def)
qed (simp add: quote_def)

section \<open>The contract of a wire format\<close>

text \<open>
  What bootstrap.py and transcript_history.py rely on when they print a value and somebody
  loads it: the value comes back, and the text is printable ASCII, so that its characters
  are its bytes and cutting it anywhere cuts no character.
\<close>

locale wire_format =
  fixes enc :: "'a \<Rightarrow> pystr"
    and dec :: "pystr \<Rightarrow> 'a result"
    and sendable :: "'a \<Rightarrow> bool"
  assumes dec_enc: "sendable v \<Longrightarrow> dec (enc v) = Inr v"
    and enc_printable: "sendable v \<Longrightarrow> list_all is_printable (enc v)"
begin

lemma enc_inject: "sendable u \<Longrightarrow> sendable v \<Longrightarrow> enc u = enc v \<Longrightarrow> u = v"
  using dec_enc by (metis sum.inject(2))

lemma enc_bytes: "sendable v \<Longrightarrow> utf8_encode (enc v) = Inr (enc v)"
proof -
  assume v: "sendable v"
  have "\<not> list_ex is_surrogate (enc v)"
    using enc_printable [OF v] by (auto simp: list_ex_iff list_all_iff is_printable_def surrogate_defs)
  then show ?thesis
    using utf8_bytes_ascii [OF printable_ascii [OF enc_printable [OF v]]]
    by (simp add: utf8_encode_def)
qed

lemma dec_pages: "sendable v \<Longrightarrow> concat pages = enc v \<Longrightarrow> dec (concat pages) = Inr v"
  by (simp add: dec_enc)

end

definition ascii_seps :: "dump_opts \<Rightarrow> bool" where
  "ascii_seps p \<longleftrightarrow> ensure_ascii p \<and> list_all is_printable (item_separator p)
     \<and> list_all is_printable (key_separator p)"

lemma ascii_seps_dumps: "ascii_seps default_dump" "ascii_seps compact_ascii"
  by (simp_all add: ascii_seps_def default_dump_def compact_ascii_def str_def is_printable_def)

interpretation json_wire: wire_format "json_dumps default_dump"
    "\<lambda>s. json_loads (plain_opts fl) lim (RawStr s)" "\<lambda>v. wf_json v \<and> jdepth v \<le> lim" for fl lim
  by unfold_locales
    (use json_dumps_printable ascii_seps_dumps in
      \<open>auto simp: ascii_seps_def intro: json_loads_dumps seps_ok_dumps hook_ok_plain\<close>)

interpretation compact_wire: wire_format "json_dumps compact_ascii"
    "\<lambda>s. json_loads (plain_opts fl) lim (RawStr s)" "\<lambda>v. wf_json v \<and> jdepth v \<le> lim" for fl lim
  by unfold_locales
    (use json_dumps_printable ascii_seps_dumps in
      \<open>auto simp: ascii_seps_def intro: json_loads_dumps seps_ok_dumps hook_ok_plain\<close>)


end
