(* ===== verification/Interpreter.thy ===== *)
theory Interpreter
  imports Complex_Main Json_Print
begin

text \<open>
  What the language's interpreter and its Unicode tables decide, as one record of
  parameters, and the parts of its standard library that config.py calls, over that record:
  \<open>float\<close>, \<open>str.lower\<close>, \<open>uuid.UUID\<close> and \<open>urllib.parse.urlsplit\<close> with the
  attributes of its result. Each function is read exactly where its behaviour is fixed (ASCII
  text, plain hexadecimal digits) and left to the parameter elsewhere.
\<close>

datatype pyfloat = Fin rat | PosInf | NegInf | NaN

record python =
  rec_limit :: nat
  repr_float :: "pystr \<Rightarrow> pystr"
  float_of :: "pystr \<Rightarrow> pyfloat option"
  unicode_lower :: "pystr \<Rightarrow> pystr"
  int_base16 :: "pystr \<Rightarrow> int option"
  bracket_ok :: "pystr \<Rightarrow> bool"
  nfkc_ok :: "pystr \<Rightarrow> bool"

definition is_ascii :: "pystr \<Rightarrow> bool" where
  "is_ascii s \<longleftrightarrow> list_all (\<lambda>c. c < 128) s"

definition py_lower :: "python \<Rightarrow> pystr \<Rightarrow> pystr" where
  "py_lower py s = (if is_ascii s then ascii_lower s else unicode_lower py s)"

text \<open>\<open>lo <= f <= hi\<close> on a float; a NaN is in no range.\<close>

fun float_between :: "rat \<Rightarrow> rat \<Rightarrow> pyfloat \<Rightarrow> bool" where
  "float_between lo hi (Fin r) = (lo \<le> r \<and> r \<le> hi)"
| "float_between lo hi x = False"

section \<open>\<open>uuid.UUID\<close>\<close>

definition is_lower_hex :: "nat \<Rightarrow> bool" where
  "is_lower_hex c \<longleftrightarrow> is_digit c \<or> 97 \<le> c \<and> c \<le> 102"

definition is_hex :: "nat \<Rightarrow> bool" where
  "is_hex c \<longleftrightarrow> hex_digit c \<noteq> None"

definition hex_value :: "pystr \<Rightarrow> nat" where
  "hex_value s = foldl (\<lambda>v c. 16 * v + the (hex_digit c)) 0 s"

text \<open>\<open>int(h, 16)\<close>: plain digits are read here, every other spelling by the parameter.\<close>

definition int_of_hex :: "python \<Rightarrow> pystr \<Rightarrow> int option" where
  "int_of_hex py h = (if h \<noteq> [] \<and> list_all is_hex h then Some (int (hex_value h)) else int_base16 py h)"

text \<open>\<open>s.replace(sub, '')\<close> for a non-empty \<open>sub\<close>.\<close>

function remove_all :: "pystr \<Rightarrow> pystr \<Rightarrow> pystr" where
  "remove_all sub [] = []"
| "remove_all sub (c # s) =
     (if sub \<noteq> [] \<and> prefix sub (c # s) then remove_all sub (drop (length sub - 1) s)
      else c # remove_all sub s)"
  by pat_completeness auto
termination
  by (relation "measure (\<lambda>(sub, s). length s)") auto

definition uuid_hex :: "pystr \<Rightarrow> pystr" where
  "uuid_hex s =
     filter (\<lambda>c. c \<noteq> 45)
       (strip_by (\<lambda>c. c = 123 \<or> c = 125) (remove_all (str ''uuid:'') (remove_all (str ''urn:'') s)))"

definition uuid_of :: "python \<Rightarrow> pystr \<Rightarrow> nat option" where
  "uuid_of py s =
     (let h = uuid_hex s in
      if length h \<noteq> 32 then None
      else case int_of_hex py h of
        None \<Rightarrow> None
      | Some i \<Rightarrow> if 0 \<le> i \<and> i < 2 ^ 128 then Some (nat i) else None)"

definition hex32 :: "nat \<Rightarrow> pystr" where
  "hex32 n = map (\<lambda>i. hex_char (n div 16 ^ (31 - i) mod 16)) [0..<32]"

definition uuid_str :: "nat \<Rightarrow> pystr" where
  "uuid_str n =
     (let h = hex32 n in
      take 8 h @ 45 # take 4 (drop 8 h) @ 45 # take 4 (drop 12 h) @ 45 # take 4 (drop 16 h)
        @ 45 # drop 20 h)"

text \<open>The canonical spelling: 8-4-4-4-12 lowercase hexadecimal digits.\<close>

definition uuid_grammar :: "pystr \<Rightarrow> bool" where
  "uuid_grammar s \<longleftrightarrow> length s = 36 \<and>
     (\<forall>i < 36. if i \<in> {8, 13, 18, 23} then s ! i = 45 else is_lower_hex (s ! i))"

section \<open>\<open>urlsplit\<close>\<close>

record url =
  url_scheme :: pystr
  url_netloc :: pystr
  url_path :: pystr
  url_query :: pystr
  url_fragment :: pystr

definition is_scheme_char :: "nat \<Rightarrow> bool" where
  "is_scheme_char c \<longleftrightarrow> is_alnum c \<or> c = 43 \<or> c = 45 \<or> c = 46"

definition split_scheme :: "pystr \<Rightarrow> pystr \<times> pystr" where
  "split_scheme s =
     (case partition_at 58 s of (pre, found, post) \<Rightarrow>
        if found \<and> pre \<noteq> [] \<and> (is_upper (hd pre) \<or> is_lower (hd pre)) \<and> list_all is_scheme_char pre
        then (ascii_lower pre, post) else ([], s))"

definition split_netloc :: "pystr \<Rightarrow> pystr \<times> pystr" where
  "split_netloc s =
     (if prefix [47, 47] s then
        (takeWhile (\<lambda>c. c \<notin> {47, 63, 35}) (drop 2 s), dropWhile (\<lambda>c. c \<notin> {47, 63, 35}) (drop 2 s))
      else ([], s))"

definition urlsplit :: "python \<Rightarrow> pystr \<Rightarrow> url option" where
  "urlsplit py s =
     (let s = filter (\<lambda>c. c \<noteq> 9 \<and> c \<noteq> 10 \<and> c \<noteq> 13) (lstrip_by (\<lambda>c. c \<le> 32) s) in
      case split_scheme s of (scheme, rest) \<Rightarrow>
      case split_netloc rest of (netloc, rest) \<Rightarrow>
        if (91 \<in> set netloc) \<noteq> (93 \<in> set netloc) then None
        else if 91 \<in> set netloc \<and> \<not> bracket_ok py netloc then None
        else case partition_at 35 rest of (rest, _, fragment) \<Rightarrow>
          case partition_at 63 rest of (path, _, query) \<Rightarrow>
            if \<not> is_ascii netloc \<and> \<not> nfkc_ok py netloc then None
            else Some \<lparr>url_scheme = scheme, url_netloc = netloc, url_path = path,
                       url_query = query, url_fragment = fragment\<rparr>)"

definition url_hostinfo :: "url \<Rightarrow> pystr \<times> pystr option" where
  "url_hostinfo u =
     (case rpartition_at 64 (url_netloc u) of (_, _, hostinfo) \<Rightarrow>
      case partition_at 91 hostinfo of (_, bracket, bracketed) \<Rightarrow>
      case (if bracket
            then (case partition_at 93 bracketed of (host, _, p) \<Rightarrow>
                    case partition_at 58 p of (_, _, port) \<Rightarrow> (host, port))
            else (case partition_at 58 hostinfo of (host, _, port) \<Rightarrow> (host, port)))
      of (host, port) \<Rightarrow> (host, if port = [] then None else Some port))"

definition url_hostname :: "python \<Rightarrow> url \<Rightarrow> pystr option" where
  "url_hostname py u =
     (let h = fst (url_hostinfo u) in
      if h = [] then None
      else case partition_at 37 h of (a, percent, zone) \<Rightarrow>
        Some (py_lower py a @ (if percent then 37 # zone else [])))"

text \<open>\<open>None\<close> is the \<open>ValueError\<close> of a port that is no number below 65536.\<close>

definition url_port :: "url \<Rightarrow> nat option option" where
  "url_port u =
     (case snd (url_hostinfo u) of
        None \<Rightarrow> Some None
      | Some p \<Rightarrow>
          if list_all is_digit p \<and> digits_value p \<le> 65535 then Some (Some (digits_value p)) else None)"

definition url_userinfo :: "url \<Rightarrow> pystr option \<times> pystr option" where
  "url_userinfo u =
     (case rpartition_at 64 (url_netloc u) of (userinfo, have_info, _) \<Rightarrow>
        if have_info
        then (case partition_at 58 userinfo of (name, have_password, password) \<Rightarrow>
                (Some name, if have_password then Some password else None))
        else (None, None))"

lemma rpartition_at_absent: "fst (snd (rpartition_at c s)) \<longleftrightarrow> c \<in> set s"
proof -
  obtain a f b where p: "partition_at c (rev s) = (a, f, b)" by (cases "partition_at c (rev s)")
  from partition_at_split [OF p] have "f \<longleftrightarrow> c \<in> set (rev s)"
    by (metis Un_iff list.set_intros(1) set_append)
  with p show ?thesis by (simp add: rpartition_at_def)
qed

lemma url_userinfo_None: "fst (url_userinfo u) = None \<longleftrightarrow> 64 \<notin> set (url_netloc u)"
proof -
  obtain a f b where p: "rpartition_at 64 (url_netloc u) = (a, f, b)"
    by (cases "rpartition_at 64 (url_netloc u)")
  with rpartition_at_absent [of 64 "url_netloc u"] show ?thesis
    by (auto simp: url_userinfo_def split: prod.splits)
qed

section \<open>The canonical UUIDs are the ones that \<open>str\<close> prints\<close>

lemma length_hex32 [simp]: "length (hex32 n) = 32"
  by (simp add: hex32_def)

lemma hex_char_lower_hex: "n < 16 \<Longrightarrow> is_lower_hex (hex_char n)"
  by (auto simp: is_lower_hex_def hex_char_def is_digit_def)

lemma hex32_lower: "list_all is_lower_hex (hex32 n)"
  by (auto simp: hex32_def list_all_iff hex_char_lower_hex)

definition dashed :: "pystr \<Rightarrow> pystr" where
  "dashed h = take 8 h @ 45 # take 4 (drop 8 h) @ 45 # take 4 (drop 12 h) @ 45 # take 4 (drop 16 h)
     @ 45 # drop 20 h"

definition undashed :: "pystr \<Rightarrow> pystr" where
  "undashed s = take 8 s @ take 4 (drop 9 s) @ take 4 (drop 14 s) @ take 4 (drop 19 s) @ drop 24 s"

lemma uuid_str_dashed: "uuid_str n = dashed (hex32 n)"
  by (simp add: uuid_str_def dashed_def Let_def)

lemma dashed_nth:
  assumes "length h = 32" "i < 36"
  shows "dashed h ! i =
    (if i \<in> {8, 13, 18, 23} then 45
     else h ! (if i < 8 then i else if i < 13 then i - 1 else if i < 18 then i - 2
               else if i < 23 then i - 3 else i - 4))"
proof -
  have "i - 9 = i - 1 - 8" "i - 14 = i - 2 - 12" "i - 19 = i - 3 - 16" by simp_all
  then show ?thesis
    using assms by (auto simp: dashed_def nth_append nth_Cons' nth_drop less_diff_conv)
qed

lemma dashed_grammar:
  assumes "length h = 32" "list_all is_lower_hex h"
  shows "uuid_grammar (dashed h)"
proof -
  have "is_lower_hex (h ! j)" if "j < 32" for j using assms that by (simp add: list_all_length)
  moreover have "length (dashed h) = 36" using assms by (simp add: dashed_def)
  ultimately show ?thesis
    unfolding uuid_grammar_def by (auto simp: dashed_nth [OF assms(1)])
qed

lemma dash_split:
  assumes "i < length s" "s ! i = 45"
  shows "drop i s = 45 # drop (Suc i) s"
  using assms Cons_nth_drop_Suc [of i s] by simp

lemma uuid_grammar_dashed:
  assumes "uuid_grammar s"
  shows "length (undashed s) = 32" "list_all is_lower_hex (undashed s)" "s = dashed (undashed s)"
proof -
  have len: "length s = 36" using assms by (simp add: uuid_grammar_def)
  have at: "s ! i = 45" if "i \<in> {8, 13, 18, 23}" for i using assms that by (auto simp: uuid_grammar_def)
  show "length (undashed s) = 32" using len by (simp add: undashed_def)
  have eq: "drop 8 s = 45 # take 4 (drop 9 s) @ drop 13 s" "drop 13 s = 45 # take 4 (drop 14 s) @ drop 18 s"
    "drop 18 s = 45 # take 4 (drop 19 s) @ drop 23 s" "drop 23 s = 45 # drop 24 s"
    using len at dash_split [of 8 s] dash_split [of 13 s] dash_split [of 18 s] dash_split [of 23 s]
      append_take_drop_id [of 4 "drop 9 s"] append_take_drop_id [of 4 "drop 14 s"]
      append_take_drop_id [of 4 "drop 19 s"] by (simp_all add: add.commute)
  have "s = take 8 s @ drop 8 s" by simp
  also have "\<dots> = dashed (undashed s)"
    using len by (simp add: eq dashed_def undashed_def)
  finally show "s = dashed (undashed s)" .
  have lower: "is_lower_hex (s ! i)" if "i < 36" "i \<notin> {8, 13, 18, 23}" for i
    using assms that by (auto simp: uuid_grammar_def)
  show "list_all is_lower_hex (undashed s)"
    using len by (auto simp: undashed_def list_all_length nth_append intro!: lower)
qed

text \<open>Reading the 32 digits and printing them again.\<close>

lemma hex_value_snoc: "hex_value (h @ [c]) = 16 * hex_value h + the (hex_digit c)"
  by (simp add: hex_value_def)

lemma lower_hex_digit:
  assumes "is_lower_hex c"
  shows "the (hex_digit c) < 16" "hex_char (the (hex_digit c)) = c" "hex_digit c \<noteq> None"
  using assms by (auto simp: is_lower_hex_def hex_digit_def is_digit_def hex_char_def)

definition hex_digits :: "nat \<Rightarrow> nat \<Rightarrow> pystr" where
  "hex_digits k n = map (\<lambda>i. hex_char (n div 16 ^ (k - 1 - i) mod 16)) [0..<k]"

lemma hex_digits_Suc: "hex_digits (Suc k) n = hex_digits k (n div 16) @ [hex_char (n mod 16)]"
proof -
  have "n div 16 ^ (k - i) = n div 16 div 16 ^ (k - 1 - i)" if "i < k" for i
  proof -
    have "16 ^ (k - i) = (16::nat) * 16 ^ (k - 1 - i)"
      using that by (simp flip: power_Suc)
    then show ?thesis by (simp add: div_mult2_eq)
  qed
  then show ?thesis by (simp add: hex_digits_def)
qed

lemma hex_digits_value: "list_all is_lower_hex h \<Longrightarrow> hex_digits (length h) (hex_value h) = h"
proof (induction h rule: rev_induct)
  case Nil
  show ?case by (simp add: hex_digits_def)
next
  case (snoc c h)
  then show ?case by (simp add: hex_digits_Suc hex_value_snoc lower_hex_digit)
qed

lemma hex_value_bound: "list_all is_lower_hex h \<Longrightarrow> hex_value h < 16 ^ length h"
proof (induction h rule: rev_induct)
  case Nil
  show ?case by (simp add: hex_value_def)
next
  case (snoc c h)
  then have "hex_value h < 16 ^ length h" "the (hex_digit c) < 16" by (simp_all add: lower_hex_digit)
  then show ?case by (simp add: hex_value_snoc)
qed

lemma hex32_value: "length h = 32 \<Longrightarrow> list_all is_lower_hex h \<Longrightarrow> hex32 (hex_value h) = h"
  using hex_digits_value [of h] by (simp add: hex_digits_def hex32_def)

lemma remove_all_absent: "sub \<noteq> [] \<Longrightarrow> hd sub \<notin> set s \<Longrightarrow> remove_all sub s = s"
  by (induction s) (auto simp: neq_Nil_conv)

lemma dropWhile_none: "\<forall>c \<in> set s. \<not> p c \<Longrightarrow> dropWhile p s = s"
  by (cases s) auto

lemma strip_by_none: "\<forall>c \<in> set s. \<not> p c \<Longrightarrow> strip_by p s = s"
  by (simp add: strip_by_def rstrip_by_def lstrip_by_def dropWhile_none)

lemma uuid_hex_dashed:
  assumes "length h = 32" "list_all is_lower_hex h"
  shows "uuid_hex (dashed h) = h"
proof -
  have in_set: "c = 45 \<or> is_lower_hex c" if "c \<in> set (dashed h)" for c
    using that assms by (auto simp: dashed_def list_all_iff dest!: in_set_takeD in_set_dropD)
  have u: "117 \<notin> set (dashed h)" "\<forall>c \<in> set (dashed h). \<not> (c = 123 \<or> c = 125)"
    using in_set by (fastforce simp: is_lower_hex_def is_digit_def)+
  have nd: "c \<noteq> 45" if "c \<in> set h" for c
    using that assms(2) by (auto simp: list_all_iff is_lower_hex_def is_digit_def)
  have f: "filter (\<lambda>c. c \<noteq> 45) t = t" if "set t \<subseteq> set h" for t
    using that nd by (auto simp: filter_id_conv)
  have "filter (\<lambda>c. c \<noteq> 45) (dashed h)
      = take 8 h @ take 4 (drop 8 h) @ take 4 (drop 12 h) @ take 4 (drop 16 h) @ drop 20 h"
  proof -
    have "set (take n (drop m h)) \<subseteq> set h" for n m
      using set_take_subset [of n "drop m h"] set_drop_subset [of m h] by blast
    then show ?thesis by (simp add: dashed_def f set_take_subset set_drop_subset)
  qed
  also have "\<dots> = h"
    using append_take_drop_id [of 4 "drop 16 h"] append_take_drop_id [of 4 "drop 12 h"]
      append_take_drop_id [of 4 "drop 8 h"] by (simp add: add.commute)
  finally show ?thesis
    using u by (simp add: uuid_hex_def remove_all_absent str_def strip_by_none)
qed

theorem uuid_of_iff:
  "(\<exists>n. uuid_of py s = Some n \<and> uuid_str n = s) \<longleftrightarrow> uuid_grammar s"
proof
  assume "\<exists>n. uuid_of py s = Some n \<and> uuid_str n = s"
  then show "uuid_grammar s"
    using dashed_grammar [OF length_hex32 hex32_lower] by (auto simp: uuid_str_dashed)
next
  assume g: "uuid_grammar s"
  let ?h = "undashed s"
  note h = uuid_grammar_dashed [OF g]
  have "uuid_hex s = ?h" using uuid_hex_dashed [OF h(1,2)] h(3) by simp
  moreover have "list_all is_hex ?h"
    using h(2) by (auto simp: list_all_iff is_hex_def lower_hex_digit)
  moreover have "hex_value ?h < 2 ^ 128"
    using hex_value_bound [OF h(2)] h(1) by simp
  moreover have "int (hex_value ?h) < 2 ^ 128"
    using calculation(3) by (metis of_nat_less_iff of_nat_numeral of_nat_power)
  ultimately have "uuid_of py s = Some (hex_value ?h)"
    using h(1) by (auto simp: uuid_of_def int_of_hex_def Let_def)
  moreover have "uuid_str (hex_value ?h) = s"
    using h by (simp add: uuid_str_dashed hex32_value)
  ultimately show "\<exists>n. uuid_of py s = Some n \<and> uuid_str n = s" by blast
qed

section \<open>An interpreter for the concrete examples\<close>

text \<open>
  One setting of the parameters: a recursion limit of a thousand, floats read from the
  decimal digits before the point, lower case on ASCII, and no bracketed or non-ASCII host.
\<close>

definition plain_python :: python where
  "plain_python =
     \<lparr>rec_limit = 1000, repr_float = (\<lambda>s. s),
      float_of = (\<lambda>s. if s \<noteq> [] \<and> list_all is_digit s then Some (Fin (of_nat (digits_value s))) else None),
      unicode_lower = ascii_lower, int_base16 = (\<lambda>s. None), bracket_ok = (\<lambda>s. False),
      nfkc_ok = (\<lambda>s. False)\<rparr>"

end
