(* ===== verification/Floats.thy ===== *)
theory Floats
  imports Complex_Main
begin

text \<open>
  The one place where the worker's behaviour depends on the rounding of doubles: control.py
  turns a whole number of milliseconds into seconds (a division by 1000) and back
  (\<open>int(remaining * 1000)\<close>). Both operations round to the nearest 53-bit
  significand, ties to even, so the result can be one millisecond short.
\<close>

text \<open>The quotient rounded to the nearest integer, ties to even.\<close>

definition round_div :: "nat \<Rightarrow> nat \<Rightarrow> nat" where
  "round_div p q =
     (let m = p div q; r = p mod q in
      if 2 * r < q \<or> 2 * r = q \<and> even m then m else Suc m)"

text \<open>
  The double nearest to \<open>p / q\<close>, as a significand and the exponent of the power of two it
  is divided by. Exponents below 80 are enough for quotients from 2 to the -27 up.
\<close>

definition to_double :: "nat \<Rightarrow> nat \<Rightarrow> (nat \<times> nat) option" where
  "to_double p q =
     (case find (\<lambda>e. 2 ^ 52 * q \<le> p * 2 ^ e) [0..<80] of
        None \<Rightarrow> None | Some e \<Rightarrow> Some (round_div (p * 2 ^ e) q, e))"

text \<open>\<open>int(k / 1000 * 1000)\<close>\<close>

definition whole_ms :: "nat \<Rightarrow> nat" where
  "whole_ms k =
     (case to_double k 1000 of
        None \<Rightarrow> 0
      | Some (m, e) \<Rightarrow>
          (case to_double (m * 1000) (2 ^ e) of None \<Rightarrow> 0 | Some (n, f) \<Rightarrow> n div 2 ^ f))"

lemma round_div_close:
  assumes "0 < q"
  shows "\<bar>real (round_div p q) - real p / real q\<bar> \<le> 1 / 2"
proof -
  let ?m = "p div q" and ?r = "p mod q"
  have p: "real p = real ?m * real q + real ?r"
    by (metis mult.commute mult_div_mod_eq of_nat_add of_nat_mult)
  have r: "real ?r < real q" using assms by simp
  have eq: "real p / real q = real ?m + real ?r / real q"
    using assms by (simp add: p field_simps)
  show ?thesis
  proof (cases "2 * ?r < q \<or> 2 * ?r = q \<and> even ?m")
    case True
    then have "2 * real ?r \<le> real q" by (metis (mono_tags) eq_imp_le less_imp_le of_nat_le_iff of_nat_mult of_nat_numeral)
    with assms have "real ?r / real q \<le> 1 / 2" "0 \<le> real ?r / real q" by (simp_all add: field_simps)
    with True show ?thesis by (simp add: round_div_def eq)
  next
    case False
    then have "q \<le> 2 * ?r" by auto
    then have "real q \<le> 2 * real ?r" by (metis of_nat_le_iff of_nat_mult of_nat_numeral)
    with assms r have "1 / 2 \<le> real ?r / real q" "real ?r / real q \<le> 1" by (simp_all add: field_simps)
    moreover have "real (round_div p q) = real ?m + 1" using False by (auto simp: round_div_def Let_def)
    ultimately show ?thesis unfolding eq by (simp add: abs_le_iff)
  qed
qed

lemma to_double_close:
  assumes "to_double p q = Some (m, e)" "0 < q"
  shows "\<bar>real m / 2 ^ e - real p / real q\<bar> * 2 ^ 53 \<le> real p / real q"
proof -
  let ?x = "real p / real q"
  from assms(1) have e: "2 ^ 52 * q \<le> p * 2 ^ e" and m: "m = round_div (p * 2 ^ e) q"
    by (auto simp: to_double_def find_Some_iff split: option.splits)
  have "real (2 ^ 52 * q) \<le> real (p * 2 ^ e)" using e by (simp only: of_nat_le_iff)
  then have big: "2 ^ 52 \<le> ?x * 2 ^ e" using assms(2) by (simp add: field_simps)
  have "\<bar>real m - ?x * 2 ^ e\<bar> \<le> 1 / 2"
    using round_div_close [OF assms(2), of "p * 2 ^ e"] by (simp add: m mult.commute)
  moreover have "real m / 2 ^ e - ?x = (real m - ?x * 2 ^ e) / 2 ^ e" by (simp add: field_simps)
  ultimately have "\<bar>real m / 2 ^ e - ?x\<bar> \<le> 1 / 2 / 2 ^ e"
    using divide_right_mono [of "\<bar>real m - ?x * 2 ^ e\<bar>" "1 / 2" "2 ^ e"] by (simp add: abs_divide)
  then have "\<bar>real m / 2 ^ e - ?x\<bar> * 2 ^ 53 \<le> 1 / 2 / 2 ^ e * 2 ^ 53"
    by (rule mult_right_mono) simp
  also have "\<dots> = 2 ^ 52 / 2 ^ e" by simp
  also have "\<dots> \<le> ?x" using big by (simp add: field_simps)
  finally show ?thesis .
qed

lemma abs_times_le: "\<bar>a\<bar> * c \<le> b \<Longrightarrow> 0 \<le> c \<Longrightarrow> a * c \<le> (b :: real)"
  by (metis abs_ge_self mult_right_mono order_trans)

text \<open>Up to ten seconds the round trip loses at most one millisecond and gains none.\<close>

lemma whole_ms_le:
  assumes "k \<le> 10000"
  shows "whole_ms k \<le> k"
proof (rule ccontr)
  assume "\<not> whole_ms k \<le> k"
  then obtain m e n f where d: "to_double k 1000 = Some (m, e)" "to_double (m * 1000) (2 ^ e) = Some (n, f)"
    and n: "k + 1 \<le> n div 2 ^ f"
    by (auto simp: whole_ms_def split: option.splits prod.splits)
  from n have "(k + 1) * 2 ^ f \<le> n"
    by (metis div_times_less_eq_dividend le_trans mult_le_mono1)
  then have "real ((k + 1) * 2 ^ f) \<le> real n" by (simp only: of_nat_le_iff)
  then have low: "real k + 1 \<le> real n / 2 ^ f" by (simp add: field_simps)
  obtain x y where xy: "x = real m / 2 ^ e" "y = real n / 2 ^ f" by simp
  have "\<bar>x - real k / 1000\<bar> * 9007199254740992 \<le> real k / 1000"
    using to_double_close [OF d(1)] by (simp add: xy)
  then have "(x - real k / 1000) * 9007199254740992 \<le> real k / 1000"
    by (rule abs_times_le) simp
  moreover have "\<bar>y - x * 1000\<bar> * 9007199254740992 \<le> x * 1000"
    using to_double_close [OF d(2)] by (simp add: xy)
  then have "(y - x * 1000) * 9007199254740992 \<le> x * 1000"
    by (rule abs_times_le) simp
  moreover have "real k \<le> 10000" using assms by simp
  moreover have "real k + 1 \<le> y" using low xy by simp
  ultimately show False by (simp add: algebra_simps)
qed

end
