(* ===== verification/Control.thy ===== *)
theory Control
  imports Config Floats
begin

text \<open>
  control.py: the control command with its parser, and the take-over handler as a state
  machine. The state is the handler's attributes, its announcement tasks and its stop task
  (each with the point it is suspended at), the session's two audio switches and the list of
  calls made on the session, the room and the job, in order. An event is one uninterrupted
  piece of the program: a packet, a startup call, or the resumption of one task. Wall-clock
  readings are functions from the number of the reading within the event to milliseconds,
  loop time is in milliseconds, and \<open>fails\<close> says which calls on the session raise.
\<close>

section \<open>Commands\<close>

datatype action = TransferRequested | HumanAnswered | TransferFailed

record control_command =
  cmd_id :: pystr
  cmd_action :: action
  cmd_deadline :: int

record packet =
  pkt_topic :: pystr
  pkt_participant :: "pystr option"
  pkt_data :: pybytes

definition control_keys :: "pystr set" where
  "control_keys = str ` {''type'', ''callId'', ''commandId'', ''action'', ''deadlineMs''}"

definition is_command_char :: "nat \<Rightarrow> bool" where
  "is_command_char c \<longleftrightarrow> is_alnum c \<or> c = 95 \<or> c = 46 \<or> c = 58 \<or> c = 45"

definition action_of :: "json \<Rightarrow> action option" where
  "action_of v =
     (if v = JStr (str ''transfer_requested'') then Some TransferRequested
      else if v = JStr (str ''human_answered'') then Some HumanAnswered
      else if v = JStr (str ''transfer_failed'') then Some TransferFailed else None)"

definition control_deadline :: "json \<Rightarrow> int result" where
  "control_deadline v =
     (case v of
        JInt i \<Rightarrow> if 0 < i \<and> i \<le> int MAX_SAFE_INTEGER then Inr i else invalid ''invalid control deadline''
      | _ \<Rightarrow> invalid ''invalid control deadline'')"

definition parse_command :: "python \<Rightarrow> packet \<Rightarrow> pystr \<Rightarrow> control_command result" where
  "parse_command py packet call_id =
     (if pkt_topic packet \<noteq> str ''aida.control'' \<or> pkt_participant packet \<noteq> None
      then invalid ''untrusted control origin''
      else bind_res (strict_json py (RawBytes (pkt_data packet)) 2048) (\<lambda>data.
        if keys data \<noteq> control_keys then invalid ''invalid control fields''
        else bind_res (index data ''type'') (\<lambda>type.
          if type \<noteq> JStr (str ''control'') then invalid ''control call mismatch''
          else bind_res (bind_res (index data ''callId'') (canonical_uuid py)) (\<lambda>id.
            if id \<noteq> call_id then invalid ''control call mismatch''
            else bind_res
              (bind_res (index data ''commandId'') (matching (fullmatch is_command_char 1 128) ''invalid command ID''))
              (\<lambda>command_id.
                bind_res (index data ''action'') (\<lambda>action.
                  case action_of action of
                    None \<Rightarrow> invalid ''unsupported control action''
                  | Some act \<Rightarrow>
                      bind_res (bind_res (index data ''deadlineMs'') control_deadline) (\<lambda>deadline.
                        Inr \<lparr>cmd_id = command_id, cmd_action = act, cmd_deadline = deadline\<rparr>)))))))"

section \<open>The handler's state\<close>

datatype effect =
    SetInput bool
  | SetOutput bool
  | InterruptSession
  | Say pystr bool
  | InterruptSpeech nat
  | ShutdownSession
  | DisconnectRoom
  | ShutdownJob

text \<open>
  Where an announcement task is suspended: created, awaiting the interruption, awaiting the
  playout, returned. \<open>ann_when\<close> is its timeout, \<open>ann_expiring\<close> that it has fired.
\<close>

datatype ann_phase = Starting | Interrupting | Speaking | Finished

record announcement =
  ann_phase :: ann_phase
  ann_cancelled :: bool
  ann_expiring :: bool
  ann_when :: int

text \<open>
  The stop task: \<open>_finish_handoff\<close> before its first step and while it waits for
  the announcement of the given number until the given loop time, \<open>_stop\<close> before its first
  step, while it disconnects, returned, and cancelled before it ran at all.
\<close>

datatype stop_phase =
    Handoff int
  | AwaitingOutro int nat int
  | Stopping nat
  | Disconnecting
  | Stopped
  | NeverRan

record handler =
  h_call_id :: pystr
  h_session :: bool
  h_failed_statement :: pystr
  h_transfer_statement :: pystr
  h_stopping :: bool
  h_transferring :: bool
  h_deadline :: int
  h_ready :: bool
  h_seen :: "pystr list"
  h_stop :: "stop_phase option"
  h_current :: "nat option"
  h_timeout :: "nat option"
  h_tasks :: "nat \<Rightarrow> announcement"
  h_next :: nat
  h_input :: bool
  h_output :: bool
  h_effects :: "effect list"

definition new_announcement :: announcement where
  "new_announcement = \<lparr>ann_phase = Starting, ann_cancelled = False, ann_expiring = False, ann_when = 0\<rparr>"

text \<open>The handler as \<open>entrypoint\<close> makes it: no session yet, not ready.\<close>

definition new_handler :: "pystr \<Rightarrow> handler" where
  "new_handler call_id =
     \<lparr>h_call_id = call_id, h_session = False, h_failed_statement = [], h_transfer_statement = [],
      h_stopping = False, h_transferring = False, h_deadline = 0, h_ready = False, h_seen = [],
      h_stop = None, h_current = None, h_timeout = None, h_tasks = (\<lambda>_. new_announcement),
      h_next = 0, h_input = False, h_output = False, h_effects = []\<rparr>"

definition emit :: "effect \<Rightarrow> handler \<Rightarrow> handler" where
  "emit e s = s\<lparr>h_effects := h_effects s @ [e]\<rparr>"

definition set_input :: "bool \<Rightarrow> handler \<Rightarrow> handler" where
  "set_input b s = emit (SetInput b) (s\<lparr>h_input := b\<rparr>)"

definition set_output :: "bool \<Rightarrow> handler \<Rightarrow> handler" where
  "set_output b s = emit (SetOutput b) (s\<lparr>h_output := b\<rparr>)"

definition update_task :: "nat \<Rightarrow> (announcement \<Rightarrow> announcement) \<Rightarrow> handler \<Rightarrow> handler" where
  "update_task i f s = s\<lparr>h_tasks := (h_tasks s)(i := f (h_tasks s i))\<rparr>"

section \<open>Synchronous methods\<close>

definition cancel_announcement :: "handler \<Rightarrow> handler" where
  "cancel_announcement s =
     (case h_current s of
        None \<Rightarrow> s
      | Some i \<Rightarrow>
          update_task i (ann_cancelled_update (\<lambda>_. True)) s \<lparr>h_current := None, h_timeout := None\<rparr>)"

definition start_announcement :: "int \<Rightarrow> handler \<Rightarrow> handler" where
  "start_announcement now s =
     (if \<not> h_ready s \<or> \<not> h_session s then s
      else
        (let s = set_output False (set_input False (cancel_announcement s)) in
         s\<lparr>h_deadline := min (h_deadline s) (now + 10000), h_current := Some (h_next s),
           h_tasks := (h_tasks s)(h_next s := new_announcement), h_next := Suc (h_next s)\<rparr>))"

definition silence :: "(effect \<Rightarrow> bool) \<Rightarrow> handler \<Rightarrow> handler" where
  "silence fails s =
     (if \<not> h_session s then s
      else
        (let s = emit InterruptSession (set_output False (set_input False s)) in
         if fails InterruptSession then s else emit ShutdownSession s))"

definition remember :: "pystr \<Rightarrow> handler \<Rightarrow> handler" where
  "remember command_id s =
     (let seen = h_seen s @ [command_id] in
      s\<lparr>h_seen := if 256 < length seen then tl seen else seen\<rparr>)"

text \<open>\<open>human_answered\<close>: the deadline in milliseconds from now, at most ten seconds.\<close>

definition remaining_ms :: "int \<Rightarrow> int \<Rightarrow> nat" where
  "remaining_ms deadline now = nat (max 0 (min 10000 (deadline - now)))"

definition extend_outro :: "nat \<Rightarrow> (nat \<Rightarrow> int) \<Rightarrow> int \<Rightarrow> handler \<Rightarrow> handler" where
  "extend_outro k now loop s =
     (if \<not> (h_ready s \<and> h_session s \<and> 0 < k) then s
      else
        (let s = s\<lparr>h_deadline := now 1 + int (whole_ms k)\<rparr> in
         if \<not> h_transferring s \<and> h_transfer_statement s \<noteq> []
         then start_announcement (now 2) (s\<lparr>h_transferring := True\<rparr>)
         else
           (case h_timeout s of
              None \<Rightarrow> s
            | Some i \<Rightarrow>
                if ann_expiring (h_tasks s i) then s
                else update_task i (ann_when_update (\<lambda>_. loop + int k)) s)))"

definition human_answered ::
  "int \<Rightarrow> (nat \<Rightarrow> int) \<Rightarrow> int \<Rightarrow> (effect \<Rightarrow> bool) \<Rightarrow> handler \<Rightarrow> handler"
where
  "human_answered deadline now loop fails s =
     (let k = remaining_ms deadline (now 0);
          s = extend_outro k now loop (s\<lparr>h_stopping := True\<rparr>)
      in if h_ready s \<and> 0 < k \<and> h_current s \<noteq> None
         then (set_input False s)\<lparr>h_stop := Some (Handoff (h_deadline s))\<rparr>
         else (silence fails (cancel_announcement s))\<lparr>h_stop := Some (Stopping k)\<rparr>)"

definition transfer_requested :: "int \<Rightarrow> (nat \<Rightarrow> int) \<Rightarrow> handler \<Rightarrow> handler" where
  "transfer_requested deadline now s =
     (if now 0 < deadline
      then start_announcement (now 1) (s\<lparr>h_transferring := True, h_deadline := deadline\<rparr>) else s)"

text \<open>A \<open>RuntimeError\<close> of \<open>say\<close> is swallowed, so the call is the last effect either way.\<close>

definition transfer_failed :: "int \<Rightarrow> (nat \<Rightarrow> int) \<Rightarrow> handler \<Rightarrow> handler" where
  "transfer_failed deadline now s =
     (if now 0 \<le> deadline then
        (let s = cancel_announcement (s\<lparr>h_transferring := False\<rparr>) in
         if h_ready s \<and> h_session s then
           (let s = set_input True (set_output True s) in
            if h_failed_statement s \<noteq> [] then emit (Say (h_failed_statement s) True) s else s)
         else s)
      else s)"

definition receive ::
  "python \<Rightarrow> packet \<Rightarrow> (nat \<Rightarrow> int) \<Rightarrow> int \<Rightarrow> (effect \<Rightarrow> bool) \<Rightarrow> handler \<Rightarrow> handler \<times> bool"
where
  "receive py packet now loop fails s =
     (case parse_command py packet (h_call_id s) of
        Inl e \<Rightarrow> (s, False)
      | Inr command \<Rightarrow>
          if cmd_id command \<in> set (h_seen s) \<or> h_stopping s then (s, False)
          else
            (let s = remember (cmd_id command) s in
             (case cmd_action command of
                HumanAnswered \<Rightarrow> human_answered (cmd_deadline command) now loop fails s
              | TransferRequested \<Rightarrow> transfer_requested (cmd_deadline command) now s
              | TransferFailed \<Rightarrow> transfer_failed (cmd_deadline command) now s,
              True)))"

definition activate :: "int \<Rightarrow> handler \<Rightarrow> handler \<times> bool" where
  "activate now s =
     (let s = s\<lparr>h_ready := True\<rparr> in
      if h_transferring s then (start_announcement now s, False) else (s, \<not> h_stopping s))"

section \<open>Tasks\<close>

text \<open>The \<open>finally\<close> of an announcement; \<open>speech\<close> says that it had begun to speak.\<close>

definition finish_announcement :: "nat \<Rightarrow> bool \<Rightarrow> handler \<Rightarrow> handler" where
  "finish_announcement i speech s =
     (let s = (if speech then emit (InterruptSpeech i) s else s);
          s = update_task i (ann_phase_update (\<lambda>_. Finished)) s
      in if h_current s = Some i
         then (set_output False s)\<lparr>h_current := None, h_timeout := None\<rparr> else s)"

text \<open>
  One resumption of announcement \<open>i\<close>. A cancelled task that never ran does not run at all;
  a cancelled or expired one goes to its \<open>finally\<close>; \<open>ok\<close> says whether what it awaited
  succeeded.
\<close>

definition resume_announcement ::
  "nat \<Rightarrow> bool \<Rightarrow> int \<Rightarrow> int \<Rightarrow> (effect \<Rightarrow> bool) \<Rightarrow> handler \<Rightarrow> handler"
where
  "resume_announcement i ok now loop fails s =
     (let t = h_tasks s i in
      if h_next s \<le> i then s
      else case ann_phase t of
        Starting \<Rightarrow>
          if ann_cancelled t then update_task i (ann_phase_update (\<lambda>_. Finished)) s
          else if h_deadline s \<le> now then finish_announcement i False s
          else
            (let s = emit InterruptSession
                       ((update_task i (ann_when_update (\<lambda>_. loop + (h_deadline s - now))) s)
                          \<lparr>h_timeout := Some i\<rparr>)
             in if fails InterruptSession then finish_announcement i False s
                else update_task i (ann_phase_update (\<lambda>_. Interrupting)) s)
      | Interrupting \<Rightarrow>
          if ann_cancelled t \<or> ann_expiring t \<or> \<not> ok \<or> h_transfer_statement s = []
          then finish_announcement i False s
          else
            (let s = emit (Say (h_transfer_statement s) False) (set_output True s) in
             if fails (Say (h_transfer_statement s) False) then finish_announcement i False s
             else update_task i (ann_phase_update (\<lambda>_. Speaking)) s)
      | Speaking \<Rightarrow> finish_announcement i True s
      | Finished \<Rightarrow> s)"

text \<open>The timer of announcement \<open>i\<close> fires; the task sees it when it is resumed.\<close>

definition fire_timeout :: "nat \<Rightarrow> int \<Rightarrow> handler \<Rightarrow> handler" where
  "fire_timeout i loop s =
     (let t = h_tasks s i in
      if i < h_next s \<and> ann_phase t \<in> {Interrupting, Speaking} \<and> ann_when t \<le> loop
      then update_task i (ann_expiring_update (\<lambda>_. True)) s else s)"

definition is_finished :: "nat \<Rightarrow> handler \<Rightarrow> bool" where
  "is_finished i s \<longleftrightarrow> ann_phase (h_tasks s i) = Finished"

text \<open>\<open>_finish_handoff\<close> after its wait, up to the disconnection.\<close>

definition end_handoff :: "(effect \<Rightarrow> bool) \<Rightarrow> handler \<Rightarrow> handler" where
  "end_handoff fails s =
     (emit DisconnectRoom (silence fails (cancel_announcement s)))\<lparr>h_stop := Some Disconnecting\<rparr>"

text \<open>
  One resumption of the stop task; \<open>cancelled\<close> is a cancellation delivered to it, which
  \<open>_finish_handoff\<close> treats like a timeout. The wait for the outro ends when that task has
  returned, or at its time, or when the stop task is cancelled.
\<close>

definition resume_stop ::
  "bool \<Rightarrow> int \<Rightarrow> int \<Rightarrow> (effect \<Rightarrow> bool) \<Rightarrow> handler \<Rightarrow> handler"
where
  "resume_stop cancelled now loop fails s =
     (case h_stop s of
        None \<Rightarrow> s
      | Some (Handoff deadline) \<Rightarrow>
          if cancelled then s\<lparr>h_stop := Some NeverRan\<rparr>
          else
            (case h_current s of
               None \<Rightarrow> end_handoff fails s
             | Some i \<Rightarrow>
                 s\<lparr>h_stop := Some (AwaitingOutro deadline i (loop + max 0 (deadline - now)))\<rparr>)
      | Some (AwaitingOutro deadline i until) \<Rightarrow>
          if cancelled \<or> is_finished i s \<or> until \<le> loop then end_handoff fails s else s
      | Some (Stopping k) \<Rightarrow>
          if cancelled then s\<lparr>h_stop := Some NeverRan\<rparr>
          else (emit DisconnectRoom s)\<lparr>h_stop := Some Disconnecting\<rparr>
      | Some Disconnecting \<Rightarrow> (emit ShutdownJob s)\<lparr>h_stop := Some Stopped\<rparr>
      | Some Stopped \<Rightarrow> s
      | Some NeverRan \<Rightarrow> s)"

section \<open>The machine\<close>

text \<open>
  \<open>Attach\<close> is worker.py giving the handler its muted session and statements (lines 149 to
  158), \<open>Activate\<close> its last step (lines 223 to 231); it does both only while not stopping.
  \<open>Unready\<close> is worker.py line 120, \<open>Silence\<close> its \<open>silence\<close> (lines 85 to 93, the same
  calls as the handler's own), \<open>Close\<close> the part of \<open>close\<close> before its awaits.
\<close>

datatype control_event =
    Receive packet "nat \<Rightarrow> int" int "effect \<Rightarrow> bool"
  | Attach pystr pystr
  | Activate int
  | ResumeAnnouncement nat bool int int "effect \<Rightarrow> bool"
  | FireTimeout nat int
  | ResumeStop bool int int "effect \<Rightarrow> bool"
  | Unready
  | Silence "effect \<Rightarrow> bool"
  | Close

definition attach :: "pystr \<Rightarrow> pystr \<Rightarrow> handler \<Rightarrow> handler" where
  "attach transfer failed s =
     (if h_stopping s \<or> h_session s then s
      else (set_output False (set_input False s))
        \<lparr>h_session := True, h_transfer_statement := transfer, h_failed_statement := failed\<rparr>)"

definition go_live :: "int \<Rightarrow> handler \<Rightarrow> handler" where
  "go_live now s =
     (if h_stopping s \<or> \<not> h_session s then s
      else case activate now s of (s, live) \<Rightarrow> if live then set_input True (set_output True s) else s)"

fun control_step :: "python \<Rightarrow> handler \<Rightarrow> control_event \<Rightarrow> handler" where
  "control_step py s (Receive packet now loop fails) = fst (receive py packet now loop fails s)"
| "control_step py s (Attach transfer failed) = attach transfer failed s"
| "control_step py s (Activate now) = go_live now s"
| "control_step py s (ResumeAnnouncement i ok now loop fails) =
     resume_announcement i ok now loop fails s"
| "control_step py s (FireTimeout i loop) = fire_timeout i loop s"
| "control_step py s (ResumeStop cancelled now loop fails) = resume_stop cancelled now loop fails s"
| "control_step py s Unready = s\<lparr>h_ready := False\<rparr>"
| "control_step py s (Silence fails) = silence fails s"
| "control_step py s Close = cancel_announcement s"

section \<open>Facts about commands\<close>

lemma parse_command_only: "only_invalid (parse_command py packet call_id)"
proof -
  have d: "only_invalid (control_deadline v)" for v
    by (auto simp: control_deadline_def split: json.split)
  have m: "only_invalid (matching p m v)" for p m v by (rule matching_only)
  show ?thesis
    unfolding parse_command_def
    by (intro only_intros index_only only_invalid_simps m d)
      (auto simp: control_keys_def split: option.split intro!: only_intros index_only d)
qed

lemma control_deadline_iff:
  "control_deadline v = Inr d \<longleftrightarrow> v = JInt d \<and> 0 < d \<and> d \<le> int MAX_SAFE_INTEGER"
  by (auto simp: control_deadline_def split: json.splits)

definition wf_command :: "control_command \<Rightarrow> bool" where
  "wf_command c \<longleftrightarrow>
     fullmatch is_command_char 1 128 (cmd_id c) \<and> 0 < cmd_deadline c
     \<and> cmd_deadline c \<le> int MAX_SAFE_INTEGER"

lemma parse_command_InrD:
  assumes "parse_command py packet call_id = Inr c"
  shows "pkt_topic packet = str ''aida.control''" "pkt_participant packet = None"
    "length (pkt_data packet) \<le> 2048" "wf_command c"
    "\<exists>data. json_loads (strict_opts py) (rec_limit py) (RawBytes (pkt_data packet)) = Inr (JObj data)
       \<and> keys data = control_keys \<and> get data ''type'' = Some (JStr (str ''control''))
       \<and> get data ''callId'' = Some (JStr call_id) \<and> get data ''commandId'' = Some (JStr (cmd_id c))"
proof -
  from assms obtain data where
    sj: "strict_json py (RawBytes (pkt_data packet)) 2048 = Inr data" and
    d: "pkt_topic packet = str ''aida.control''" "pkt_participant packet = None"
    "keys data = control_keys" "get data ''type'' = Some (JStr (str ''control''))"
    "get data ''callId'' = Some (JStr call_id)" "get data ''commandId'' = Some (JStr (cmd_id c))"
    "fullmatch is_command_char 1 128 (cmd_id c)"
    "0 < cmd_deadline c" "cmd_deadline c \<le> int MAX_SAFE_INTEGER"
    by (auto simp: parse_command_def bind_res_eq_Inr field_iffs matching_iff control_deadline_iff
        split: if_splits option.splits)
  show "pkt_topic packet = str ''aida.control''" "pkt_participant packet = None" by fact+
  show "length (pkt_data packet) \<le> 2048" using strict_json_InrD(1) [OF sj] by (simp add: raw_length_def)
  show "wf_command c"
    using d(7-9) by (simp add: wf_command_def)
  show "\<exists>data. json_loads (strict_opts py) (rec_limit py) (RawBytes (pkt_data packet)) = Inr (JObj data)
       \<and> keys data = control_keys \<and> get data ''type'' = Some (JStr (str ''control''))
       \<and> get data ''callId'' = Some (JStr call_id) \<and> get data ''commandId'' = Some (JStr (cmd_id c))"
    using strict_json_InrD(2) [OF sj] d by blast
qed

text \<open>The packet a server sends for a command, and that it is read back.\<close>

definition action_name :: "action \<Rightarrow> pystr" where
  "action_name a =
     (case a of TransferRequested \<Rightarrow> str ''transfer_requested'' | HumanAnswered \<Rightarrow> str ''human_answered''
      | TransferFailed \<Rightarrow> str ''transfer_failed'')"

lemma action_of_name [simp]: "action_of (JStr (action_name a)) = Some a"
  by (cases a) (simp_all add: action_of_def action_name_def)

definition command_fields :: "pystr \<Rightarrow> control_command \<Rightarrow> fields" where
  "command_fields call_id c =
     [(str ''type'', JStr (str ''control'')), (str ''callId'', JStr call_id),
      (str ''commandId'', JStr (cmd_id c)), (str ''action'', JStr (action_name (cmd_action c))),
      (str ''deadlineMs'', JInt (cmd_deadline c))]"

definition command_packet :: "pystr \<Rightarrow> control_command \<Rightarrow> packet" where
  "command_packet call_id c =
     \<lparr>pkt_topic = str ''aida.control'', pkt_participant = None,
      pkt_data = utf8_bytes (json_dumps compact_unicode (JObj (command_fields call_id c)))\<rparr>"

lemma command_char_ascii: "is_command_char c \<Longrightarrow> c < 128"
  by (auto simp: is_command_char_def char_class_defs)

lemma deadline_digits:
  assumes "0 < d" "d \<le> int MAX_SAFE_INTEGER"
  shows "length (show_int d) \<le> 16" "length (show_nat (nat \<bar>d\<bar>)) \<le> max_int_digits"
proof -
  have "nat d < 10 ^ 16" using assms by (simp add: MAX_SAFE_INTEGER_def)
  then have "length (show_nat (nat d)) \<le> 16" by (intro length_show_nat_le) simp
  then show "length (show_int d) \<le> 16" "length (show_nat (nat \<bar>d\<bar>)) \<le> max_int_digits"
    using assms by (simp_all add: show_int_def max_int_digits_def)
qed

lemma command_fields_wf:
  assumes "wf_command c" "uuid_grammar call_id"
  shows "wf_json (JObj (command_fields call_id c))"
proof -
  have "list_all is_scalar (cmd_id c)"
    using assms by (auto simp: wf_command_def intro: class_scalar [OF command_char_ascii])
  moreover have "list_all is_scalar (action_name a)" for a
    by (cases a) (simp_all add: action_name_def str_scalar)
  ultimately show ?thesis
    using assms deadline_digits(2)
    by (simp add: command_fields_def wf_command_def str_scalar uuid_grammar_scalar)
qed

lemma show_int_bytes: "utf8_bytes (show_int i) = show_int i"
proof (rule utf8_bytes_ascii)
  have "list_all (\<lambda>c. c < 128) (show_nat n)" for n
    using show_nat_digits [of n] by (auto simp: list_all_iff is_digit_def)
  then show "list_all (\<lambda>c. c < 128) (show_int i)" by (simp add: show_int_def)
qed

lemma command_packet_size:
  assumes "wf_command c" "uuid_grammar call_id"
  shows "length (pkt_data (command_packet call_id c)) \<le> 2048"
proof -
  have str: "length (utf8_bytes (quote False (str k))) \<le> 6 * length k + 2" for k
    using utf8_quote_length [of "str k"] by simp
  note names = str [of "''type''"] str [of "''callId''"] str [of "''commandId''"] str [of "''action''"]
    str [of "''deadlineMs''"] str [of "''control''"]
  have act: "length (utf8_bytes (quote False (action_name (cmd_action c)))) \<le> 110"
    using str [of "''transfer_requested''"] str [of "''human_answered''"] str [of "''transfer_failed''"]
    by (cases "cmd_action c") (simp_all add: action_name_def)
  have "length (cmd_id c) \<le> 128" "length call_id = 36"
    using assms by (simp_all add: wf_command_def fullmatch_def uuid_grammar_def)
  moreover have "length (show_int (cmd_deadline c)) \<le> 16"
    using assms deadline_digits(1) by (simp add: wf_command_def)
  moreover have seps: "utf8_bytes (str '','') = [44]" "utf8_bytes (str '':'') = [58]"
    by (simp_all add: str_def)
  moreover note utf8_quote_length [of "cmd_id c"] utf8_quote_length [of call_id]
  ultimately show ?thesis
    using names act
    by (simp add: command_packet_def command_fields_def compact_unicode_def show_int_bytes)
qed

lemma parse_command_print:
  assumes "wf_command c" "uuid_grammar call_id" "1 \<le> rec_limit py"
  shows "parse_command py (command_packet call_id c) call_id = Inr c"
proof -
  have "jdepth (JObj (command_fields call_id c)) \<le> rec_limit py"
    using assms(3) by (simp add: command_fields_def)
  then have "strict_json py (RawBytes (pkt_data (command_packet call_id c))) 2048
      = Inr (command_fields call_id c)"
    using command_packet_size [OF assms(1,2)] command_fields_wf [OF assms(1,2)]
    unfolding command_packet_def packet.simps
    by (intro strict_json_unicode_bytes) (simp_all add: command_fields_def)
  moreover have "canonical_uuid py (JStr call_id) = Inr call_id"
    using assms by (simp add: canonical_uuid_iff)
  moreover have "keys (command_fields call_id c) = control_keys"
    by (simp add: keys_def command_fields_def control_keys_def)
  moreover have "control_deadline (JInt (cmd_deadline c)) = Inr (cmd_deadline c)"
    using assms(1) by (simp add: control_deadline_iff wf_command_def)
  ultimately show ?thesis
    using assms(1)
    by (simp add: parse_command_def command_packet_def index_def get_def command_fields_def
        matching_def wf_command_def)
qed

section \<open>The invariant\<close>

lemmas handler_simps = emit_def set_input_def set_output_def update_task_def

text \<open>
  The current announcement is a live task and its timeout is the handler's; every other task
  is cancelled or has returned; the stop task exists exactly while stopping.
\<close>

definition tasks_inv :: "handler \<Rightarrow> bool" where
  "tasks_inv s \<longleftrightarrow>
     (\<forall>i. h_current s = Some i \<longrightarrow>
        i < h_next s \<and> ann_phase (h_tasks s i) \<noteq> Finished \<and> \<not> ann_cancelled (h_tasks s i) \<and> h_session s)
     \<and> (\<forall>i. h_timeout s = Some i \<longrightarrow> h_current s = Some i)
     \<and> (\<forall>i < h_next s. h_current s \<noteq> Some i \<longrightarrow>
          ann_cancelled (h_tasks s i) \<or> ann_phase (h_tasks s i) = Finished)"

definition is_silent_phase :: "stop_phase \<Rightarrow> bool" where
  "is_silent_phase p \<longleftrightarrow> (case p of Stopping k \<Rightarrow> True | Disconnecting \<Rightarrow> True | Stopped \<Rightarrow> True | _ \<Rightarrow> False)"

definition audio_inv :: "handler \<Rightarrow> bool" where
  "audio_inv s \<longleftrightarrow>
     (h_stop s = None \<longleftrightarrow> \<not> h_stopping s)
     \<and> (h_stopping s \<longrightarrow> \<not> h_input s)
     \<and> (h_transferring s \<and> h_ready s \<and> h_session s \<longrightarrow> \<not> h_input s)
     \<and> (\<not> h_session s \<longrightarrow> \<not> h_input s \<and> \<not> h_output s)
     \<and> (case h_stop s of None \<Rightarrow> True | Some p \<Rightarrow>
          is_silent_phase p \<longrightarrow> h_current s = None \<and> \<not> h_output s)"

definition seen_inv :: "handler \<Rightarrow> bool" where
  "seen_inv s \<longleftrightarrow> length (h_seen s) \<le> 256 \<and> distinct (h_seen s)"

definition control_inv :: "handler \<Rightarrow> bool" where
  "control_inv s \<longleftrightarrow> tasks_inv s \<and> audio_inv s \<and> seen_inv s"

lemma new_handler_inv: "control_inv (new_handler call_id)"
  by (simp add: control_inv_def tasks_inv_def audio_inv_def seen_inv_def new_handler_def)

lemma cancel_tasks_inv: "tasks_inv s \<Longrightarrow> tasks_inv (cancel_announcement s)"
  by (auto simp: tasks_inv_def cancel_announcement_def handler_simps split: option.splits)

lemma start_tasks_inv: "tasks_inv s \<Longrightarrow> tasks_inv (start_announcement now s)"
  by (auto simp: tasks_inv_def start_announcement_def cancel_announcement_def handler_simps Let_def
      new_announcement_def less_Suc_eq split: option.splits)

lemma silence_tasks_inv: "tasks_inv s \<Longrightarrow> tasks_inv (silence fails s)"
  by (auto simp: tasks_inv_def silence_def handler_simps Let_def)

lemma finish_tasks_inv: "tasks_inv s \<Longrightarrow> tasks_inv (finish_announcement i speech s)"
  by (auto simp: tasks_inv_def finish_announcement_def handler_simps Let_def)

lemma tasks_inv_switches [simp]:
  "tasks_inv (emit e s) = tasks_inv s" "tasks_inv (set_input b s) = tasks_inv s"
  "tasks_inv (set_output b s) = tasks_inv s" "tasks_inv (s\<lparr>h_deadline := d\<rparr>) = tasks_inv s"
  "tasks_inv (s\<lparr>h_stop := st\<rparr>) = tasks_inv s" "tasks_inv (s\<lparr>h_stopping := b\<rparr>) = tasks_inv s"
  "tasks_inv (s\<lparr>h_transferring := b\<rparr>) = tasks_inv s" "tasks_inv (s\<lparr>h_ready := b\<rparr>) = tasks_inv s"
  "tasks_inv (s\<lparr>h_seen := l\<rparr>) = tasks_inv s"
  by (simp_all add: tasks_inv_def handler_simps)

lemma live_is_current:
  "tasks_inv s \<Longrightarrow> i < h_next s \<Longrightarrow> \<not> ann_cancelled (h_tasks s i) \<Longrightarrow>
     ann_phase (h_tasks s i) \<noteq> Finished \<Longrightarrow> h_current s = Some i"
  by (auto simp: tasks_inv_def)

lemma phase_tasks_inv:
  "tasks_inv s \<Longrightarrow> p \<noteq> Finished \<Longrightarrow> h_current s = Some i \<Longrightarrow>
     tasks_inv (update_task i (ann_phase_update (\<lambda>_. p)) s)"
  by (auto simp: tasks_inv_def update_task_def)

lemma when_tasks_inv: "tasks_inv s \<Longrightarrow> tasks_inv (update_task i (ann_when_update f) s)"
  by (auto simp: tasks_inv_def update_task_def)

lemma expiring_tasks_inv: "tasks_inv s \<Longrightarrow> tasks_inv (update_task i (ann_expiring_update f) s)"
  by (auto simp: tasks_inv_def update_task_def)

lemma timeout_tasks_inv: "tasks_inv s \<Longrightarrow> h_current s = Some i \<Longrightarrow> tasks_inv (s\<lparr>h_timeout := Some i\<rparr>)"
  by (simp add: tasks_inv_def)

lemma finished_tasks_inv:
  "tasks_inv s \<Longrightarrow> ann_cancelled (h_tasks s i) \<Longrightarrow>
     tasks_inv (update_task i (ann_phase_update (\<lambda>_. Finished)) s)"
  by (auto simp: tasks_inv_def update_task_def)

lemma h_current_switches [simp]:
  "h_current (emit e s) = h_current s" "h_current (set_input b s) = h_current s"
  "h_current (set_output b s) = h_current s" "h_current (update_task i f s) = h_current s"
  by (simp_all add: handler_simps)

lemma resume_tasks_inv:
  assumes inv: "tasks_inv s"
  shows "tasks_inv (resume_announcement i ok now loop fails s)"
proof (cases "i < h_next s")
  case False
  with inv show ?thesis by (simp add: resume_announcement_def Let_def)
next
  case i: True
  note live = live_is_current [OF inv i]
  show ?thesis
  proof (cases "ann_phase (h_tasks s i)")
    case Starting
    show ?thesis
    proof (cases "ann_cancelled (h_tasks s i)")
      case True
      with i Starting inv show ?thesis
        by (simp add: resume_announcement_def Let_def finished_tasks_inv)
    next
      case False
      with live Starting have "h_current s = Some i" by simp
      with i Starting inv False show ?thesis
        by (auto simp: resume_announcement_def Let_def
            intro!: finish_tasks_inv phase_tasks_inv timeout_tasks_inv when_tasks_inv)
    qed
  next
    case Interrupting
    with live i inv show ?thesis
      by (auto simp: resume_announcement_def Let_def intro!: finish_tasks_inv phase_tasks_inv)
  next
    case Speaking
    with i inv show ?thesis by (simp add: resume_announcement_def Let_def finish_tasks_inv)
  next
    case Finished
    with i inv show ?thesis by (simp add: resume_announcement_def Let_def)
  qed
qed

lemma extend_tasks_inv: "tasks_inv s \<Longrightarrow> tasks_inv (extend_outro k now loop s)"
  by (auto simp: extend_outro_def Let_def split: option.split intro!: start_tasks_inv when_tasks_inv)

lemma human_tasks_inv: "tasks_inv s \<Longrightarrow> tasks_inv (human_answered d now loop fails s)"
  unfolding human_answered_def Let_def
  by (auto intro!: silence_tasks_inv cancel_tasks_inv extend_tasks_inv)

lemma requested_tasks_inv: "tasks_inv s \<Longrightarrow> tasks_inv (transfer_requested d now s)"
  by (auto simp: transfer_requested_def intro!: start_tasks_inv)

lemma failed_tasks_inv: "tasks_inv s \<Longrightarrow> tasks_inv (transfer_failed d now s)"
  by (auto simp: transfer_failed_def Let_def intro!: cancel_tasks_inv)

lemma remember_tasks_inv [simp]: "tasks_inv (remember c s) = tasks_inv s"
  by (simp add: remember_def Let_def)

lemma receive_tasks_inv: "tasks_inv s \<Longrightarrow> tasks_inv (fst (receive py packet now loop fails s))"
  by (auto simp: receive_def Let_def split: sum.split action.split
      intro: human_tasks_inv requested_tasks_inv failed_tasks_inv)

lemma attach_tasks_inv: "tasks_inv s \<Longrightarrow> tasks_inv (attach tr fa s)"
  by (auto simp: attach_def tasks_inv_def handler_simps)

lemma go_live_tasks_inv: "tasks_inv s \<Longrightarrow> tasks_inv (go_live now s)"
  by (auto simp: go_live_def activate_def Let_def intro: start_tasks_inv)

lemma end_handoff_tasks_inv: "tasks_inv s \<Longrightarrow> tasks_inv (end_handoff fails s)"
  by (simp add: end_handoff_def silence_tasks_inv cancel_tasks_inv)

lemma resume_stop_tasks_inv: "tasks_inv s \<Longrightarrow> tasks_inv (resume_stop c now loop fails s)"
  by (auto simp: resume_stop_def end_handoff_tasks_inv split: option.split stop_phase.split)

lemma step_tasks_inv: "tasks_inv s \<Longrightarrow> tasks_inv (control_step py s e)"
  by (cases e) (auto simp: fire_timeout_def Let_def
      intro: receive_tasks_inv attach_tasks_inv go_live_tasks_inv resume_tasks_inv
        expiring_tasks_inv resume_stop_tasks_inv silence_tasks_inv cancel_tasks_inv)

section \<open>The audio switches\<close>

text \<open>What the methods leave alone.\<close>

lemma cancel_frame [simp]:
  "h_stop (cancel_announcement s) = h_stop s" "h_stopping (cancel_announcement s) = h_stopping s"
  "h_input (cancel_announcement s) = h_input s" "h_output (cancel_announcement s) = h_output s"
  "h_session (cancel_announcement s) = h_session s" "h_ready (cancel_announcement s) = h_ready s"
  "h_transferring (cancel_announcement s) = h_transferring s"
  "h_deadline (cancel_announcement s) = h_deadline s"
  "h_current (cancel_announcement s) = None" "h_seen (cancel_announcement s) = h_seen s"
  "h_effects (cancel_announcement s) = h_effects s" "h_call_id (cancel_announcement s) = h_call_id s"
  "h_failed_statement (cancel_announcement s) = h_failed_statement s"
  "h_transfer_statement (cancel_announcement s) = h_transfer_statement s"
  by (auto simp: cancel_announcement_def handler_simps split: option.split)

lemma switch_frame [simp]:
  "h_input (set_input b s) = b" "h_output (set_input b s) = h_output s"
  "h_input (set_output b s) = h_input s" "h_output (set_output b s) = b"
  "h_input (emit e s) = h_input s" "h_output (emit e s) = h_output s"
  "h_input (update_task i f s) = h_input s" "h_output (update_task i f s) = h_output s"
  "h_stop (set_input b s) = h_stop s" "h_stop (set_output b s) = h_stop s"
  "h_stop (emit e s) = h_stop s" "h_stop (update_task i f s) = h_stop s"
  "h_stopping (set_input b s) = h_stopping s" "h_stopping (set_output b s) = h_stopping s"
  "h_stopping (emit e s) = h_stopping s" "h_stopping (update_task i f s) = h_stopping s"
  "h_session (set_input b s) = h_session s" "h_session (set_output b s) = h_session s"
  "h_session (emit e s) = h_session s" "h_session (update_task i f s) = h_session s"
  "h_ready (set_input b s) = h_ready s" "h_ready (set_output b s) = h_ready s"
  "h_ready (emit e s) = h_ready s" "h_ready (update_task i f s) = h_ready s"
  "h_transferring (set_input b s) = h_transferring s" "h_transferring (set_output b s) = h_transferring s"
  "h_transferring (emit e s) = h_transferring s" "h_transferring (update_task i f s) = h_transferring s"
  "h_seen (set_input b s) = h_seen s" "h_seen (set_output b s) = h_seen s"
  "h_seen (emit e s) = h_seen s" "h_seen (update_task i f s) = h_seen s"
  "h_deadline (set_input b s) = h_deadline s" "h_deadline (set_output b s) = h_deadline s"
  "h_deadline (emit e s) = h_deadline s" "h_deadline (update_task i f s) = h_deadline s"
  by (simp_all add: handler_simps)

lemma effects_frame [simp]:
  "h_effects (emit e s) = h_effects s @ [e]" "h_effects (set_input b s) = h_effects s @ [SetInput b]"
  "h_effects (set_output b s) = h_effects s @ [SetOutput b]"
  "h_effects (update_task i f s) = h_effects s"
  by (simp_all add: handler_simps)

lemma start_frame [simp]:
  "h_stop (start_announcement now s) = h_stop s" "h_stopping (start_announcement now s) = h_stopping s"
  "h_session (start_announcement now s) = h_session s" "h_ready (start_announcement now s) = h_ready s"
  "h_transferring (start_announcement now s) = h_transferring s" "h_seen (start_announcement now s) = h_seen s"
  by (auto simp: start_announcement_def Let_def)

lemma start_audio:
  "h_input (start_announcement now s) = (h_input s \<and> \<not> (h_ready s \<and> h_session s))"
  "h_output (start_announcement now s) = (h_output s \<and> \<not> (h_ready s \<and> h_session s))"
  by (auto simp: start_announcement_def Let_def)

lemma silence_frame [simp]:
  "h_stop (silence fails s) = h_stop s" "h_stopping (silence fails s) = h_stopping s"
  "h_session (silence fails s) = h_session s" "h_ready (silence fails s) = h_ready s"
  "h_transferring (silence fails s) = h_transferring s" "h_seen (silence fails s) = h_seen s"
  "h_current (silence fails s) = h_current s"
  by (auto simp: silence_def Let_def)

lemma silence_audio:
  "h_input (silence fails s) = (h_input s \<and> \<not> h_session s)"
  "h_output (silence fails s) = (h_output s \<and> \<not> h_session s)"
  by (auto simp: silence_def Let_def)

lemma extend_frame [simp]:
  "h_stop (extend_outro k now loop s) = h_stop s" "h_stopping (extend_outro k now loop s) = h_stopping s"
  "h_session (extend_outro k now loop s) = h_session s" "h_ready (extend_outro k now loop s) = h_ready s"
  "h_seen (extend_outro k now loop s) = h_seen s"
  by (auto simp: extend_outro_def Let_def split: option.split)

lemma extend_audio:
  "\<not> h_session s \<Longrightarrow> h_input (extend_outro k now loop s) = h_input s"
  "\<not> h_session s \<Longrightarrow> h_output (extend_outro k now loop s) = h_output s"
  by (auto simp: extend_outro_def)

lemma finish_frame [simp]:
  "h_stop (finish_announcement i sp s) = h_stop s" "h_stopping (finish_announcement i sp s) = h_stopping s"
  "h_session (finish_announcement i sp s) = h_session s" "h_ready (finish_announcement i sp s) = h_ready s"
  "h_transferring (finish_announcement i sp s) = h_transferring s"
  "h_seen (finish_announcement i sp s) = h_seen s" "h_input (finish_announcement i sp s) = h_input s"
  by (auto simp: finish_announcement_def Let_def)

lemma finish_quiet:
  "h_output (finish_announcement i sp s) \<Longrightarrow> h_output s"
  "h_current s = None \<Longrightarrow> h_current (finish_announcement i sp s) = None"
  by (auto simp: finish_announcement_def Let_def split: if_splits)

lemma human_audio:
  assumes "audio_inv s"
  shows "audio_inv (human_answered d now loop fails s)"
proof -
  let ?k = "remaining_ms d (now 0)"
  let ?s = "extend_outro ?k now loop (s\<lparr>h_stopping := True\<rparr>)"
  have none: "h_session s \<or> \<not> h_input ?s \<and> \<not> h_output ?s"
    using assms by (auto simp: audio_inv_def extend_audio)
  show ?thesis
  proof (cases "h_ready ?s \<and> 0 < ?k \<and> h_current ?s \<noteq> None")
    case True
    then show ?thesis
      using none by (simp add: human_answered_def Let_def audio_inv_def is_silent_phase_def)
        (auto simp: extend_outro_def)
  next
    case False
    then show ?thesis
      using none
      by (auto simp: human_answered_def Let_def audio_inv_def is_silent_phase_def silence_audio)
  qed
qed

lemma requested_audio:
  "audio_inv s \<Longrightarrow> \<not> h_stopping s \<Longrightarrow> audio_inv (transfer_requested d now s)"
  by (auto simp: transfer_requested_def audio_inv_def start_audio)

lemma failed_audio: "audio_inv s \<Longrightarrow> \<not> h_stopping s \<Longrightarrow> audio_inv (transfer_failed d now s)"
  by (auto simp: transfer_failed_def audio_inv_def Let_def)

lemma remember_audio [simp]: "audio_inv (remember c s) = audio_inv s"
  by (simp add: remember_def audio_inv_def Let_def split: option.split)

lemma remember_frame [simp]:
  "h_stopping (remember c s) = h_stopping s" "h_input (remember c s) = h_input s"
  "h_output (remember c s) = h_output s" "h_session (remember c s) = h_session s"
  "h_ready (remember c s) = h_ready s" "h_transferring (remember c s) = h_transferring s"
  "h_stop (remember c s) = h_stop s" "h_current (remember c s) = h_current s"
  "h_effects (remember c s) = h_effects s" "h_timeout (remember c s) = h_timeout s"
  "h_deadline (remember c s) = h_deadline s" "h_tasks (remember c s) = h_tasks s"
  "h_transfer_statement (remember c s) = h_transfer_statement s"
  "h_failed_statement (remember c s) = h_failed_statement s"
  by (simp_all add: remember_def Let_def)

lemma receive_audio: "audio_inv s \<Longrightarrow> audio_inv (fst (receive py packet now loop fails s))"
  by (auto simp: receive_def Let_def split: sum.split action.split
      intro: human_audio requested_audio failed_audio)

lemma attach_audio: "audio_inv s \<Longrightarrow> audio_inv (attach tr fa s)"
  by (auto simp: attach_def audio_inv_def)

lemma go_live_audio: "audio_inv s \<Longrightarrow> audio_inv (go_live now s)"
  by (auto simp: go_live_def activate_def audio_inv_def start_audio Let_def)

lemma resume_frame [simp]:
  "h_stop (resume_announcement i ok now loop fails s) = h_stop s"
  "h_stopping (resume_announcement i ok now loop fails s) = h_stopping s"
  "h_session (resume_announcement i ok now loop fails s) = h_session s"
  "h_ready (resume_announcement i ok now loop fails s) = h_ready s"
  "h_transferring (resume_announcement i ok now loop fails s) = h_transferring s"
  "h_seen (resume_announcement i ok now loop fails s) = h_seen s"
  "h_input (resume_announcement i ok now loop fails s) = h_input s"
  by (auto simp: resume_announcement_def Let_def split: ann_phase.split)

lemma resume_quiet:
  assumes "tasks_inv s" "h_current s = None"
  shows "h_current (resume_announcement i ok now loop fails s) = None"
    "h_output (resume_announcement i ok now loop fails s) \<Longrightarrow> h_output s"
proof -
  have dead: "i < h_next s \<Longrightarrow> ann_phase (h_tasks s i) \<noteq> Finished \<Longrightarrow> ann_cancelled (h_tasks s i)"
    using live_is_current [OF assms(1)] assms(2) by fastforce
  show "h_current (resume_announcement i ok now loop fails s) = None"
    using dead assms(2)
    by (auto simp: resume_announcement_def Let_def finish_quiet split: ann_phase.split)
  show "h_output s" if "h_output (resume_announcement i ok now loop fails s)"
    using dead that
    by (auto simp: resume_announcement_def Let_def dest: finish_quiet split: ann_phase.splits if_splits)
qed

lemma resume_sessionless:
  assumes "tasks_inv s" "\<not> h_session s"
  shows "h_output (resume_announcement i ok now loop fails s) \<Longrightarrow> h_output s"
  using resume_quiet(2) [OF assms(1)] assms by (auto simp: tasks_inv_def)

lemma resume_audio:
  assumes "tasks_inv s" "audio_inv s"
  shows "audio_inv (resume_announcement i ok now loop fails s)"
proof -
  let ?s = "resume_announcement i ok now loop fails s"
  have "h_current ?s = None \<and> \<not> h_output ?s" if "h_stop s = Some p" "is_silent_phase p" for p
  proof -
    have "h_current s = None" "\<not> h_output s" using that assms(2) by (auto simp: audio_inv_def)
    with resume_quiet [OF assms(1) this(1)] show ?thesis by blast
  qed
  moreover have "\<not> h_session s \<Longrightarrow> \<not> h_output ?s"
    using resume_sessionless [OF assms(1)] assms(2) by (auto simp: audio_inv_def)
  ultimately show ?thesis
    using assms(2) by (auto simp: audio_inv_def split: option.splits)
qed

lemma end_handoff_audio: "audio_inv s \<Longrightarrow> h_stopping s \<Longrightarrow> audio_inv (end_handoff fails s)"
  by (auto simp: end_handoff_def audio_inv_def silence_audio)

lemma resume_stop_audio: "audio_inv s \<Longrightarrow> audio_inv (resume_stop c now loop fails s)"
proof -
  assume a: "audio_inv s"
  have st: "h_stop s = Some p \<Longrightarrow> h_stopping s" for p using a by (auto simp: audio_inv_def)
  show ?thesis
  proof (cases "h_stop s")
    case (Some p)
    with a st [OF Some] show ?thesis
      by (cases p) (auto simp: resume_stop_def end_handoff_audio split: option.split,
        auto simp: audio_inv_def is_silent_phase_def)
  qed (use a in \<open>simp add: resume_stop_def\<close>)
qed

lemma step_audio: "tasks_inv s \<Longrightarrow> audio_inv s \<Longrightarrow> audio_inv (control_step py s e)"
proof (cases e)
  case Unready
  then show "audio_inv s \<Longrightarrow> ?thesis" by (auto simp: audio_inv_def)
next
  case Close
  then show "audio_inv s \<Longrightarrow> ?thesis" by (auto simp: audio_inv_def split: option.splits)
next
  case (Silence fails)
  then show "audio_inv s \<Longrightarrow> ?thesis" by (auto simp: audio_inv_def silence_audio split: option.splits)
next
  case (FireTimeout i loop)
  then show "audio_inv s \<Longrightarrow> ?thesis"
    by (auto simp: fire_timeout_def Let_def audio_inv_def split: option.splits)
qed (simp_all add: receive_audio attach_audio go_live_audio resume_audio resume_stop_audio)

section \<open>The window of command ids\<close>

lemma human_seen [simp]: "h_seen (human_answered d now loop fails s) = h_seen s"
  by (simp add: human_answered_def Let_def)

lemma requested_seen [simp]: "h_seen (transfer_requested d now s) = h_seen s"
  by (simp add: transfer_requested_def)

lemma failed_seen [simp]: "h_seen (transfer_failed d now s) = h_seen s"
  by (simp add: transfer_failed_def Let_def)

text \<open>The command a packet would be accepted as.\<close>

definition accepted :: "python \<Rightarrow> packet \<Rightarrow> handler \<Rightarrow> control_command option" where
  "accepted py packet s =
     (case parse_command py packet (h_call_id s) of
        Inl e \<Rightarrow> None
      | Inr c \<Rightarrow> if cmd_id c \<in> set (h_seen s) \<or> h_stopping s then None else Some c)"

lemma receive_seen:
  "h_seen (fst (receive py packet now loop fails s))
    = (case accepted py packet s of None \<Rightarrow> h_seen s | Some c \<Rightarrow> h_seen (remember (cmd_id c) s))"
  by (auto simp: receive_def accepted_def Let_def split: sum.split action.split)

lemma receive_result: "snd (receive py packet now loop fails s) \<longleftrightarrow> accepted py packet s \<noteq> None"
  by (auto simp: receive_def accepted_def Let_def split: sum.split)

lemma receive_refused: "accepted py packet s = None \<Longrightarrow> receive py packet now loop fails s = (s, False)"
  by (auto simp: receive_def accepted_def Let_def split: sum.splits if_splits)

lemma remember_seen_inv: "seen_inv s \<Longrightarrow> c \<notin> set (h_seen s) \<Longrightarrow> seen_inv (remember c s)"
  by (auto simp: seen_inv_def remember_def Let_def distinct_tl)

lemma other_seen:
  "h_seen (attach tr fa s) = h_seen s" "h_seen (go_live now2 s) = h_seen s"
  "h_seen (fire_timeout i loop s) = h_seen s" "h_seen (resume_stop c now loop fails s) = h_seen s"
  by (auto simp: attach_def go_live_def activate_def fire_timeout_def resume_stop_def end_handoff_def
      Let_def split: option.split stop_phase.split)

lemma step_seen_inv: "seen_inv s \<Longrightarrow> seen_inv (control_step py s e)"
proof (cases e)
  case (Receive packet now loop fails)
  assume s: "seen_inv s"
  show ?thesis
  proof (cases "accepted py packet s")
    case None
    with Receive s show ?thesis by (simp add: receive_refused)
  next
    case (Some c)
    then have "cmd_id c \<notin> set (h_seen s)" by (auto simp: accepted_def split: sum.splits if_splits)
    with s Some Receive remember_seen_inv [OF s] show ?thesis
      by (simp add: seen_inv_def receive_seen)
  qed
qed (auto simp: seen_inv_def other_seen)

interpretation takeover: event_machine "control_step py" control_inv for py
  by unfold_locales (auto simp: control_inv_def intro: step_tasks_inv step_audio step_seen_inv)

section \<open>The teardown\<close>

text \<open>The calls that leave the room and end the job, in order.\<close>

definition is_room_effect :: "effect \<Rightarrow> bool" where
  "is_room_effect e \<longleftrightarrow> e = DisconnectRoom \<or> e = ShutdownJob"

definition room_effects :: "handler \<Rightarrow> effect list" where
  "room_effects s = filter is_room_effect (h_effects s)"

definition teardown_inv :: "handler \<Rightarrow> bool" where
  "teardown_inv s \<longleftrightarrow>
     room_effects s =
       (case h_stop s of
          Some Disconnecting \<Rightarrow> [DisconnectRoom]
        | Some Stopped \<Rightarrow> [DisconnectRoom, ShutdownJob]
        | _ \<Rightarrow> [])"

lemma room_effects_frame [simp]:
  "room_effects (cancel_announcement s) = room_effects s"
  "room_effects (set_input b s) = room_effects s" "room_effects (set_output b s) = room_effects s"
  "room_effects (update_task i f s) = room_effects s"
  "\<not> is_room_effect e \<Longrightarrow> room_effects (emit e s) = room_effects s"
  "room_effects (remember c s) = room_effects s"
  by (simp_all add: room_effects_def is_room_effect_def)

lemma room_effects_fields [simp]:
  "room_effects (s\<lparr>h_stop := st\<rparr>) = room_effects s" "room_effects (s\<lparr>h_stopping := b\<rparr>) = room_effects s"
  "room_effects (s\<lparr>h_transferring := b\<rparr>) = room_effects s" "room_effects (s\<lparr>h_deadline := d\<rparr>) = room_effects s"
  "room_effects (s\<lparr>h_ready := b\<rparr>) = room_effects s" "room_effects (s\<lparr>h_current := c\<rparr>) = room_effects s"
  "room_effects (s\<lparr>h_timeout := c\<rparr>) = room_effects s" "room_effects (s\<lparr>h_tasks := t\<rparr>) = room_effects s"
  "room_effects (s\<lparr>h_next := n\<rparr>) = room_effects s" "room_effects (s\<lparr>h_session := b\<rparr>) = room_effects s"
  "room_effects (s\<lparr>h_transfer_statement := x\<rparr>) = room_effects s"
  "room_effects (s\<lparr>h_failed_statement := x\<rparr>) = room_effects s"
  by (simp_all add: room_effects_def)

lemma not_room_effects [simp]:
  "\<not> is_room_effect InterruptSession" "\<not> is_room_effect (Say t b)" "\<not> is_room_effect (InterruptSpeech i)"
  "\<not> is_room_effect ShutdownSession"
  by (simp_all add: is_room_effect_def)

lemma room_effects_methods [simp]:
  "room_effects (start_announcement now s) = room_effects s"
  "room_effects (silence fails s) = room_effects s"
  "room_effects (finish_announcement i sp s) = room_effects s"
  by (auto simp: start_announcement_def silence_def finish_announcement_def Let_def)

lemma room_effects_steps [simp]:
  "room_effects (extend_outro k now loop s) = room_effects s"
  "room_effects (transfer_requested d now s) = room_effects s"
  "room_effects (transfer_failed d now s) = room_effects s"
  "room_effects (resume_announcement i ok t loop fails s) = room_effects s"
  "room_effects (fire_timeout i loop s) = room_effects s"
  "room_effects (attach tr fa s) = room_effects s"
  "room_effects (go_live t s) = room_effects s"
  by (auto simp: extend_outro_def transfer_requested_def transfer_failed_def resume_announcement_def
      fire_timeout_def attach_def go_live_def activate_def Let_def split: option.split ann_phase.split)

lemma room_effects_human [simp]: "room_effects (human_answered d now loop fails s) = room_effects s"
  by (simp add: human_answered_def Let_def)

lemma other_stop [simp]:
  "h_stop (transfer_requested d now s) = h_stop s" "h_stop (transfer_failed d now s) = h_stop s"
  "h_stop (fire_timeout i loop s) = h_stop s" "h_stop (attach tr fa s) = h_stop s"
  "h_stop (go_live t s) = h_stop s"
  by (auto simp: transfer_requested_def transfer_failed_def fire_timeout_def attach_def go_live_def
      activate_def Let_def)

lemma human_stop:
  "h_stop (human_answered d now loop fails s) = Some (Handoff x) \<or>
     h_stop (human_answered d now loop fails s) = Some (Stopping (remaining_ms d (now 0)))"
  if "x = h_deadline (extend_outro (remaining_ms d (now 0)) now loop (s\<lparr>h_stopping := True\<rparr>))"
  by (simp add: human_answered_def Let_def that)

lemma receive_teardown:
  assumes "audio_inv s" "teardown_inv s"
  shows "teardown_inv (fst (receive py packet now loop fails s))"
proof (cases "accepted py packet s")
  case None
  with assms show ?thesis by (simp add: receive_refused)
next
  case (Some c)
  then have "\<not> h_stopping s" by (auto simp: accepted_def split: sum.splits if_splits)
  with assms have "room_effects s = []" "h_stop s = None" by (auto simp: audio_inv_def teardown_inv_def)
  moreover have "teardown_inv (human_answered d now loop fails s')" if "room_effects s' = []" for d s'
    using human_stop [OF refl, of d now loop fails s'] that by (auto simp: teardown_inv_def)
  ultimately show ?thesis
    by (auto simp: receive_def Let_def teardown_inv_def split: sum.split action.split)
qed

lemma resume_stop_teardown: "teardown_inv s \<Longrightarrow> teardown_inv (resume_stop c now loop fails s)"
  by (auto simp: resume_stop_def end_handoff_def teardown_inv_def room_effects_def is_room_effect_def
      silence_def Let_def split: option.splits stop_phase.splits)

lemma step_teardown: "audio_inv s \<Longrightarrow> teardown_inv s \<Longrightarrow> teardown_inv (control_step py s e)"
  by (cases e) (auto simp: receive_teardown resume_stop_teardown, auto simp: teardown_inv_def)

interpretation teardown: event_machine "control_step py" "\<lambda>s. control_inv s \<and> teardown_inv s" for py
  by unfold_locales (auto simp: control_inv_def step_teardown intro: step_tasks_inv step_audio step_seen_inv)

section \<open>What stays as it is\<close>

text \<open>Taken over, silenced, and with no announcement left that could speak.\<close>

definition quiet :: "handler \<Rightarrow> bool" where
  "quiet s \<longleftrightarrow> h_stopping s \<and> h_current s = None \<and> \<not> h_input s \<and> \<not> h_output s"

lemma receive_stopping: "h_stopping s \<Longrightarrow> receive py packet now loop fails s = (s, False)"
  by (rule receive_refused) (auto simp: accepted_def split: sum.split)

lemma resume_stop_stopping [simp]: "h_stopping (resume_stop c now loop fails s) = h_stopping s"
  by (auto simp: resume_stop_def end_handoff_def split: option.split stop_phase.split)

lemma step_stopping: "h_stopping s \<Longrightarrow> h_stopping (control_step py s e)"
  by (cases e) (auto simp: receive_stopping attach_def go_live_def fire_timeout_def Let_def)

lemma resume_stop_quiet:
  "quiet s \<Longrightarrow> quiet (resume_stop c now loop fails s)"
  by (auto simp: quiet_def resume_stop_def end_handoff_def silence_audio split: option.split stop_phase.split)

lemma step_quiet: "tasks_inv s \<Longrightarrow> quiet s \<Longrightarrow> quiet (control_step py s e)"
proof (cases e)
  case (ResumeAnnouncement i ok now loop fails)
  then show "tasks_inv s \<Longrightarrow> quiet s \<Longrightarrow> ?thesis" using resume_quiet [of s] by (auto simp: quiet_def)
next
  case (ResumeStop c now loop fails)
  then show "quiet s \<Longrightarrow> ?thesis" using resume_stop_quiet [of s] by simp
qed (auto simp: quiet_def receive_stopping attach_def go_live_def fire_timeout_def silence_audio Let_def)

interpretation stopping: latched_machine "control_step py" control_inv h_stopping for py
  by unfold_locales (auto intro: step_stopping)

interpretation silenced: latched_machine "control_step py" control_inv quiet for py
  by unfold_locales (auto simp: control_inv_def intro: step_quiet)

text \<open>What can still be heard or done on the session once it is quiet: nothing.\<close>

definition is_audible :: "effect \<Rightarrow> bool" where
  "is_audible e \<longleftrightarrow> e = SetInput True \<or> e = SetOutput True \<or> (\<exists>t b. e = Say t b)"

definition audible :: "handler \<Rightarrow> effect list" where
  "audible s = filter is_audible (h_effects s)"

lemma step_quiet_audible:
  assumes "tasks_inv s" "quiet s"
  shows "audible (control_step py s e) = audible s"
proof (cases e)
  case (ResumeAnnouncement i ok now loop fails)
  have "h_next s \<le> i \<or> ann_phase (h_tasks s i) = Finished \<or> ann_cancelled (h_tasks s i)"
    using live_is_current [OF assms(1), of i] assms(2) unfolding quiet_def
    by (metis not_le option.distinct(1))
  with ResumeAnnouncement assms(2) show ?thesis
    by (elim disjE) (auto simp: audible_def resume_announcement_def finish_announcement_def quiet_def Let_def
        is_audible_def split: ann_phase.split)
next
  case (ResumeStop c now loop fails)
  then show ?thesis
    by (auto simp: audible_def resume_stop_def end_handoff_def silence_def is_audible_def Let_def
        split: option.split stop_phase.split)
next
  case (Silence fails)
  then show ?thesis by (auto simp: audible_def silence_def is_audible_def Let_def)
qed (use assms in \<open>auto simp: audible_def quiet_def receive_stopping attach_def go_live_def
    fire_timeout_def Let_def\<close>)

lemma run_quiet_audible:
  "control_inv s \<Longrightarrow> quiet s \<Longrightarrow> audible (run (control_step py) s es) = audible s"
proof (induction es arbitrary: s)
  case (Cons e es)
  then show ?case
    using takeover.step_inv [of s py e] step_quiet [of s py e] step_quiet_audible [of s py e]
    by (simp add: control_inv_def)
qed simp

section \<open>Command ids over a run\<close>

definition last_n :: "nat \<Rightarrow> 'a list \<Rightarrow> 'a list" where
  "last_n n xs = drop (length xs - n) xs"

lemma last_n_append: "last_n n (last_n n xs @ ys) = last_n n (xs @ ys)"
  by (cases "length xs \<le> n") (auto simp: last_n_def add.commute)

lemma last_n_id: "length xs \<le> n \<Longrightarrow> last_n n xs = xs"
  by (simp add: last_n_def)

fun accepted_by :: "python \<Rightarrow> handler \<Rightarrow> control_event \<Rightarrow> pystr list" where
  "accepted_by py s (Receive packet now loop fails) =
     (case accepted py packet s of None \<Rightarrow> [] | Some c \<Rightarrow> [cmd_id c])"
| "accepted_by py s e = []"

fun accepted_ids :: "python \<Rightarrow> handler \<Rightarrow> control_event list \<Rightarrow> pystr list" where
  "accepted_ids py s [] = []"
| "accepted_ids py s (e # es) = accepted_by py s e @ accepted_ids py (control_step py s e) es"

lemma step_seen:
  assumes "length (h_seen s) \<le> 256"
  shows "h_seen (control_step py s e) = last_n 256 (h_seen s @ accepted_by py s e)"
proof (cases e)
  case (Receive packet now loop fails)
  have "h_seen (remember c s) = last_n 256 (h_seen s @ [c])" for c
  proof (cases "length (h_seen s) = 256")
    case True
    then have "h_seen s \<noteq> []" by auto
    with True show ?thesis by (simp add: last_n_def remember_def Let_def drop_Suc)
  next
    case False
    with assms show ?thesis by (simp add: last_n_def remember_def Let_def)
  qed
  with Receive assms show ?thesis by (simp add: receive_seen last_n_id split: option.split)
qed (use assms in \<open>simp_all add: last_n_id other_seen\<close>)

lemma run_seen:
  "length (h_seen s) \<le> 256 \<Longrightarrow>
     h_seen (run (control_step py) s es) = last_n 256 (h_seen s @ accepted_ids py s es)"
proof (induction es arbitrary: s)
  case Nil
  then show ?case by (simp add: last_n_id)
next
  case (Cons e es)
  have "length (h_seen (control_step py s e)) \<le> 256"
    using step_seen [OF Cons.prems] by (simp add: last_n_def)
  from Cons.IH [OF this] step_seen [OF Cons.prems, of py e]
    last_n_append [of 256 "h_seen s @ accepted_by py s e"] show ?case by simp
qed

text \<open>The call the handler belongs to never changes.\<close>

lemma call_id_switches [simp]:
  "h_call_id (emit e s) = h_call_id s" "h_call_id (set_input b s) = h_call_id s"
  "h_call_id (set_output b s) = h_call_id s" "h_call_id (update_task i f s) = h_call_id s"
  "h_call_id (remember c s) = h_call_id s"
  by (simp_all add: handler_simps remember_def Let_def)

lemma call_id_methods [simp]:
  "h_call_id (start_announcement now s) = h_call_id s" "h_call_id (silence fails s) = h_call_id s"
  "h_call_id (finish_announcement i sp s) = h_call_id s"
  by (simp_all add: start_announcement_def silence_def finish_announcement_def Let_def)

lemma call_id_extend [simp]: "h_call_id (extend_outro k now loop s) = h_call_id s"
  by (simp add: extend_outro_def Let_def split: option.split)

lemma call_id_receive [simp]: "h_call_id (fst (receive py packet now loop fails s)) = h_call_id s"
  by (simp add: receive_def human_answered_def transfer_requested_def transfer_failed_def Let_def
      split: sum.split action.split)

lemma call_id_tasks [simp]:
  "h_call_id (resume_announcement i ok t loop fails s) = h_call_id s"
  "h_call_id (resume_stop c t loop fails s) = h_call_id s"
  by (simp_all add: resume_announcement_def resume_stop_def end_handoff_def Let_def
      split: ann_phase.split option.split stop_phase.split)

lemma step_call_id: "h_call_id (control_step py s e) = h_call_id s"
  by (cases e) (auto simp: attach_def go_live_def activate_def fire_timeout_def Let_def)

lemma run_call_id: "h_call_id (run (control_step py) s es) = h_call_id s"
  by (induction es arbitrary: s) (simp_all add: step_call_id)

section \<open>The grace period\<close>

lemma remaining_ms_le: "remaining_ms d now \<le> 10000" "0 < remaining_ms d now \<Longrightarrow> int (remaining_ms d now) \<le> d - now"
  by (auto simp: remaining_ms_def)

lemma start_deadline: "h_deadline (start_announcement now s) \<le> h_deadline s"
  by (simp add: start_announcement_def Let_def)

lemma extend_deadline:
  assumes "h_ready s" "h_session s" "0 < k" "k \<le> 10000"
  shows "h_deadline (extend_outro k now loop s) \<le> now 1 + int k"
proof -
  have w: "int (whole_ms k) \<le> int k" using whole_ms_le [OF assms(4)] by simp
  show ?thesis
    using assms(1-3) w
      start_deadline [of "now 2" "s\<lparr>h_deadline := now 1 + int (whole_ms k), h_transferring := True\<rparr>"]
    by (simp add: extend_outro_def Let_def split: option.split)
qed

lemma human_stop_exact:
  assumes "control_inv s" "\<not> h_stopping s"
  shows "(\<exists>x. h_stop (human_answered d now loop fails s) = Some (Handoff x)
            \<and> x \<le> now 1 + int (remaining_ms d (now 0)) \<and> 0 < remaining_ms d (now 0))
       \<or> h_stop (human_answered d now loop fails s) = Some (Stopping (remaining_ms d (now 0)))"
proof -
  let ?k = "remaining_ms d (now 0)"
  let ?s = "extend_outro ?k now loop (s\<lparr>h_stopping := True\<rparr>)"
  show ?thesis
  proof (cases "h_ready ?s \<and> 0 < ?k \<and> h_current ?s \<noteq> None")
    case True
    have "tasks_inv ?s" using assms by (intro extend_tasks_inv) (simp add: control_inv_def)
    with True have "h_session s" by (auto simp: tasks_inv_def)
    with True extend_deadline [of "s\<lparr>h_stopping := True\<rparr>" ?k now loop] remaining_ms_le(1)
    show ?thesis by (simp add: human_answered_def Let_def)
  next
    case False
    then have "h_stop (human_answered d now loop fails s) = Some (Stopping ?k)"
      unfolding human_answered_def Let_def if_not_P [OF False] by simp
    then show ?thesis by simp
  qed
qed

lemma silent_phase_quiet:
  "control_inv s \<Longrightarrow> h_stop s = Some p \<Longrightarrow> is_silent_phase p \<Longrightarrow> quiet s"
  by (auto simp: control_inv_def audio_inv_def quiet_def)

section \<open>Properties\<close>

lemma reachable_inv: "control_inv (run (control_step py) (new_handler call_id) es)"
  by (rule takeover.run_inv) (rule new_handler_inv)

definition sample_command :: "action \<Rightarrow> control_command" where
  "sample_command a = \<lparr>cmd_id = str ''cmd-1'', cmd_action = a, cmd_deadline = 5000\<rparr>"

lemma sample_command_wf: "wf_command (sample_command a)"
  by (simp add: wf_command_def sample_command_def grammar_simps is_command_char_def)

definition sample_id :: pystr where
  "sample_id = dashed (replicate 32 97)"

definition sample_packet :: "action \<Rightarrow> packet" where
  "sample_packet a = command_packet sample_id (sample_command a)"

lemma sample_packet_parsed:
  "parse_command plain_python (sample_packet a) sample_id = Inr (sample_command a)"
  using parse_command_print [OF sample_command_wf, of sample_id plain_python a] sample_uuid
  by (simp add: sample_packet_def sample_id_def plain_python_def)

abbreviation takeover_event :: control_event where
  "takeover_event \<equiv> Receive (sample_packet HumanAnswered) (\<lambda>_. 0) 0 (\<lambda>_. False)"

lemma sample_takeover:
  "h_stop (run (control_step plain_python) (new_handler sample_id) [takeover_event]) = Some (Stopping 5000)"
  by (simp add: receive_def new_handler_def sample_packet_parsed)
    (simp add: sample_command_def human_answered_def remember_def extend_outro_def remaining_ms_def Let_def)



text \<open>A packet that is not a command for this call from the server changes nothing; one
  that is taken comes from the control topic with no participant and names the call.\<close>

theorem receive_only_trusted:
  "case receive py packet now loop fails s of (s', taken) \<Rightarrow>
     if taken then
       pkt_topic packet = str ''aida.control'' \<and> pkt_participant packet = None
       \<and> (\<exists>data. json_loads (strict_opts py) (rec_limit py) (RawBytes (pkt_data packet)) = Inr (JObj data)
            \<and> get data ''callId'' = Some (JStr (h_call_id s)))
     else s' = s"
proof (cases "parse_command py packet (h_call_id s)")
  case (Inl e)
  then show ?thesis by (simp add: receive_def)
next
  case (Inr c)
  show ?thesis
  proof (cases "accepted py packet s")
    case None
    then show ?thesis by (simp add: receive_refused)
  next
    case (Some c')
    then have "snd (receive py packet now loop fails s)" by (simp add: receive_result)
    with parse_command_InrD [OF Inr] show ?thesis by (auto split: prod.split)
  qed
qed

text \<open>C25. At most once: in any history of the handler, a command whose id is among the last 256
  that were accepted is refused and changes nothing; the memory of ids never exceeds 256.\<close>

theorem duplicate_refused:
  assumes "parse_command py packet call_id = Inr c"
    and "cmd_id c \<in> set (last_n 256 (accepted_ids py (new_handler call_id) es))"
  shows "receive py packet now loop fails (run (control_step py) (new_handler call_id) es)
      = (run (control_step py) (new_handler call_id) es, False)
    \<and> length (h_seen (run (control_step py) (new_handler call_id) es)) \<le> 256"
proof -
  let ?s = "run (control_step py) (new_handler call_id) es"
  have "h_seen ?s = last_n 256 (accepted_ids py (new_handler call_id) es)"
    using run_seen [of "new_handler call_id" py es] by (simp add: new_handler_def)
  with assms have "accepted py packet ?s = None"
    by (simp add: accepted_def run_call_id) (simp add: new_handler_def)
  with reachable_inv [of py call_id es] show ?thesis
    by (simp add: receive_refused control_inv_def seen_inv_def)
qed

theorem duplicate_refused_witness:
  "receive plain_python (sample_packet TransferFailed) (\<lambda>_. 0) 0 (\<lambda>_. False)
     (run (control_step plain_python) (new_handler sample_id) [takeover_event])
   = (run (control_step plain_python) (new_handler sample_id) [takeover_event], False)"
proof -
  have "accepted plain_python (sample_packet HumanAnswered) (new_handler sample_id)
      = Some (sample_command HumanAnswered)"
    by (simp add: accepted_def new_handler_def sample_packet_parsed)
  then have "cmd_id (sample_command TransferFailed)
      \<in> set (last_n 256 (accepted_ids plain_python (new_handler sample_id) [takeover_event]))"
    by (simp add: last_n_def) (simp add: sample_command_def)
  with duplicate_refused [OF sample_packet_parsed this] show ?thesis by blast
qed

text \<open>C5. A human answering is final: from then on, whatever is received and whichever task
  runs, the handler stays stopping, the caller's audio does not reach the agent, and every
  later command (a late transfer_failed included) is refused and changes nothing.\<close>

theorem takeover_is_final:
  assumes "h_stopping (run (control_step py) (new_handler call_id) es)"
  shows "h_stopping (run (control_step py) (new_handler call_id) (es @ fs))
    \<and> \<not> h_input (run (control_step py) (new_handler call_id) (es @ fs))
    \<and> receive py packet now loop fails (run (control_step py) (new_handler call_id) (es @ fs))
      = (run (control_step py) (new_handler call_id) (es @ fs), False)"
proof -
  have s: "h_stopping (run (control_step py) (new_handler call_id) (es @ fs))"
    using assms by (rule stopping.run_flag_prefix [OF new_handler_inv])
  then show ?thesis
    using reachable_inv [of py call_id "es @ fs"]
    by (simp add: receive_stopping control_inv_def audio_inv_def)
qed

theorem takeover_is_final_witness:
  "receive plain_python (sample_packet TransferFailed) (\<lambda>_. 0) 0 (\<lambda>_. False)
     (run (control_step plain_python) (new_handler sample_id) ([takeover_event] @ [Close]))
   = (run (control_step plain_python) (new_handler sample_id) ([takeover_event] @ [Close]), False)"
proof -
  have "h_stopping (run (control_step plain_python) (new_handler sample_id) [takeover_event])"
    using sample_takeover reachable_inv [of plain_python sample_id "[takeover_event]"]
    by (simp add: control_inv_def audio_inv_def)
  from takeover_is_final [OF this] show ?thesis by blast
qed

text \<open>C4. Once the stop task has silenced the session (about to disconnect, disconnecting or
  done) the agent is never heard again: both audio switches stay off and nothing that
  happens later switches audio on or speaks, not even an announcement still in flight.\<close>

theorem silence_is_final:
  assumes "h_stop (run (control_step py) (new_handler call_id) es) = Some p" "is_silent_phase p"
  shows "\<not> h_input (run (control_step py) (new_handler call_id) (es @ fs))
    \<and> \<not> h_output (run (control_step py) (new_handler call_id) (es @ fs))
    \<and> audible (run (control_step py) (new_handler call_id) (es @ fs))
      = audible (run (control_step py) (new_handler call_id) es)"
proof -
  have q: "quiet (run (control_step py) (new_handler call_id) es)"
    using silent_phase_quiet [OF reachable_inv assms] .
  then have "quiet (run (control_step py) (new_handler call_id) (es @ fs))"
    by (rule silenced.run_flag_prefix [OF new_handler_inv])
  with run_quiet_audible [OF reachable_inv q, of py fs] show ?thesis
    by (simp add: quiet_def run_append)
qed

theorem silence_is_final_witness:
  "\<not> h_output (run (control_step plain_python) (new_handler sample_id)
     ([takeover_event] @ [Close, ResumeStop False 0 0 (\<lambda>_. True)]))"
  using silence_is_final [OF sample_takeover, of "[Close, ResumeStop False 0 0 (\<lambda>_. True)]"]
  by (simp add: is_silent_phase_def)

text \<open>C26. The room is left at most once and the job ended at most once, in that order, and not
  before the session is silent with no announcement pending.\<close>

theorem teardown_order:
  "room_effects (run (control_step py) (new_handler call_id) es) = []
   \<or> quiet (run (control_step py) (new_handler call_id) es)
     \<and> room_effects (run (control_step py) (new_handler call_id) es)
       \<in> {[DisconnectRoom], [DisconnectRoom, ShutdownJob]}"
proof -
  let ?s = "run (control_step py) (new_handler call_id) es"
  have i: "control_inv ?s \<and> teardown_inv ?s"
    by (rule teardown.run_inv)
      (simp add: new_handler_inv, simp add: teardown_inv_def new_handler_def room_effects_def)
  show ?thesis
  proof (cases "h_stop ?s")
    case (Some p)
    with i silent_phase_quiet [of ?s p] show ?thesis
      by (cases p) (auto simp: teardown_inv_def is_silent_phase_def)
  qed (use i in \<open>simp add: teardown_inv_def\<close>)
qed



text \<open>C27. The grace a human's answer gives the outro is the PBX's own deadline and never more than
  ten seconds: either the stop task waits until a time within both, or, with no outro to
  finish, the session is silent at once and the disconnection is bounded the same way.\<close>

theorem answer_grace:
  assumes "accepted py packet (run (control_step py) (new_handler call_id) es) = Some c"
    and "cmd_action c = HumanAnswered"
  shows "case h_stop (fst (receive py packet now loop fails (run (control_step py) (new_handler call_id) es))) of
      Some (Handoff deadline) \<Rightarrow> deadline \<le> now 1 + min 10000 (cmd_deadline c - now 0)
    | Some (Stopping k) \<Rightarrow> int k = max 0 (min 10000 (cmd_deadline c - now 0))
        \<and> quiet (fst (receive py packet now loop fails (run (control_step py) (new_handler call_id) es)))
    | _ \<Rightarrow> False"
proof -
  let ?s = "run (control_step py) (new_handler call_id) es"
  let ?r = "remember (cmd_id c) ?s"
  have acc: "parse_command py packet (h_call_id ?s) = Inr c" "cmd_id c \<notin> set (h_seen ?s)" "\<not> h_stopping ?s"
    using assms(1) by (auto simp: accepted_def split: sum.splits if_splits)
  have r: "fst (receive py packet now loop fails ?s) = human_answered (cmd_deadline c) now loop fails ?r"
    using acc assms(2) by (simp add: receive_def Let_def)
  have inv: "control_inv ?r"
    using reachable_inv [of py call_id es] remember_seen_inv acc(2) by (simp add: control_inv_def)
  have "audio_inv (human_answered (cmd_deadline c) now loop fails ?r)"
    using inv by (intro human_audio) (simp add: control_inv_def)
  then have q: "h_stop (human_answered (cmd_deadline c) now loop fails ?r) = Some (Stopping k) \<Longrightarrow>
      quiet (human_answered (cmd_deadline c) now loop fails ?r)" for k
    by (auto simp: audio_inv_def quiet_def is_silent_phase_def)
  have k: "int (remaining_ms (cmd_deadline c) (now 0)) = max 0 (min 10000 (cmd_deadline c - now 0))"
    by (simp add: remaining_ms_def)
  from human_stop_exact [OF inv, of "cmd_deadline c" now loop fails] acc(3) q k show ?thesis
    unfolding r by (auto simp: remaining_ms_def)
qed

theorem answer_grace_witness:
  "case h_stop (fst (receive plain_python (sample_packet HumanAnswered) (\<lambda>_. 0) 0 (\<lambda>_. False)
      (run (control_step plain_python) (new_handler sample_id) []))) of
     Some (Handoff deadline) \<Rightarrow> deadline \<le> 5000 | Some (Stopping k) \<Rightarrow> int k = 5000 | _ \<Rightarrow> False"
proof -
  have "accepted plain_python (sample_packet HumanAnswered)
      (run (control_step plain_python) (new_handler sample_id) []) = Some (sample_command HumanAnswered)"
    by (simp add: accepted_def new_handler_def sample_packet_parsed)
  from answer_grace [OF this, of "\<lambda>_. 0" 0 "\<lambda>_. False"] show ?thesis
    by (auto simp: sample_command_def split: option.splits stop_phase.splits)
qed

text \<open>Whenever the caller's audio reaches the agent, there is a session, no human has
  answered, and no confirmed transfer is in progress on a live handler.\<close>

theorem caller_audio_guard:
  assumes "h_input (run (control_step py) (new_handler call_id) es)"
  shows "h_session (run (control_step py) (new_handler call_id) es)
    \<and> \<not> h_stopping (run (control_step py) (new_handler call_id) es)
    \<and> \<not> (h_transferring (run (control_step py) (new_handler call_id) es)
         \<and> h_ready (run (control_step py) (new_handler call_id) es))"
  using assms reachable_inv [of py call_id es] by (auto simp: control_inv_def audio_inv_def)

theorem caller_audio_guard_witness:
  "h_session (run (control_step plain_python) (new_handler sample_id) [Attach [] [], Activate 0])"
proof -
  have "h_input (run (control_step plain_python) (new_handler sample_id) [Attach [] [], Activate 0])"
    by (simp add: attach_def new_handler_def go_live_def activate_def handler_simps)
  from caller_audio_guard [OF this] show ?thesis by blast
qed

text \<open>At most one announcement is live: of all the announcement tasks a history created,
  only the handler's current one is neither cancelled nor finished.\<close>

theorem one_live_announcement:
  assumes "i < h_next (run (control_step py) (new_handler call_id) es)"
    and "\<not> ann_cancelled (h_tasks (run (control_step py) (new_handler call_id) es) i)"
    and "ann_phase (h_tasks (run (control_step py) (new_handler call_id) es) i) \<noteq> Finished"
  shows "h_current (run (control_step py) (new_handler call_id) es) = Some i"
  using live_is_current assms reachable_inv [of py call_id es] by (simp add: control_inv_def)

theorem one_live_announcement_witness:
  "h_current (run (control_step plain_python) (new_handler sample_id)
     [Attach [] [], Activate 0, Receive (sample_packet TransferRequested) (\<lambda>_. 0) 0 (\<lambda>_. False)]) = Some 0"
proof (rule one_live_announcement)
  let ?s = "run (control_step plain_python) (new_handler sample_id)
     [Attach [] [], Activate 0, Receive (sample_packet TransferRequested) (\<lambda>_. 0) 0 (\<lambda>_. False)]"
  have s: "?s = fst (receive plain_python (sample_packet TransferRequested) (\<lambda>_. 0) 0 (\<lambda>_. False)
      (run (control_step plain_python) (new_handler sample_id) [Attach [] [], Activate 0]))"
    by simp
  show "0 < h_next ?s" "\<not> ann_cancelled (h_tasks ?s 0)" "ann_phase (h_tasks ?s 0) \<noteq> Finished"
    by (simp_all add: attach_def new_handler_def go_live_def activate_def handler_simps receive_def
        sample_packet_parsed transfer_requested_def start_announcement_def cancel_announcement_def
        remember_def Let_def new_announcement_def)
      (simp_all add: sample_command_def transfer_requested_def start_announcement_def
        cancel_announcement_def handler_simps Let_def new_announcement_def)
qed

end
