(* ===== verification/Bootstrap.thy ===== *)
theory Bootstrap
  imports Config
begin

text \<open>
  bootstrap.py: the SIP leg, the validation of the bootstrap response against the trusted
  dispatch, and the one authorization request. The HTTP client is a parameter: a function
  from the request to what it reports (a failure, or a response with the chunks of its body,
  which may break off).
\<close>

definition MAX_RESPONSE_BYTES :: nat where
  "MAX_RESPONSE_BYTES = MAX_PROFILE_BYTES + 4096"

section \<open>The SIP leg\<close>

record sip_leg =
  leg_identity :: pystr
  leg_sid :: pystr
  leg_route_token :: pystr

definition leg_text_ok :: "pystr \<Rightarrow> bool" where
  "leg_text_ok v \<longleftrightarrow>
     v \<noteq> [] \<and> length v \<le> 256 \<and> \<not> list_ex (\<lambda>c. c < 32 \<or> c = 127) v"

text \<open>The constructor with its \<open>__post_init__\<close>.\<close>

definition new_leg :: "pystr \<Rightarrow> pystr \<Rightarrow> pystr \<Rightarrow> sip_leg result" where
  "new_leg identity sid token =
     (if \<not> leg_text_ok identity \<or> \<not> leg_text_ok sid then invalid ''invalid SIP participant''
      else bind_res (credential (JStr token)) (\<lambda>t.
        Inr \<lparr>leg_identity = identity, leg_sid = sid, leg_route_token = token\<rparr>))"

definition wf_leg :: "sip_leg \<Rightarrow> bool" where
  "wf_leg l \<longleftrightarrow> leg_text_ok (leg_identity l) \<and> leg_text_ok (leg_sid l)
     \<and> fullmatch is_token_char 43 256 (leg_route_token l)"

lemma new_leg_iff:
  "new_leg i s t = Inr l \<longleftrightarrow> l = \<lparr>leg_identity = i, leg_sid = s, leg_route_token = t\<rparr> \<and> wf_leg l"
  by (auto simp: new_leg_def wf_leg_def bind_res_eq_Inr credential_iff)

section \<open>The response\<close>

definition response_keys :: "pystr set" where
  "response_keys = str ` {''callSessionId'', ''roomName'', ''sipParticipantIdentity'',
     ''sipParticipantSid'', ''profileSnapshot''}"

definition authorized_profile ::
  "python \<Rightarrow> pybytes \<Rightarrow> dispatch_configuration \<Rightarrow> pystr \<Rightarrow> sip_leg \<Rightarrow> call_configuration result"
where
  "authorized_profile py raw dispatch room_name leg =
     bind_res (strict_json py (RawBytes raw) MAX_RESPONSE_BYTES) (\<lambda>data.
       if keys data \<noteq> response_keys then invalid ''invalid bootstrap response''
       else if get data ''callSessionId'' \<noteq> Some (JStr (d_call_id dispatch))
             \<or> get data ''roomName'' \<noteq> Some (JStr room_name)
             \<or> get data ''sipParticipantIdentity'' \<noteq> Some (JStr (leg_identity leg))
             \<or> get data ''sipParticipantSid'' \<noteq> Some (JStr (leg_sid leg))
       then invalid ''bootstrap binding mismatch''
       else bind_res (index data ''profileSnapshot'') (\<lambda>snapshot.
         bind_res (parse_call py (json_dumps default_dump snapshot) room_name) (\<lambda>call.
           if c_pbx_instance_id call \<noteq> d_pbx_instance_id dispatch
              \<or> c_context call \<noteq> d_context dispatch
           then invalid ''bootstrap scope mismatch'' else Inr call)))"

section \<open>The request\<close>

record http_request =
  req_url :: pystr
  req_body :: json
  req_headers :: "(pystr \<times> pystr) list"
  req_total_timeout :: pyfloat
  req_allow_redirects :: bool
  req_trust_env :: bool
  req_auto_decompress :: bool

text \<open>A body is the chunks that arrive; \<open>None\<close> is a client error while reading.\<close>

record http_response =
  res_status :: nat
  res_content_type :: pystr
  res_content_encoding :: "pystr option"
  res_chunks :: "pybytes option list"

datatype http_outcome = Unavailable | Response http_response

text \<open>\<open>min(10, timeout)\<close>\<close>

fun min_ten :: "pyfloat \<Rightarrow> pyfloat" where
  "min_ten (Fin r) = (if r < 10 then Fin r else Fin 10)"
| "min_ten NegInf = NegInf"
| "min_ten x = Fin 10"

definition endpoint :: "bootstrap_configuration \<Rightarrow> dispatch_configuration \<Rightarrow> pystr" where
  "endpoint config dispatch =
     b_base_url config @ str ''/v1/agent/calls/'' @ d_call_id dispatch @ str ''/bootstrap''"

definition authorize_request ::
  "bootstrap_configuration \<Rightarrow> dispatch_configuration \<Rightarrow> pystr \<Rightarrow> sip_leg \<Rightarrow> http_request"
where
  "authorize_request config dispatch room_name leg =
     \<lparr>req_url = endpoint config dispatch,
      req_body = JObj [(str ''roomName'', JStr room_name),
        (str ''sipParticipantIdentity'', JStr (leg_identity leg)),
        (str ''sipParticipantSid'', JStr (leg_sid leg)),
        (str ''routeToken'', JStr (leg_route_token leg))],
      req_headers = [(str ''Authorization'', str ''Bearer '' @ d_bootstrap_token dispatch),
        (str ''Accept'', str ''application/json''), (str ''Accept-Encoding'', str ''identity'')],
      req_total_timeout = min_ten (b_timeout_seconds config),
      req_allow_redirects = False, req_trust_env = False, req_auto_decompress = False\<rparr>"

text \<open>The loop over the chunks; its size check comes after each chunk.\<close>

fun read_body :: "pybytes \<Rightarrow> pybytes option list \<Rightarrow> pybytes result" where
  "read_body raw [] = Inr raw"
| "read_body raw (None # rest) = invalid ''bootstrap service unavailable''"
| "read_body raw (Some chunk # rest) =
     (if MAX_RESPONSE_BYTES < length (raw @ chunk) then invalid ''bootstrap response too large''
      else read_body (raw @ chunk) rest)"

text \<open>The requests sent, in order, and the result.\<close>

definition authorize ::
  "python \<Rightarrow> (http_request \<Rightarrow> http_outcome) \<Rightarrow> bootstrap_configuration \<Rightarrow> dispatch_configuration
     \<Rightarrow> pystr \<Rightarrow> sip_leg \<Rightarrow> http_request list \<times> call_configuration result"
where
  "authorize py post config dispatch room_name leg =
     (let request = authorize_request config dispatch room_name leg in
      ([request],
       case post request of
         Unavailable \<Rightarrow> invalid ''bootstrap service unavailable''
       | Response response \<Rightarrow>
           if res_status response \<noteq> 200
              \<or> res_content_type response \<noteq> str ''application/json''
              \<or> (case res_content_encoding response of
                   None \<Rightarrow> False | Some encoding \<Rightarrow> encoding \<noteq> str ''identity'')
           then invalid ''bootstrap authorization failed''
           else bind_res (read_body [] (res_chunks response)) (\<lambda>raw.
             authorized_profile py raw dispatch room_name leg)))"

section \<open>Facts about the response\<close>

lemma authorized_profile_InrD:
  assumes "authorized_profile py raw d room leg = Inr c"
  obtains data snapshot where
    "strict_json py (RawBytes raw) MAX_RESPONSE_BYTES = Inr data" "keys data = response_keys"
    "get data ''callSessionId'' = Some (JStr (d_call_id d))" "get data ''roomName'' = Some (JStr room)"
    "get data ''sipParticipantIdentity'' = Some (JStr (leg_identity leg))"
    "get data ''sipParticipantSid'' = Some (JStr (leg_sid leg))"
    "get data ''profileSnapshot'' = Some snapshot"
    "parse_call py (json_dumps default_dump snapshot) room = Inr c"
    "c_pbx_instance_id c = d_pbx_instance_id d" "c_context c = d_context d"
  using assms
  by (auto simp: authorized_profile_def bind_res_eq_Inr index_iff split: if_splits)

lemma room_of_inject [simp]: "room_of a = room_of b \<longleftrightarrow> a = b"
  by (simp add: room_of_def)

lemma authorized_profile_only: "only_invalid (authorized_profile py raw d room leg)"
  unfolding authorized_profile_def
  by (intro only_intros index_only only_invalid_simps parse_call_only) (auto simp: response_keys_def)

lemma read_body_only: "only_invalid (read_body raw chunks)"
  by (induction raw chunks rule: read_body.induct) simp_all

lemma new_leg_only: "only_invalid (new_leg i s t)"
  unfolding new_leg_def by (intro only_intros only_invalid_simps)

section \<open>Facts about the body\<close>

text \<open>A body is returned whole, exactly when it is complete and within the limit.\<close>

lemma read_body_Inr:
  "read_body raw chunks = Inr b \<longleftrightarrow>
     None \<notin> set chunks \<and> b = raw @ concat (map the chunks)
     \<and> (chunks = [] \<or> length b \<le> MAX_RESPONSE_BYTES)"
proof (induction raw chunks rule: read_body.induct)
  case (3 raw chunk rest)
  then show ?case by (cases rest) auto
qed auto

text \<open>What has been read when the next chunk arrives is within the limit.\<close>

lemma read_body_bounded:
  "read_body raw chunks = Inr b \<Longrightarrow> length raw \<le> MAX_RESPONSE_BYTES \<Longrightarrow> length b \<le> MAX_RESPONSE_BYTES"
  by (auto simp: read_body_Inr)

lemma read_body_over:
  "None \<notin> set chunks \<Longrightarrow> MAX_RESPONSE_BYTES < length (raw @ concat (map the chunks)) \<Longrightarrow> chunks \<noteq> [] \<Longrightarrow>
     read_body raw chunks = invalid ''bootstrap response too large''"
proof (induction raw chunks rule: read_body.induct)
  case (3 raw chunk rest)
  then show ?case by (cases rest) auto
qed auto

section \<open>The endpoint\<close>

definition endpoint_path :: "dispatch_configuration \<Rightarrow> pystr" where
  "endpoint_path d = str ''/v1/agent/calls/'' @ d_call_id d @ str ''/bootstrap''"

lemma uuid_no_blanks: "uuid_grammar s \<Longrightarrow> no_blanks s"
  by (fastforce simp: no_blanks_def list_all_iff is_lower_hex_def is_digit_def py_isspace_def
      dest: uuid_grammar_chars)

lemma endpoint_split:
  assumes "valid_origin py (b_base_url b)" "uuid_grammar (d_call_id d)"
  obtains netloc where
    "urlsplit py (endpoint b d)
       = Some \<lparr>url_scheme = str ''https'', url_netloc = netloc, url_path = endpoint_path d,
               url_query = [], url_fragment = []\<rparr>"
    "urlsplit py (b_base_url b)
       = Some \<lparr>url_scheme = str ''https'', url_netloc = netloc, url_path = [],
               url_query = [], url_fragment = []\<rparr>"
    "64 \<notin> set netloc" "netloc \<noteq> []"
proof -
  obtain scheme netloc where v: "is_https scheme" "set netloc \<inter> {47, 63, 35, 64} = {}" "netloc \<noteq> []"
    "netloc_ok py netloc" "no_blanks (b_base_url b)" "b_base_url b = https_url scheme netloc []"
    using valid_origin_shape [OF assms(1)] by blast
  have e: "endpoint b d = https_url scheme netloc (endpoint_path d)"
    by (simp add: endpoint_def v(6) https_url_def endpoint_path_def)
  have ids: "c = 45 \<or> is_lower_hex c" if "c \<in> set (d_call_id d)" for c
    using uuid_grammar_chars [OF assms(2) that] .
  have "no_blanks (b_base_url b @ endpoint_path d)"
    using v(5) uuid_no_blanks [OF assms(2)]
    by (simp add: no_blanks_def endpoint_path_def str_def py_isspace_def)
  then have nb: "no_blanks (https_url scheme netloc (endpoint_path d))"
    by (simp add: v(6) https_url_def)
  have q: "63 \<notin> set (endpoint_path d)" "35 \<notin> set (endpoint_path d)"
    using ids [of 63] ids [of 35] by (auto simp: endpoint_path_def str_def is_lower_hex_def is_digit_def)
  have h: "hd (endpoint_path d) = 47" by (simp add: endpoint_path_def str_def)
  show thesis
  proof (rule that)
    show "urlsplit py (endpoint b d)
       = Some \<lparr>url_scheme = str ''https'', url_netloc = netloc, url_path = endpoint_path d,
               url_query = [], url_fragment = []\<rparr>"
      unfolding e using v h q nb by (intro urlsplit_https) auto
    show "urlsplit py (b_base_url b)
       = Some \<lparr>url_scheme = str ''https'', url_netloc = netloc, url_path = [],
               url_query = [], url_fragment = []\<rparr>"
      unfolding v(6) using v by (intro urlsplit_https) auto
  qed (use v in auto)
qed

lemma min_ten_between: "float_between 1 60 t \<Longrightarrow> float_between 1 10 (min_ten t)"
  by (cases t) auto

section \<open>The response a server prints\<close>

definition response_fields ::
  "dispatch_configuration \<Rightarrow> pystr \<Rightarrow> sip_leg \<Rightarrow> json \<Rightarrow> fields"
where
  "response_fields d room leg snapshot =
     [(str ''callSessionId'', JStr (d_call_id d)), (str ''roomName'', JStr room),
      (str ''sipParticipantIdentity'', JStr (leg_identity leg)),
      (str ''sipParticipantSid'', JStr (leg_sid leg)), (str ''profileSnapshot'', snapshot)]"

lemma response_fields_wf:
  assumes "uuid_grammar (d_call_id d)" "list_all is_scalar room" "list_all is_scalar (leg_identity leg)"
    "list_all is_scalar (leg_sid leg)" "wf_json snapshot"
  shows "wf_json (JObj (response_fields d room leg snapshot))"
  using assms by (simp add: response_fields_def str_scalar uuid_grammar_scalar)

text \<open>
  The response that echoes the request and carries a well-formed snapshot of the dispatch's
  scope: accepted unless the escaped snapshot is over the profile limit.
\<close>

definition server_response ::
  "dispatch_configuration \<Rightarrow> sip_leg \<Rightarrow> call_configuration \<Rightarrow> pybytes"
where
  "server_response d leg c =
     utf8_bytes (json_dumps compact_unicode
       (JObj (response_fields d (room_of (d_call_id d)) leg (JObj (call_fields c)))))"

definition binds :: "dispatch_configuration \<Rightarrow> call_configuration \<Rightarrow> bool" where
  "binds d c \<longleftrightarrow>
     c_call_id c = d_call_id d \<and> c_pbx_instance_id c = d_pbx_instance_id d \<and> c_context c = d_context d"

lemma authorized_profile_print:
  assumes c: "wf_call c" "scalar_text c" "binds d c"
    and leg: "list_all is_scalar (leg_identity leg)" "list_all is_scalar (leg_sid leg)"
    and size: "length (server_response d leg c) \<le> MAX_RESPONSE_BYTES" and rec: "2 \<le> rec_limit py"
  shows "authorized_profile py (server_response d leg c) d (room_of (d_call_id d)) leg
    = (if length (json_dumps default_dump (JObj (call_fields c))) \<le> MAX_PROFILE_BYTES then Inr c
       else invalid ''invalid JSON object'')"
proof -
  let ?r = "response_fields d (room_of (d_call_id d)) leg (JObj (call_fields c))"
  have id: "uuid_grammar (d_call_id d)" using c by (auto simp: wf_call_def binds_def)
  then have "list_all is_scalar (room_of (d_call_id d))"
    by (simp add: room_of_def str_scalar uuid_grammar_scalar)
  then have "wf_json (JObj ?r)"
    using id leg call_fields_wf [OF c(1,2)] by (intro response_fields_wf)
  moreover have "jdepth (JObj ?r) \<le> rec_limit py"
    using rec by (simp add: response_fields_def call_fields_def)
  ultimately have "strict_json py (RawBytes (server_response d leg c)) MAX_RESPONSE_BYTES = Inr ?r"
    using size unfolding server_response_def
    by (intro strict_json_unicode_bytes) (simp_all add: response_fields_def)
  moreover have "keys ?r = response_keys" by (simp add: keys_def response_fields_def response_keys_def)
  moreover have "parse_call py (json_dumps default_dump (JObj (call_fields c))) (room_of (d_call_id d))
    = (if length (json_dumps default_dump (JObj (call_fields c))) \<le> MAX_PROFILE_BYTES then Inr c
       else invalid ''invalid JSON object'')"
    using parse_call_print [OF c(1,2), of py] c(3) rec by (simp add: binds_def)
  ultimately show ?thesis
    using c(3) by (simp add: authorized_profile_def get_def index_def response_fields_def binds_def)
qed

text \<open>How many bytes that response has; the prompt is counted as it is printed.\<close>

definition rest_length :: "call_configuration \<Rightarrow> nat" where
  "rest_length c =
     length (c_call_id c) + length (c_pbx_instance_id c) + length (c_context c)
     + length (c_business_name c) + length (c_locale c) + length (c_did_e164 c)
     + length (c_tenant_id c) + length (c_tone c) + length (c_objective c)
     + length (c_opening_statement c) + length (c_transfer_statement c)
     + length (c_failed_transfer_statement c)"

lemma snapshot_bytes_length:
  "length (utf8_bytes (json_dumps compact_unicode (JObj (call_fields c))))
     \<le> length (utf8_bytes (quote False (c_prompt c))) + 6 * rest_length c + 1100"
proof -
  have str: "length (utf8_bytes (quote False (str k))) \<le> 6 * length k + 2" for k
    using utf8_quote_length [of "str k"] by simp
  have two: "show_int 2 = [50]" by (simp add: show_int_def show_nat.simps)
  note names = str [of "''schemaVersion''"] str [of "''callSessionId''"] str [of "''pbxInstanceId''"]
    str [of "''context''"] str [of "''businessName''"] str [of "''prompt''"] str [of "''locale''"]
    str [of "''didE164''"] str [of "''tone''"] str [of "''objective''"] str [of "''openingStatement''"]
    str [of "''transferStatement''"] str [of "''failedTransferStatement''"] str [of "''tenantId''"]
  note parts = utf8_quote_length [of "c_call_id c"] utf8_quote_length [of "c_pbx_instance_id c"]
    utf8_quote_length [of "c_context c"] utf8_quote_length [of "c_business_name c"]
    utf8_quote_length [of "c_locale c"] utf8_quote_length [of "c_did_e164 c"]
    utf8_quote_length [of "c_tenant_id c"] utf8_quote_length [of "c_tone c"]
    utf8_quote_length [of "c_objective c"] utf8_quote_length [of "c_opening_statement c"]
    utf8_quote_length [of "c_transfer_statement c"] utf8_quote_length [of "c_failed_transfer_statement c"]
  have seps: "utf8_bytes (str '','') = [44]" "utf8_bytes (str '':'') = [58]" by (simp_all add: str_def)
  show ?thesis
  proof (cases "c_tenant_id c = []")
    case True
    then show ?thesis
      using names parts by (simp add: call_fields_def compact_unicode_def two seps rest_length_def)
  next
    case False
    then show ?thesis
      using names parts by (simp add: call_fields_def compact_unicode_def two seps rest_length_def)
  qed
qed

lemma server_response_length:
  "length (server_response d leg c)
     \<le> length (utf8_bytes (quote False (c_prompt c))) + 6 * rest_length c
       + 12 * length (d_call_id d) + 6 * length (leg_identity leg) + 6 * length (leg_sid leg) + 1800"
proof -
  have str: "length (utf8_bytes (quote False (str k))) \<le> 6 * length k + 2" for k
    using utf8_quote_length [of "str k"] by simp
  note names = str [of "''callSessionId''"] str [of "''roomName''"] str [of "''sipParticipantIdentity''"]
    str [of "''sipParticipantSid''"] str [of "''profileSnapshot''"]
  note parts = utf8_quote_length [of "d_call_id d"] utf8_quote_length [of "leg_identity leg"]
    utf8_quote_length [of "leg_sid leg"] utf8_quote_length [of "room_of (d_call_id d)"]
  have seps: "utf8_bytes (str '','') = [44]" "utf8_bytes (str '':'') = [58]" by (simp_all add: str_def)
  have "length (room_of (d_call_id d)) = 5 + length (d_call_id d)" by (simp add: room_of_def)
  moreover have "length (server_response d leg c)
      \<le> length (utf8_bytes (quote False (d_call_id d)))
      + length (utf8_bytes (quote False (room_of (d_call_id d))))
      + length (utf8_bytes (quote False (leg_identity leg))) + length (utf8_bytes (quote False (leg_sid leg)))
      + length (utf8_bytes (json_dumps compact_unicode (JObj (call_fields c)))) + 510"
  proof -
    obtain snap where snap: "snap = JObj (call_fields c)" by simp
    have "ensure_ascii compact_unicode = False" "item_separator compact_unicode = str '',''"
      "key_separator compact_unicode = str '':''" by (simp_all add: compact_unicode_def)
    then show ?thesis
      using names unfolding server_response_def snap [symmetric]
      by (simp add: response_fields_def seps)
  qed
  ultimately show ?thesis using parts snapshot_bytes_length [of c] by linarith
qed

section \<open>Properties\<close>

definition sample_leg :: sip_leg where
  "sample_leg =
     \<lparr>leg_identity = str ''sip-caller'', leg_sid = str ''PA_sip'', leg_route_token = replicate 43 66\<rparr>"

lemma sample_leg_wf: "wf_leg sample_leg"
  by (simp add: wf_leg_def sample_leg_def leg_text_ok_def grammar_simps)

lemma sample_binds: "binds sample_dispatch sample_call"
  by (simp add: binds_def sample_dispatch_def sample_call_def)

text \<open>C1. A profile is authorized only for this call, this room, this SIP leg and this routing
  scope: an accepted response repeats the dispatch's call id, the room and the leg's identity
  and SID, and its snapshot is a valid profile of the same call whose PBX instance and context
  are the dispatch's.\<close>

theorem authorized_profile_bound:
  assumes "parse_dispatch py metadata room = Inr d" "authorized_profile py raw d room leg = Inr c"
  shows "wf_call c \<and> binds d c \<and> length raw \<le> MAX_RESPONSE_BYTES
    \<and> (\<exists>data. json_loads (strict_opts py) (rec_limit py) (RawBytes raw) = Inr (JObj data)
         \<and> get data ''callSessionId'' = Some (JStr (d_call_id d))
         \<and> get data ''roomName'' = Some (JStr room)
         \<and> get data ''sipParticipantIdentity'' = Some (JStr (leg_identity leg))
         \<and> get data ''sipParticipantSid'' = Some (JStr (leg_sid leg)))"
proof -
  from assms(2) obtain data snapshot where a:
    "strict_json py (RawBytes raw) MAX_RESPONSE_BYTES = Inr data"
    "get data ''callSessionId'' = Some (JStr (d_call_id d))" "get data ''roomName'' = Some (JStr room)"
    "get data ''sipParticipantIdentity'' = Some (JStr (leg_identity leg))"
    "get data ''sipParticipantSid'' = Some (JStr (leg_sid leg))"
    "parse_call py (json_dumps default_dump snapshot) room = Inr c"
    "c_pbx_instance_id c = d_pbx_instance_id d" "c_context c = d_context d"
    by (rule authorized_profile_InrD)
  from parse_call_InrD [OF a(6)] parse_dispatch_InrD [OF assms(1)] a(7,8)
  have "wf_call c" "binds d c" by (auto simp: binds_def)
  moreover have "length raw \<le> MAX_RESPONSE_BYTES"
    using strict_json_InrD(1) [OF a(1)] by (simp add: raw_length_def)
  ultimately show ?thesis using strict_json_InrD(2) [OF a(1)] a(2-5) by blast
qed

lemma sample_response_length: "length (server_response sample_dispatch sample_leg sample_call) \<le> MAX_RESPONSE_BYTES"
proof -
  have "length (d_call_id sample_dispatch) = 36" by (simp add: sample_dispatch_def dashed_def)
  moreover have "length (leg_identity sample_leg) = 10" "length (leg_sid sample_leg) = 6"
    by (simp_all add: sample_leg_def)
  moreover have "rest_length sample_call = 82" "length (c_prompt sample_call) = 13"
    by (simp_all add: rest_length_def sample_call_def dashed_def)
  moreover have "MAX_RESPONSE_BYTES = 69632" by (simp add: MAX_RESPONSE_BYTES_def MAX_PROFILE_BYTES_def)
  ultimately show ?thesis
    using server_response_length [of sample_dispatch sample_leg sample_call]
      utf8_quote_length [of "c_prompt sample_call"] by linarith
qed

lemma sample_authorized:
  "authorized_profile plain_python (server_response sample_dispatch sample_leg sample_call)
     sample_dispatch (room_of (d_call_id sample_dispatch)) sample_leg = Inr sample_call"
proof -
  have "list_all is_scalar (leg_identity sample_leg)" "list_all is_scalar (leg_sid sample_leg)"
    by (simp_all add: sample_leg_def str_scalar)
  from authorized_profile_print [OF sample_call_wf sample_binds this sample_response_length, of plain_python]
  show ?thesis using sample_call_length by (simp add: plain_python_def)
qed

theorem authorized_profile_bound_witness:
  "wf_call sample_call \<and> binds sample_dispatch sample_call"
proof -
  have "parse_dispatch plain_python (json_dumps default_dump (JObj (dispatch_fields sample_dispatch)))
      (room_of (d_call_id sample_dispatch)) = Inr sample_dispatch"
    using parse_dispatch_print [OF sample_dispatch_wf, of plain_python] by (simp add: plain_python_def)
  from authorized_profile_bound [OF this sample_authorized] show ?thesis by blast
qed

text \<open>C11. The request that carries the call credential goes to the configured origin and
  nowhere else: whatever environment was accepted, the URL of the request has the scheme and
  the authority of the configured base, no user information, query or fragment, and the path
  of this call's bootstrap; its total timeout is between one and ten seconds.\<close>

theorem request_stays_on_origin:
  assumes "bootstrap_from_env py env = Inr b" "parse_dispatch py metadata room = Inr d"
  shows "\<exists>netloc.
    urlsplit py (req_url (authorize_request b d room leg))
      = Some \<lparr>url_scheme = str ''https'', url_netloc = netloc, url_path = endpoint_path d,
              url_query = [], url_fragment = []\<rparr>
    \<and> urlsplit py (b_base_url b)
      = Some \<lparr>url_scheme = str ''https'', url_netloc = netloc, url_path = [],
              url_query = [], url_fragment = []\<rparr>
    \<and> netloc \<noteq> [] \<and> 64 \<notin> set netloc
    \<and> float_between 1 10 (req_total_timeout (authorize_request b d room leg))"
proof -
  have "uuid_grammar (d_call_id d)"
    using parse_dispatch_InrD [OF assms(2)] by (simp add: wf_dispatch_def)
  with bootstrap_from_env_InrD(1) [OF assms(1)] show ?thesis
    using min_ten_between [OF bootstrap_from_env_InrD(3) [OF assms(1)]]
    by (auto simp: authorize_request_def elim: endpoint_split)
qed

definition sample_env :: environ where
  "sample_env k =
     (if k = str ''OFFICEPULSE_API_BASE_URL'' then Some (str ''https://api.acme.test/'')
      else if k = str ''AIDA_ROUTE_TOKEN_ATTRIBUTE'' then Some (str ''sip.aidaRouteToken'') else None)"

lemma sample_bootstrap: "\<exists>b. bootstrap_from_env plain_python sample_env = Inr b"
proof -
  have base: "base_of_env sample_env = str ''https://api.acme.test''"
    by (simp add: base_of_env_def env_get_def sample_env_def str_def rstrip_by_def)
  have u: "urlsplit plain_python (str ''https://api.acme.test'')
    = Some \<lparr>url_scheme = str ''https'', url_netloc = str ''api.acme.test'', url_path = [],
            url_query = [], url_fragment = []\<rparr>"
    by (simp add: urlsplit_def str_def lstrip_by_def split_scheme_def is_scheme_char_def char_class_defs
        ascii_lower_def split_netloc_def is_ascii_def)
  have h: "url_hostname plain_python \<lparr>url_scheme = str ''https'', url_netloc = str ''api.acme.test'',
      url_path = [], url_query = [], url_fragment = []\<rparr> = Some (str ''api.acme.test'')"
    by (simp add: url_hostname_def url_hostinfo_def rpartition_at_def str_def py_lower_def is_ascii_def
        ascii_lower_def is_upper_def)
  have o: "valid_origin plain_python (str ''https://api.acme.test'')"
    by (simp add: valid_origin_def u is_origin_def h)
      (simp add: url_port_def url_hostinfo_def url_userinfo_def rpartition_at_def str_def py_isspace_def)
  have p: "\<not> is_placeholder plain_python (str ''api.acme.test'')"
    by (simp add: is_placeholder_def str_def py_lower_def is_ascii_def ascii_lower_def is_upper_def
        rstrip_by_def placeholder_names_def suffix_def Cons_eq_append_conv append_eq_Cons_conv)
  have a: "fullmatch is_name_char 1 128 (env_get sample_env (str ''AIDA_ROUTE_TOKEN_ATTRIBUTE'') [])"
    by (simp add: env_get_def sample_env_def fullmatch_def is_name_char_def char_class_defs str_def)
  have t: "float_of plain_python (env_get sample_env (str ''AIDA_BOOTSTRAP_TIMEOUT_SECONDS'') (str ''30''))
      = Some (Fin 30)"
    by (simp add: env_get_def sample_env_def plain_python_def str_def is_digit_def digits_value_def)
  show ?thesis
    using base u h o p a t by (simp add: bootstrap_from_env_def Let_def)
qed

lemma sample_dispatch_parsed:
  "parse_dispatch plain_python (json_dumps default_dump (JObj (dispatch_fields sample_dispatch)))
     (room_of (d_call_id sample_dispatch)) = Inr sample_dispatch"
  using parse_dispatch_print [OF sample_dispatch_wf, of plain_python] by (simp add: plain_python_def)

theorem request_stays_on_origin_witness:
  "\<exists>b netloc. bootstrap_from_env plain_python sample_env = Inr b
     \<and> urlsplit plain_python (req_url (authorize_request b sample_dispatch
           (room_of (d_call_id sample_dispatch)) sample_leg))
         = Some \<lparr>url_scheme = str ''https'', url_netloc = netloc,
                 url_path = endpoint_path sample_dispatch, url_query = [], url_fragment = []\<rparr>"
  using sample_bootstrap request_stays_on_origin [OF _ sample_dispatch_parsed] by meson

text \<open>C12. One attempt, fail closed: whatever the server does, exactly one request is sent, the
  only error is a refusal by the package, and a profile comes back only from a complete
  200 response of uncompressed JSON whose body is within the limit and authorizes it.\<close>

theorem authorize_fails_closed:
  "case authorize py post config d room leg of (requests, outcome) \<Rightarrow>
     requests = [authorize_request config d room leg]
     \<and> (case outcome of
          Inl e \<Rightarrow> is_invalid_configuration e
        | Inr c \<Rightarrow> \<exists>response body.
            post (authorize_request config d room leg) = Response response
            \<and> res_status response = 200 \<and> res_content_type response = str ''application/json''
            \<and> res_content_encoding response \<in> {None, Some (str ''identity'')}
            \<and> None \<notin> set (res_chunks response) \<and> body = concat (map the (res_chunks response))
            \<and> length body \<le> MAX_RESPONSE_BYTES \<and> authorized_profile py body d room leg = Inr c)"
proof -
  let ?r = "authorize_request config d room leg"
  have only: "only_invalid (snd (authorize py post config d room leg))"
    unfolding authorize_def Let_def
    by (cases "post ?r")
      (auto intro!: only_invalid_bind simp: read_body_only authorized_profile_only)
  have "\<exists>response body. post ?r = Response response
            \<and> res_status response = 200 \<and> res_content_type response = str ''application/json''
            \<and> res_content_encoding response \<in> {None, Some (str ''identity'')}
            \<and> None \<notin> set (res_chunks response) \<and> body = concat (map the (res_chunks response))
            \<and> length body \<le> MAX_RESPONSE_BYTES \<and> authorized_profile py body d room leg = Inr c"
    if "snd (authorize py post config d room leg) = Inr c" for c
    using that
    by (auto simp: authorize_def Let_def bind_res_eq_Inr read_body_Inr
        split: http_outcome.splits if_splits option.splits)
  with only show ?thesis
    by (auto simp: authorize_def Let_def only_invalid_def split: sum.splits)
qed

text \<open>C22. A response that echoes the request and carries a well-formed profile of the dispatch's
  scope is accepted with that profile, unless the snapshot's ASCII-escaped JSON text is over
  65,536 characters; then the job is refused, whatever its size on the wire was.\<close>

theorem response_accepted:
  assumes "wf_call c" "scalar_text c" "binds d c"
    and "list_all is_scalar (leg_identity leg)" "list_all is_scalar (leg_sid leg)"
    and "length (server_response d leg c) \<le> MAX_RESPONSE_BYTES" "2 \<le> rec_limit py"
  shows "authorized_profile py (server_response d leg c) d (room_of (d_call_id d)) leg
    = (if length (json_dumps default_dump (JObj (call_fields c))) \<le> MAX_PROFILE_BYTES then Inr c
       else invalid ''invalid JSON object'')"
  using authorized_profile_print [OF assms] .

theorem response_accepted_witness:
  "authorized_profile plain_python (server_response sample_dispatch sample_leg sample_call)
     sample_dispatch (room_of (d_call_id sample_dispatch)) sample_leg = Inr sample_call"
proof -
  have "list_all is_scalar (leg_identity sample_leg)" "list_all is_scalar (leg_sid sample_leg)"
    by (simp_all add: sample_leg_def str_scalar)
  from response_accepted [OF sample_call_wf sample_binds this sample_response_length, of plain_python]
  show ?thesis using sample_call_length by (simp add: plain_python_def)
qed

text \<open>The escaping is what makes some prompts within the contract unusable: a prompt of
  10,922 to 12,000 non-ASCII letters satisfies every field rule and its response is
  under 40 KB on the wire, yet the authorized response is refused as invalid JSON.\<close>

theorem long_prompt_refused:
  assumes "10922 \<le> n" "n \<le> 12000"
  shows "wf_call (sample_call\<lparr>c_prompt := replicate n 233\<rparr>)
    \<and> length (server_response sample_dispatch sample_leg (sample_call\<lparr>c_prompt := replicate n 233\<rparr>)) < 40000
    \<and> authorized_profile plain_python
        (server_response sample_dispatch sample_leg (sample_call\<lparr>c_prompt := replicate n 233\<rparr>))
        sample_dispatch (room_of (d_call_id sample_dispatch)) sample_leg
      = invalid ''invalid JSON object''"
proof -
  let ?c = "sample_call\<lparr>c_prompt := replicate n 233\<rparr>"
  have wf: "wf_call ?c" "scalar_text ?c"
    using sample_call_wf assms
    by (simp_all add: wf_call_def scalar_text_def text_field_def list_all_replicate py_isspace_def)
  have "utf8_bytes (replicate m 233) = concat (replicate m [195, 169])" for m
    by (simp add: utf8_bytes_def utf8_char_def map_replicate)
  moreover have "concat (map (escape_char False) (replicate m 233)) = replicate m 233" for m
    by (induction m) (simp_all add: escape_char_def)
  ultimately have "length (utf8_bytes (quote False (replicate n 233))) = 2 * n + 2"
    by (simp add: quote_def length_concat sum_list_replicate)
  moreover have "rest_length ?c = 82" by (simp add: rest_length_def sample_call_def dashed_def)
  moreover have "length (d_call_id sample_dispatch) = 36" by (simp add: sample_dispatch_def dashed_def)
  moreover have "length (leg_identity sample_leg) = 10" "length (leg_sid sample_leg) = 6"
    by (simp_all add: sample_leg_def)
  ultimately have size: "length (server_response sample_dispatch sample_leg ?c) < 40000"
    using server_response_length [of sample_dispatch sample_leg ?c] assms(2) by simp
  have "length (quote True (replicate n 233)) = 6 * n + 2"
    using quote_length_non_ascii [of "replicate n 233"] by (simp add: list_all_replicate)
  then have "MAX_PROFILE_BYTES < length (json_dumps default_dump (JObj (call_fields ?c)))"
    using assms(1) by (simp add: call_fields_def default_dump_def MAX_PROFILE_BYTES_def)
  moreover have "binds sample_dispatch ?c" using sample_binds by (simp add: binds_def)
  moreover have "length (server_response sample_dispatch sample_leg ?c) \<le> MAX_RESPONSE_BYTES"
    using size by (simp add: MAX_RESPONSE_BYTES_def MAX_PROFILE_BYTES_def)
  moreover have "list_all is_scalar (leg_identity sample_leg)" "list_all is_scalar (leg_sid sample_leg)"
    by (simp_all add: sample_leg_def str_scalar)
  moreover have "2 \<le> rec_limit plain_python" by (simp add: plain_python_def)
  ultimately show ?thesis
    using authorized_profile_print [OF wf] wf(1) size by auto
qed

theorem long_prompt_refused_witness:
  "authorized_profile plain_python
     (server_response sample_dispatch sample_leg (sample_call\<lparr>c_prompt := replicate 11000 233\<rparr>))
     sample_dispatch (room_of (d_call_id sample_dispatch)) sample_leg = invalid ''invalid JSON object''"
  using long_prompt_refused [of 11000] by simp

end
