(* ===== verification/Admission.thy ===== *)
theory Admission
  imports Bootstrap
begin

text \<open>
  admission.py: the observation of the actual SIP leg. The room is the SDK's; each event
  carries what the room's participant map holds at that moment. The state is the object's
  attributes and the calls it made (subscriptions and aborts), in order. The two coroutines
  are their loop passes: what one pass does before it returns, raises or awaits a change.
\<close>

section \<open>What the SDK shows\<close>

record publication =
  pub_sid :: pystr
  pub_audio :: bool
  pub_microphone :: bool
  pub_track :: bool

record participant =
  part_identity :: pystr
  part_sid :: pystr
  part_sip :: bool
  part_attributes :: "pystr \<Rightarrow> pystr option"
  part_publications :: "publication list"

text \<open>The values of \<open>room.remote_participants\<close>; the keys are the identities.\<close>

type_synonym room = "participant list"

definition sip_participants :: "room \<Rightarrow> participant list" where
  "sip_participants room = filter part_sip room"

section \<open>State\<close>

datatype admission_effect =
    Abort
  | Subscribe pystr
  | Unsubscribe pystr

record admission =
  adm_attribute :: pystr
  adm_leg :: "sip_leg option"
  adm_closed :: bool
  adm_changed :: bool
  adm_authorized :: bool
  adm_requested :: "pystr list"
  adm_connected :: bool
  adm_effects :: "admission_effect list"

definition new_admission :: "pystr \<Rightarrow> admission" where
  "new_admission attribute =
     \<lparr>adm_attribute = attribute, adm_leg = None, adm_closed = False, adm_changed = False,
      adm_authorized = False, adm_requested = [], adm_connected = False, adm_effects = []\<rparr>"

definition perform :: "admission_effect \<Rightarrow> admission \<Rightarrow> admission" where
  "perform e s = s\<lparr>adm_effects := adm_effects s @ [e]\<rparr>"

section \<open>Checks\<close>

definition validate :: "room \<Rightarrow> admission \<Rightarrow> unit result" where
  "validate room s =
     (case (adm_leg s, sip_participants room) of
        (Some leg, [p]) \<Rightarrow>
          if adm_closed s then invalid ''SIP participant changed''
          else if part_identity p \<noteq> leg_identity leg \<or> part_sid p \<noteq> leg_sid leg
               \<or> part_attributes p (adm_attribute s) \<noteq> Some (leg_route_token leg)
          then invalid ''SIP participant changed'' else Inr ()
      | _ \<Rightarrow> invalid ''SIP participant changed'')"

definition bound_audio :: "publication \<Rightarrow> participant \<Rightarrow> admission \<Rightarrow> bool" where
  "bound_audio pub p s \<longleftrightarrow>
     (case adm_leg s of
        None \<Rightarrow> False
      | Some leg \<Rightarrow> part_identity p = leg_identity leg \<and> part_sid p = leg_sid leg
          \<and> pub_audio pub \<and> pub_microphone pub)"

section \<open>Room events\<close>

definition on_changed :: "room \<Rightarrow> admission \<Rightarrow> admission" where
  "on_changed room s =
     (let s = s\<lparr>adm_changed := True\<rparr> in
      if adm_leg s = None then s
      else (case validate room s of Inl e \<Rightarrow> perform Abort s | Inr _ \<Rightarrow> s))"

definition on_disconnected :: "pystr \<Rightarrow> room \<Rightarrow> admission \<Rightarrow> admission" where
  "on_disconnected sid room s =
     on_changed room
       (case adm_leg s of
          None \<Rightarrow> s | Some leg \<Rightarrow> if sid = leg_sid leg then perform Abort s else s)"

definition on_room_disconnected :: "admission \<Rightarrow> admission" where
  "on_room_disconnected s = perform Abort s"

text \<open>A \<open>set_subscribed\<close> that raises is \<open>fails\<close>; the publication stays requested.\<close>

definition track_published ::
  "(pystr \<Rightarrow> bool) \<Rightarrow> publication \<Rightarrow> participant \<Rightarrow> room \<Rightarrow> admission \<Rightarrow> admission"
where
  "track_published fails pub p room s =
     (if adm_closed s \<or> \<not> adm_authorized s then s
      else
        (case validate room s of
           Inl e \<Rightarrow> perform Abort s
         | Inr _ \<Rightarrow>
             if bound_audio pub p s \<and> pub_sid pub \<notin> set (adm_requested s)
             then
               (let s = perform (Subscribe (pub_sid pub))
                          (s\<lparr>adm_requested := adm_requested s @ [pub_sid pub]\<rparr>)
                in if fails (pub_sid pub) then perform Abort s else s)
             else s)\<lparr>adm_changed := True\<rparr>)"

definition track_subscribed :: "publication \<Rightarrow> participant \<Rightarrow> admission \<Rightarrow> admission" where
  "track_subscribed pub p s = (if bound_audio pub p s then s\<lparr>adm_changed := True\<rparr> else s)"

definition track_subscription_failed :: "pystr \<Rightarrow> pystr \<Rightarrow> admission \<Rightarrow> admission" where
  "track_subscription_failed sid track_sid s =
     (case adm_leg s of
        None \<Rightarrow> s
      | Some leg \<Rightarrow>
          if \<not> adm_closed s \<and> sid = leg_sid leg \<and> track_sid \<in> set (adm_requested s)
          then perform Abort s else s)"

definition track_unsubscribed :: "publication \<Rightarrow> participant \<Rightarrow> admission \<Rightarrow> admission" where
  "track_unsubscribed pub p s =
     (if \<not> adm_closed s \<and> adm_connected s \<and> bound_audio pub p s then perform Abort s else s)"

section \<open>The two coroutines\<close>

datatype 'a pass = Waiting | Returned 'a | Raised exn

definition wait_pass :: "room \<Rightarrow> admission \<Rightarrow> admission \<times> sip_leg pass" where
  "wait_pass room s =
     (let s = s\<lparr>adm_changed := False\<rparr> in
      case sip_participants room of
        [] \<Rightarrow> (s, Waiting)
      | [p] \<Rightarrow>
          (case part_attributes p (adm_attribute s) of
             None \<Rightarrow> (s, Waiting)
           | Some token \<Rightarrow>
               (case new_leg (part_identity p) (part_sid p) token of
                  Inl e \<Rightarrow> (s, Raised e)
                | Inr leg \<Rightarrow> (s\<lparr>adm_leg := Some leg\<rparr>, Returned leg)))
      | _ \<Rightarrow> (s, Raised (InvalidConfiguration ''ambiguous SIP participants'')))"

text \<open>The loop over the publications; \<open>True\<close> when it returned from the coroutine.\<close>

fun subscribe_loop ::
  "(pystr \<Rightarrow> bool) \<Rightarrow> publication list \<Rightarrow> participant \<Rightarrow> room \<Rightarrow> admission \<Rightarrow> admission \<times> bool"
where
  "subscribe_loop fails [] p room s = (s, False)"
| "subscribe_loop fails (pub # pubs) p room s =
     (let s = track_published fails pub p room s in
      if bound_audio pub p s \<and> pub_track pub then (s\<lparr>adm_connected := True\<rparr>, True)
      else subscribe_loop fails pubs p room s)"

definition find_participant :: "pystr \<Rightarrow> room \<Rightarrow> participant option" where
  "find_participant identity room = find (\<lambda>p. part_identity p = identity) room"

definition subscribe_pass ::
  "(pystr \<Rightarrow> bool) \<Rightarrow> room \<Rightarrow> admission \<Rightarrow> admission \<times> unit pass"
where
  "subscribe_pass fails room s =
     (if adm_closed s then (s, Raised (InvalidConfiguration ''SIP audio unavailable''))
      else
        (let s = s\<lparr>adm_changed := False\<rparr> in
         case validate room s of
           Inl e \<Rightarrow> (s, Raised e)
         | Inr _ \<Rightarrow>
             (case Option.bind (adm_leg s) (\<lambda>leg. find_participant (leg_identity leg) room) of
                None \<Rightarrow> (s, Raised KeyError)
              | Some p \<Rightarrow>
                  (case subscribe_loop fails (part_publications p) p room s of
                     (s, True) \<Rightarrow> (s, Returned ())
                   | (s, False) \<Rightarrow> (s\<lparr>adm_changed := False\<rparr>, Waiting)))))"

text \<open>\<open>subscribe_audio\<close> up to its first await.\<close>

definition subscribe_start ::
  "(pystr \<Rightarrow> bool) \<Rightarrow> room \<Rightarrow> admission \<Rightarrow> admission \<times> unit pass"
where
  "subscribe_start fails room s =
     (case validate room s of
        Inl e \<Rightarrow> (s, Raised e)
      | Inr _ \<Rightarrow> subscribe_pass fails room (s\<lparr>adm_authorized := True\<rparr>))"

definition close_admission :: "admission \<Rightarrow> admission" where
  "close_admission s =
     (if adm_closed s then s
      else s\<lparr>adm_closed := True, adm_effects := adm_effects s @ map Unsubscribe (adm_requested s),
             adm_changed := True\<rparr>)"

section \<open>The machine\<close>

text \<open>
  The room's handlers run until \<open>close\<close> removes them; the worker waits for the leg once
  and subscribes after it.
\<close>

datatype admission_event =
    WaitPass room
  | SubscribeStart "pystr \<Rightarrow> bool" room
  | SubscribePass "pystr \<Rightarrow> bool" room
  | Changed room
  | ParticipantDisconnected pystr room
  | RoomDisconnected
  | TrackPublished "pystr \<Rightarrow> bool" publication participant room
  | TrackSubscribed publication participant
  | TrackSubscriptionFailed pystr pystr
  | TrackUnsubscribed publication participant
  | CloseAdmission

fun room_handler :: "admission \<Rightarrow> admission_event \<Rightarrow> admission" where
  "room_handler s (Changed room) = on_changed room s"
| "room_handler s (ParticipantDisconnected sid room) = on_disconnected sid room s"
| "room_handler s RoomDisconnected = on_room_disconnected s"
| "room_handler s (TrackPublished fails pub p room) = track_published fails pub p room s"
| "room_handler s (TrackSubscribed pub p) = track_subscribed pub p s"
| "room_handler s (TrackSubscriptionFailed sid track_sid) = track_subscription_failed sid track_sid s"
| "room_handler s (TrackUnsubscribed pub p) = track_unsubscribed pub p s"
| "room_handler s e = s"

fun admission_step :: "admission \<Rightarrow> admission_event \<Rightarrow> admission" where
  "admission_step s (WaitPass room) = (if adm_leg s = None then fst (wait_pass room s) else s)"
| "admission_step s (SubscribeStart fails room) = fst (subscribe_start fails room s)"
| "admission_step s (SubscribePass fails room) =
     (if adm_authorized s then fst (subscribe_pass fails room s) else s)"
| "admission_step s CloseAdmission = close_admission s"
| "admission_step s e = (if adm_closed s then s else room_handler s e)"

section \<open>Facts\<close>

text \<open>Exactly one SIP participant, and it is the leg.\<close>

definition leg_present :: "pystr \<Rightarrow> sip_leg \<Rightarrow> room \<Rightarrow> bool" where
  "leg_present attribute leg room \<longleftrightarrow>
     (\<exists>p. sip_participants room = [p] \<and> part_identity p = leg_identity leg \<and> part_sid p = leg_sid leg
        \<and> part_attributes p attribute = Some (leg_route_token leg))"

lemma validate_iff:
  "validate room s = Inr () \<longleftrightarrow>
     \<not> adm_closed s \<and> (\<exists>leg. adm_leg s = Some leg \<and> leg_present (adm_attribute s) leg room)"
  by (auto simp: validate_def leg_present_def split: option.split list.split)

lemma validate_only: "only_invalid (validate room s)"
  by (auto simp: validate_def split: option.split list.split)

lemma validate_fields [simp]:
  "validate room (s\<lparr>adm_changed := b\<rparr>) = validate room s"
  "validate room (s\<lparr>adm_authorized := b\<rparr>) = validate room s"
  by (auto simp: validate_def split: option.split list.split)

lemma wait_pass_returned:
  "snd (wait_pass room s) = Returned leg \<longleftrightarrow> wf_leg leg \<and> leg_present (adm_attribute s) leg room"
proof -
  have "sip_participants room = [p] \<Longrightarrow> part_attributes p (adm_attribute s) = Some t \<Longrightarrow>
      snd (wait_pass room s) = Returned leg \<longleftrightarrow>
        new_leg (part_identity p) (part_sid p) t = Inr leg" for p t
    by (auto simp: wait_pass_def Let_def split: sum.splits)
  then show ?thesis
    by (cases "sip_participants room" rule: remdups_adj.cases)
      (auto simp: wait_pass_def leg_present_def new_leg_iff Let_def split: option.splits sum.splits)
qed

text \<open>
  What every history keeps: a bound leg is well formed; only subscriptions recorded as
  requested were made, each once, after the authorization; a close undid each of them.
\<close>

definition subscribes :: "admission_effect list \<Rightarrow> pystr list" where
  "subscribes es = List.map_filter (\<lambda>e. case e of Subscribe t \<Rightarrow> Some t | _ \<Rightarrow> None) es"

definition unsubscribes :: "admission_effect list \<Rightarrow> pystr list" where
  "unsubscribes es = List.map_filter (\<lambda>e. case e of Unsubscribe t \<Rightarrow> Some t | _ \<Rightarrow> None) es"

lemma subscribes_simps [simp]:
  "subscribes [] = []" "subscribes (es @ fs) = subscribes es @ subscribes fs"
  "subscribes (Abort # es) = subscribes es" "subscribes (Subscribe t # es) = t # subscribes es"
  "subscribes (Unsubscribe t # es) = subscribes es"
  "unsubscribes [] = []" "unsubscribes (es @ fs) = unsubscribes es @ unsubscribes fs"
  "unsubscribes (Abort # es) = unsubscribes es" "unsubscribes (Subscribe t # es) = unsubscribes es"
  "unsubscribes (Unsubscribe t # es) = t # unsubscribes es"
  by (simp_all add: subscribes_def unsubscribes_def List.map_filter_def)

lemma subscribes_map [simp]: "subscribes (map Unsubscribe ts) = []" "unsubscribes (map Unsubscribe ts) = ts"
  by (induction ts) (simp_all add: subscribes_def unsubscribes_def List.map_filter_def)

definition admission_inv :: "admission \<Rightarrow> bool" where
  "admission_inv s \<longleftrightarrow>
     (\<forall>leg. adm_leg s = Some leg \<longrightarrow> wf_leg leg)
     \<and> subscribes (adm_effects s) = adm_requested s \<and> distinct (adm_requested s)
     \<and> (adm_requested s \<noteq> [] \<longrightarrow> adm_authorized s)
     \<and> (adm_authorized s \<longrightarrow> adm_leg s \<noteq> None)
     \<and> unsubscribes (adm_effects s) = (if adm_closed s then adm_requested s else [])"

lemma new_admission_inv: "admission_inv (new_admission attribute)"
  by (simp add: admission_inv_def new_admission_def)

lemma perform_inv: "admission_inv (perform Abort s) = admission_inv s"
  by (simp add: admission_inv_def perform_def)

lemma changed_inv: "admission_inv (s\<lparr>adm_changed := b\<rparr>) = admission_inv s"
  by (simp add: admission_inv_def)

lemma connected_inv: "admission_inv (s\<lparr>adm_connected := b\<rparr>) = admission_inv s"
  by (simp add: admission_inv_def)

lemma published_inv: "admission_inv s \<Longrightarrow> admission_inv (track_published fails pub p room s)"
  by (auto simp: track_published_def admission_inv_def perform_def Let_def split: sum.split)

lemma published_frame [simp]:
  "adm_leg (track_published fails pub p room s) = adm_leg s"
  "adm_closed (track_published fails pub p room s) = adm_closed s"
  "adm_authorized (track_published fails pub p room s) = adm_authorized s"
  "adm_attribute (track_published fails pub p room s) = adm_attribute s"
  by (auto simp: track_published_def perform_def Let_def split: sum.split)

lemma loop_inv: "admission_inv s \<Longrightarrow> admission_inv (fst (subscribe_loop fails pubs p room s))"
  by (induction fails pubs p room s rule: subscribe_loop.induct)
    (auto simp: Let_def published_inv connected_inv)

lemma pass_inv:
  assumes "admission_inv s"
  shows "admission_inv (fst (subscribe_pass fails room s))"
proof -
  have l: "subscribe_loop fails pubs p room (s\<lparr>adm_changed := False\<rparr>) = (t, b) \<Longrightarrow> admission_inv t"
    for pubs p t b
    using loop_inv [of "s\<lparr>adm_changed := False\<rparr>" fails pubs p room] assms by (simp add: changed_inv)
  show ?thesis
    using assms
    by (auto simp: subscribe_pass_def Let_def changed_inv split: sum.split option.split prod.split bool.split
        dest: l)
qed

lemma start_inv: "admission_inv s \<Longrightarrow> admission_inv (fst (subscribe_start fails room s))"
proof -
  assume s: "admission_inv s"
  have "admission_inv (s\<lparr>adm_authorized := True\<rparr>)" if "validate room s = Inr ()"
    using s that by (auto simp: admission_inv_def validate_iff)
  then show ?thesis
    using s by (auto simp: subscribe_start_def pass_inv split: sum.split)
qed

lemma wait_inv: "admission_inv s \<Longrightarrow> admission_inv (fst (wait_pass room s))"
  by (auto simp: wait_pass_def Let_def changed_inv new_leg_iff admission_inv_def
      split: list.split option.split sum.split)

lemma close_inv: "admission_inv s \<Longrightarrow> admission_inv (close_admission s)"
  by (auto simp: admission_inv_def close_admission_def)

lemma room_handler_inv: "admission_inv s \<Longrightarrow> admission_inv (room_handler s e)"
  by (cases e)
    (auto simp: on_changed_def on_disconnected_def on_room_disconnected_def track_subscribed_def
      track_subscription_failed_def track_unsubscribed_def perform_inv changed_inv published_inv Let_def
      split: sum.split option.split)

lemma admission_step_inv: "admission_inv s \<Longrightarrow> admission_inv (admission_step s e)"
  using room_handler_inv [of s e]
  by (cases e) (auto simp: wait_inv start_inv pass_inv close_inv)

interpretation sip: event_machine admission_step admission_inv
  by unfold_locales (rule admission_step_inv)

section \<open>Properties\<close>

text \<open>A leg is admitted exactly when the room has one SIP participant, that participant
  carries the configured attribute, and its identity, SID and token are well formed; the
  admitted leg is that participant.\<close>

theorem leg_admitted:
  "snd (wait_pass room s) = Returned leg \<longleftrightarrow> wf_leg leg \<and> leg_present (adm_attribute s) leg room"
  by (rule wait_pass_returned)

text \<open>While a leg is bound, every change the room reports is checked against it: the call is
  aborted exactly when the room no longer has that one SIP participant with the same
  identity, SID and token.\<close>

theorem change_aborts:
  assumes "adm_leg s = Some leg" "\<not> adm_closed s"
  shows "adm_effects (admission_step s (Changed room))
    = adm_effects s @ (if leg_present (adm_attribute s) leg room then [] else [Abort])"
proof (cases "validate room s")
  case (Inl e)
  then have "\<not> leg_present (adm_attribute s) leg room"
    using assms validate_iff [of room s] by auto
  with Inl assms show ?thesis by (simp add: on_changed_def perform_def Let_def)
next
  case (Inr u)
  then have "leg_present (adm_attribute s) leg room"
    using assms validate_iff [of room s] by auto
  with Inr assms show ?thesis by (simp add: on_changed_def perform_def Let_def)
qed

theorem change_aborts_witness:
  "adm_effects (admission_step ((new_admission [])\<lparr>adm_leg := Some sample_leg\<rparr>) (Changed [])) = [Abort]"
  using change_aborts [of "(new_admission [])\<lparr>adm_leg := Some sample_leg\<rparr>" sample_leg "[]"]
  by (simp add: new_admission_def leg_present_def sip_participants_def)

text \<open>A track is subscribed only when audio has been authorized, the room still has exactly
  the bound leg, and the track is that leg's microphone, not requested before.\<close>

theorem subscription_guard:
  "subscribes (adm_effects (track_published fails pub p room s))
    = subscribes (adm_effects s)
      @ (if \<not> adm_closed s \<and> adm_authorized s \<and> validate room s = Inr () \<and> bound_audio pub p s
            \<and> pub_sid pub \<notin> set (adm_requested s) then [pub_sid pub] else [])"
  by (auto simp: track_published_def perform_def Let_def split: sum.split)

text \<open>C10. The ledger of subscriptions over any history: each track at most once, none before a
  well-formed leg was bound and authorized, and after \<open>close\<close> each is undone once.\<close>

theorem subscription_ledger:
  "case run admission_step (new_admission attribute) es of s \<Rightarrow>
     distinct (subscribes (adm_effects s))
     \<and> (subscribes (adm_effects s) = [] \<or> adm_authorized s \<and> (\<exists>leg. adm_leg s = Some leg \<and> wf_leg leg))
     \<and> unsubscribes (adm_effects s) = (if adm_closed s then subscribes (adm_effects s) else [])"
  using sip.run_inv [OF new_admission_inv, of attribute es]
  by (auto simp: admission_inv_def)

end
