(* ===== verification/Bounded_Queue.thy ===== *)
theory Bounded_Queue
  imports Main
begin

text \<open>
  The contract of \<open>asyncio.Queue\<close> that transcripts.py and transcript_history.py rely on
  (\<open>put_nowait\<close> on a queue with a maximum size, and \<open>get\<close>), what follows from it for
  any sequence of puts and gets, and the queue itself as a list.
\<close>

datatype 'a queue_event = Put 'a | Get

locale bounded_queue =
  fixes put :: "'q \<Rightarrow> 'a \<Rightarrow> 'q option"
    and get :: "'q \<Rightarrow> ('a \<times> 'q) option"
    and items :: "'q \<Rightarrow> 'a list"
    and capacity :: nat
  assumes put_full: "length (items q) = capacity \<Longrightarrow> put q x = None"
    and put_room: "length (items q) < capacity \<Longrightarrow> \<exists>q'. put q x = Some q' \<and> items q' = items q @ [x]"
    and get_empty: "items q = [] \<Longrightarrow> get q = None"
    and get_first: "items q = x # xs \<Longrightarrow> \<exists>q'. get q = Some (x, q') \<and> items q' = xs"
begin

text \<open>A run: the queue, what was accepted and what was taken, oldest first.\<close>

fun queue_step :: "'q \<times> 'a list \<times> 'a list \<Rightarrow> 'a queue_event \<Rightarrow> 'q \<times> 'a list \<times> 'a list" where
  "queue_step (q, accepted, taken) (Put x) =
     (case put q x of None \<Rightarrow> (q, accepted, taken) | Some q' \<Rightarrow> (q', accepted @ [x], taken))"
| "queue_step (q, accepted, taken) Get =
     (case get q of None \<Rightarrow> (q, accepted, taken) | Some (x, q') \<Rightarrow> (q', accepted, taken @ [x]))"

definition queue_inv :: "'q \<times> 'a list \<times> 'a list \<Rightarrow> bool" where
  "queue_inv r = (case r of (q, accepted, taken) \<Rightarrow> accepted = taken @ items q \<and> length (items q) \<le> capacity)"

lemma put_items: "length (items q) \<le> capacity \<Longrightarrow> put q x = Some q' \<Longrightarrow> items q' = items q @ [x] \<and> length (items q) < capacity"
  using put_full [of q x] put_room [of q x] by (cases "length (items q) = capacity") auto

lemma put_refused: "length (items q) \<le> capacity \<Longrightarrow> put q x = None \<longleftrightarrow> length (items q) = capacity"
  using put_full [of q x] put_room [of q x] by (cases "length (items q) = capacity") auto

lemma get_items: "get q = Some (x, q') \<Longrightarrow> items q = x # items q'"
  using get_empty [of q] get_first [of q] by (cases "items q") fastforce+

lemma step_queue_inv: "queue_inv r \<Longrightarrow> queue_inv (queue_step r e)"
proof (induction r e rule: queue_step.induct)
  case (1 q accepted taken x)
  then show ?case using put_items [of q x] by (fastforce simp: queue_inv_def split: option.split)
next
  case (2 q accepted taken)
  then show ?case using get_items [of q] by (auto simp: queue_inv_def split: option.split)
qed

text \<open>First in, first out: what was taken is the beginning of what was accepted.\<close>

lemma run_fifo:
  assumes "queue_inv r"
  shows "queue_inv (foldl queue_step r es)"
  using assms by (induction es arbitrary: r) (simp_all add: step_queue_inv)

lemma run_taken_accepted:
  assumes "items q = []" "foldl queue_step (q, [], []) es = (q', accepted, taken)"
  shows "\<exists>rest. accepted = taken @ rest \<and> length rest \<le> capacity"
proof -
  have "queue_inv (q', accepted, taken)"
    using run_fifo [of "(q, [], [])" es] assms by (simp add: queue_inv_def)
  then show ?thesis by (auto simp: queue_inv_def)
qed

end

section \<open>The queue\<close>

text \<open>\<open>asyncio.Queue(maxsize=n)\<close> for a positive \<open>n\<close>; no size is unbounded.\<close>

definition put_nowait :: "nat \<Rightarrow> 'a list \<Rightarrow> 'a \<Rightarrow> 'a list option" where
  "put_nowait n q x = (if 0 < n \<and> n \<le> length q then None else Some (q @ [x]))"

definition get_nowait :: "'a list \<Rightarrow> ('a \<times> 'a list) option" where
  "get_nowait q = (case q of [] \<Rightarrow> None | x # xs \<Rightarrow> Some (x, xs))"

lemma put_nowait_Some: "put_nowait n q x = Some q' \<longleftrightarrow> q' = q @ [x] \<and> (n = 0 \<or> length q < n)"
  by (auto simp: put_nowait_def)

lemma put_nowait_None: "put_nowait n q x = None \<longleftrightarrow> 0 < n \<and> n \<le> length q"
  by (auto simp: put_nowait_def)

lemma get_nowait_Some: "get_nowait q = Some (x, q') \<longleftrightarrow> q = x # q'"
  by (auto simp: get_nowait_def split: list.split)

lemma get_nowait_None: "get_nowait q = None \<longleftrightarrow> q = []"
  by (auto simp: get_nowait_def split: list.split)

text \<open>Both users create it with room for 128.\<close>

definition queue_size :: nat where
  "queue_size = 128"

interpretation channel: bounded_queue "put_nowait queue_size" get_nowait id queue_size
  by unfold_locales (auto simp: put_nowait_def get_nowait_def queue_size_def)

text \<open>
  Where a task that drains such a queue is: not started, awaiting an item, awaiting the
  delivery of one, returned.
\<close>

datatype sender = NotStarted | Awaiting | Sending | Returned

end
