(* ===== verification/Transcripts.thy ===== *)
theory Transcripts
  imports Config Bounded_Queue
begin

text \<open>
  transcripts.py: the stream that turns recognised speech into numbered, bounded events, and
  the publisher that sends them in order through a bounded queue and fails closed. Random
  ids and timestamps are arguments; an encoding error is the exception it is in the code,
  with the state it leaves behind.
\<close>

section \<open>The stream\<close>

definition MAX_TEXT_BYTES :: nat where
  "MAX_TEXT_BYTES = 6000"

record transcript_stream =
  ts_call_id :: pystr
  ts_stream_id :: pystr
  ts_sequence :: nat
  ts_segment :: "pystr option"
  ts_text :: pystr

definition new_stream :: "pystr \<Rightarrow> pystr \<Rightarrow> transcript_stream" where
  "new_stream call_id fresh =
     \<lparr>ts_call_id = call_id, ts_stream_id = fresh, ts_sequence = 0, ts_segment = None, ts_text = []\<rparr>"

record transcript_event =
  te_call_id :: pystr
  te_event_id :: pystr
  te_stream_id :: pystr
  te_sequence :: nat
  te_segment :: pystr
  te_text :: pystr
  te_final :: bool
  te_timestamp :: pystr
  te_speaker :: pystr

text \<open>The class \<open>[\x00-\x08\x0b\x0c\x0e-\x1f]\<close>.\<close>

definition is_stripped_control :: "nat \<Rightarrow> bool" where
  "is_stripped_control c \<longleftrightarrow> c \<le> 8 \<or> c = 11 \<or> c = 12 \<or> 14 \<le> c \<and> c \<le> 31"

definition clean_text :: "pystr \<Rightarrow> pystr" where
  "clean_text text = filter (\<lambda>c. \<not> is_stripped_control c) text"

text \<open>\<open>text.encode()[:n].decode(errors='ignore')\<close>\<close>

definition truncate_utf8 :: "nat \<Rightarrow> pystr \<Rightarrow> pystr result" where
  "truncate_utf8 n text =
     bind_res (utf8_encode text) (\<lambda>b.
       case utf8_decode h_ignore (take n b) of None \<Rightarrow> Inl UnicodeError | Some t \<Rightarrow> Inr t)"

text \<open>What \<open>uuid4\<close> and the clock return during one call.\<close>

record fresh =
  fresh_segment :: pystr
  fresh_event :: pystr
  fresh_time :: pystr

definition make_event ::
  "fresh \<Rightarrow> pystr \<Rightarrow> bool \<Rightarrow> pystr \<Rightarrow> pystr \<Rightarrow> transcript_stream
     \<Rightarrow> transcript_stream \<times> transcript_event option result"
where
  "make_event fr text final segment speaker s =
     (if strip text = [] then (s, Inr None)
      else case truncate_utf8 MAX_TEXT_BYTES (clean_text text) of
        Inl e \<Rightarrow> (s, Inl e)
      | Inr t \<Rightarrow>
          (let s = s\<lparr>ts_sequence := Suc (ts_sequence s)\<rparr> in
           (s, Inr (Some
             \<lparr>te_call_id = ts_call_id s, te_event_id = fresh_event fr, te_stream_id = ts_stream_id s,
              te_sequence = ts_sequence s, te_segment = segment, te_text = t, te_final = final,
              te_timestamp = fresh_time fr, te_speaker = speaker\<rparr>))))"

text \<open>
  \<open>caller\<close>: the segment of the turn, the text to send (a final without text closes the
  displayed partial), and the event; an exception leaves before a final resets the turn.
\<close>

definition turn_segment :: "fresh \<Rightarrow> transcript_stream \<Rightarrow> pystr" where
  "turn_segment fr s =
     (case ts_segment s of None \<Rightarrow> fresh_segment fr | Some g \<Rightarrow> if g = [] then fresh_segment fr else g)"

definition turn_text :: "pystr \<Rightarrow> bool \<Rightarrow> transcript_stream \<Rightarrow> pystr" where
  "turn_text text is_final s = (if strip text \<noteq> [] then text else if is_final then ts_text s else text)"

definition note_turn :: "fresh \<Rightarrow> pystr \<Rightarrow> transcript_stream \<Rightarrow> transcript_stream" where
  "note_turn fr text s =
     s\<lparr>ts_segment := Some (turn_segment fr s), ts_text := if strip text \<noteq> [] then text else ts_text s\<rparr>"

definition end_turn :: "bool \<Rightarrow> transcript_stream \<Rightarrow> transcript_stream" where
  "end_turn is_final s = (if is_final then s\<lparr>ts_segment := None, ts_text := []\<rparr> else s)"

definition caller ::
  "fresh \<Rightarrow> pystr \<Rightarrow> bool \<Rightarrow> transcript_stream \<Rightarrow> transcript_stream \<times> transcript_event option result"
where
  "caller fr text is_final s =
     (case make_event fr (turn_text text is_final s) is_final (turn_segment fr s) (str ''caller'')
             (note_turn fr text s) of
        (s, Inl e) \<Rightarrow> (s, Inl e)
      | (s, Inr event) \<Rightarrow> (end_turn is_final s, Inr event))"

definition assistant ::
  "fresh \<Rightarrow> pystr \<Rightarrow> pystr \<Rightarrow> transcript_stream \<Rightarrow> transcript_stream \<times> transcript_event option result"
where
  "assistant fr text item_id s =
     make_event fr text True (str ''assistant-'' @ item_id) (str ''assistant'') s"

text \<open>The dictionary, in the order of its fields.\<close>

definition event_json :: "transcript_event \<Rightarrow> json" where
  "event_json e =
     JObj [(str ''type'', JStr (str ''transcript'')), (str ''callId'', JStr (te_call_id e)),
       (str ''eventId'', JStr (te_event_id e)), (str ''streamId'', JStr (te_stream_id e)),
       (str ''sequence'', JInt (int (te_sequence e))), (str ''segmentId'', JStr (te_segment e)),
       (str ''text'', JStr (te_text e)), (str ''isFinal'', JBool (te_final e)),
       (str ''timestamp'', JStr (te_timestamp e)), (str ''speaker'', JStr (te_speaker e))]"

section \<open>The publisher\<close>

text \<open>
  \<open>pub_taken\<close> and \<open>pub_sent\<close> are what it took off the queue and the
  payloads it passed to \<open>publish_data\<close>, in order; \<open>pub_failures\<close> counts the calls of
  \<open>on_failure\<close>.
\<close>

record publisher =
  pub_queue :: "json list"
  pub_closed :: bool
  pub_sender :: sender
  pub_taken :: "json list"
  pub_sent :: "pybytes list"
  pub_failures :: nat

definition new_publisher :: publisher where
  "new_publisher =
     \<lparr>pub_queue = [], pub_closed = False, pub_sender = NotStarted, pub_taken = [], pub_sent = [],
      pub_failures = 0\<rparr>"

definition fail_publisher :: "publisher \<Rightarrow> publisher" where
  "fail_publisher s =
     (if pub_closed s then s else s\<lparr>pub_closed := True, pub_failures := Suc (pub_failures s)\<rparr>)"

definition enqueue_event :: "json option \<Rightarrow> publisher \<Rightarrow> publisher" where
  "enqueue_event event s =
     (case event of
        None \<Rightarrow> s
      | Some e \<Rightarrow>
          if pub_closed s then s
          else (case put_nowait queue_size (pub_queue s) e of
                  None \<Rightarrow> fail_publisher s | Some q \<Rightarrow> s\<lparr>pub_queue := q\<rparr>))"

text \<open>The test of the loop, at the start and after each event.\<close>

definition next_round :: "publisher \<Rightarrow> publisher" where
  "next_round s = s\<lparr>pub_sender := if pub_closed s then Returned else Awaiting\<rparr>"

definition start_publisher :: "publisher \<Rightarrow> publisher" where
  "start_publisher s = (if pub_sender s = NotStarted then next_round s else s)"

definition payload :: "json \<Rightarrow> pybytes result" where
  "payload e = utf8_encode (json_dumps compact_unicode e)"

definition take_event :: "publisher \<Rightarrow> publisher" where
  "take_event s =
     (if pub_sender s \<noteq> Awaiting then s
      else case get_nowait (pub_queue s) of
        None \<Rightarrow> s
      | Some (e, q) \<Rightarrow>
          (let s = s\<lparr>pub_queue := q, pub_taken := pub_taken s @ [e]\<rparr> in
           case payload e of
             Inl x \<Rightarrow> next_round (fail_publisher s)
           | Inr b \<Rightarrow> s\<lparr>pub_sent := pub_sent s @ [b], pub_sender := Sending\<rparr>))"

text \<open>\<open>ok\<close>: published within two seconds.\<close>

definition publication_ended :: "bool \<Rightarrow> publisher \<Rightarrow> publisher" where
  "publication_ended ok s =
     (if pub_sender s \<noteq> Sending then s
      else next_round (if ok then s else fail_publisher s))"

definition close_publisher :: "publisher \<Rightarrow> publisher" where
  "close_publisher s =
     s\<lparr>pub_closed := True, pub_sender := if pub_sender s = NotStarted then NotStarted else Returned\<rparr>"

datatype publisher_event = Enqueue "json option" | StartSender | TakeEvent | PublicationEnded bool | ClosePublisher

fun publisher_step :: "publisher \<Rightarrow> publisher_event \<Rightarrow> publisher" where
  "publisher_step s (Enqueue e) = enqueue_event e s"
| "publisher_step s StartSender = start_publisher s"
| "publisher_step s TakeEvent = take_event s"
| "publisher_step s (PublicationEnded ok) = publication_ended ok s"
| "publisher_step s ClosePublisher = close_publisher s"

section \<open>Facts about the text\<close>

lemma clean_text_scalar: "list_all is_scalar t \<Longrightarrow> list_all is_scalar (clean_text t)"
  by (auto simp: clean_text_def list_all_iff)

lemma scalar_no_surrogate: "list_all is_scalar t \<Longrightarrow> \<not> list_ex is_surrogate t"
  by (auto simp: list_all_iff list_ex_iff surrogate_defs)

lemma codepoint_scalar: "list_all is_codepoint t \<Longrightarrow> \<not> list_ex is_surrogate t \<Longrightarrow> list_all is_scalar t"
  by (auto simp: list_all_iff list_ex_iff surrogate_defs)

lemma truncate_scalar:
  "list_all is_scalar t \<Longrightarrow> truncate_utf8 n t = Inr (fit_prefix n t)"
  by (simp add: truncate_utf8_def utf8_encode_def scalar_no_surrogate utf8_truncate_fit)

lemma truncate_Inr:
  assumes "list_all is_codepoint t" "truncate_utf8 n t = Inr u"
  shows "list_all is_scalar t" "u = fit_prefix n t"
proof -
  show s: "list_all is_scalar t"
    using assms by (auto simp: truncate_utf8_def utf8_encode_def intro: codepoint_scalar split: if_splits)
  show "u = fit_prefix n t" using assms(2) truncate_scalar [OF s] by simp
qed

lemma clean_text_codepoint: "list_all is_codepoint t \<Longrightarrow> list_all is_codepoint (clean_text t)"
  by (auto simp: clean_text_def list_all_iff)

lemma fit_prefix_subset: "set (fit_prefix n t) \<subseteq> set t"
  using fit_prefix_prefix by (rule set_mono_prefix)

section \<open>Facts about the numbering\<close>

lemma make_event_sequence:
  "make_event fr text final segment speaker s = (s', r) \<Longrightarrow>
     (case r of
        Inr (Some e) \<Rightarrow> te_sequence e = Suc (ts_sequence s) \<and> ts_sequence s' = te_sequence e
      | _ \<Rightarrow> ts_sequence s' = ts_sequence s)"
  by (auto simp: make_event_def Let_def split: if_splits sum.splits)

lemma make_event_frame:
  "make_event fr text final segment speaker s = (s', r) \<Longrightarrow>
     ts_segment s' = ts_segment s \<and> ts_text s' = ts_text s \<and> ts_call_id s' = ts_call_id s
     \<and> ts_stream_id s' = ts_stream_id s"
  by (auto simp: make_event_def Let_def split: if_splits sum.splits)

lemma make_event_fields:
  "make_event fr text final segment speaker s = (s', Inr (Some e)) \<Longrightarrow>
     te_segment e = segment \<and> te_final e = final \<and> te_speaker e = speaker
     \<and> te_call_id e = ts_call_id s \<and> te_stream_id e = ts_stream_id s
     \<and> truncate_utf8 MAX_TEXT_BYTES (clean_text text) = Inr (te_text e)"
  by (auto simp: make_event_def Let_def split: if_splits sum.splits)

lemma caller_sequence:
  "caller fr text final s = (s', r) \<Longrightarrow>
     (case r of
        Inr (Some e) \<Rightarrow> te_sequence e = Suc (ts_sequence s) \<and> ts_sequence s' = te_sequence e
      | _ \<Rightarrow> ts_sequence s' = ts_sequence s)"
  using make_event_sequence [of fr "turn_text text final s" final "turn_segment fr s" "str ''caller''"
      "note_turn fr text s"]
  by (auto simp: caller_def end_turn_def note_turn_def split: prod.splits sum.splits option.splits)

section \<open>Runs of the stream\<close>

datatype speech = CallerSpeech fresh pystr bool | AssistantSpeech fresh pystr pystr

fun speak :: "transcript_stream \<Rightarrow> speech \<Rightarrow> transcript_stream \<times> transcript_event option result" where
  "speak s (CallerSpeech fr text final) = caller fr text final s"
| "speak s (AssistantSpeech fr text item) = assistant fr text item s"

fun stream_events :: "transcript_stream \<Rightarrow> speech list \<Rightarrow> transcript_event list" where
  "stream_events s [] = []"
| "stream_events s (x # xs) =
     (case speak s x of
        (s', Inr (Some e)) \<Rightarrow> e # stream_events s' xs
      | (s', r) \<Rightarrow> stream_events s' xs)"

lemma speak_sequence:
  "speak s x = (s', r) \<Longrightarrow>
     (case r of
        Inr (Some e) \<Rightarrow> te_sequence e = Suc (ts_sequence s) \<and> ts_sequence s' = te_sequence e
      | _ \<Rightarrow> ts_sequence s' = ts_sequence s)"
  by (cases x) (auto simp: assistant_def dest: caller_sequence make_event_sequence)

lemma stream_sequence:
  "map te_sequence (stream_events s xs)
    = [Suc (ts_sequence s) ..< Suc (ts_sequence s + length (stream_events s xs))]"
proof (induction xs arbitrary: s)
  case (Cons x xs)
  obtain s' r where r: "speak s x = (s', r)" by (cases "speak s x")
  note q = speak_sequence [OF r]
  show ?case
  proof (cases "\<exists>e. r = Inr (Some e)")
    case True
    with q r Cons.IH [of s'] show ?thesis by (auto simp: upt_conv_Cons simp del: upt_Suc)
  next
    case False
    then have "stream_events s (x # xs) = stream_events s' xs"
      using r by (auto split: sum.split option.split)
    moreover have "ts_sequence s' = ts_sequence s" using q False by (auto split: sum.splits option.splits)
    ultimately show ?thesis using Cons.IH [of s'] by simp
  qed
qed simp

section \<open>One turn of the caller\<close>

lemma note_turn_simps [simp]:
  "ts_sequence (note_turn fr text s) = ts_sequence s" "ts_call_id (note_turn fr text s) = ts_call_id s"
  "ts_stream_id (note_turn fr text s) = ts_stream_id s"
  "ts_segment (note_turn fr text s) = Some (turn_segment fr s)"
  "ts_text (note_turn fr text s) = (if strip text \<noteq> [] then text else ts_text s)"
  by (simp_all add: note_turn_def)

lemma make_event_scalar:
  assumes "list_all is_scalar text"
  shows "\<exists>s'. (make_event fr text final g sp s = (s', Inr None) \<and> strip text = [] \<and> s' = s)
    \<or> (\<exists>e. make_event fr text final g sp s = (s', Inr (Some e)) \<and> strip text \<noteq> [] \<and> te_segment e = g
         \<and> te_final e = final \<and> ts_segment s' = ts_segment s \<and> ts_text s' = ts_text s)"
  using truncate_scalar [OF clean_text_scalar [OF assms], of MAX_TEXT_BYTES]
  by (simp add: make_event_def Let_def)

text \<open>The texts of a turn, its ids, and its calls.\<close>

definition turn_calls :: "(fresh \<times> pystr) list \<Rightarrow> fresh \<Rightarrow> pystr \<Rightarrow> speech list" where
  "turn_calls partials fr text =
     map (\<lambda>(f, t). CallerSpeech f t False) partials @ [CallerSpeech fr text True]"

definition stream_run :: "transcript_stream \<Rightarrow> speech list \<Rightarrow> transcript_stream" where
  "stream_run = run (\<lambda>s x. fst (speak s x))"

definition in_turn :: "pystr \<Rightarrow> transcript_stream \<Rightarrow> bool" where
  "in_turn g s \<longleftrightarrow> ts_segment s = Some g \<and> g \<noteq> [] \<and> list_all is_scalar (ts_text s)"

lemma partial_step:
  assumes "turn_segment f s = g" "g \<noteq> []" "list_all is_scalar t" "list_all is_scalar (ts_text s)"
  shows "\<exists>s' r. caller f t False s = (s', Inr r) \<and> in_turn g s'
    \<and> (r = None \<and> (strip (ts_text s') = [] \<longleftrightarrow> strip (ts_text s) = [])
       \<or> (\<exists>e. r = Some e \<and> te_segment e = g \<and> \<not> te_final e \<and> strip (ts_text s') \<noteq> []))"
  using make_event_scalar [of "turn_text t False s" f False g "str ''caller''" "note_turn f t s"] assms
  by (auto simp: caller_def end_turn_def turn_text_def in_turn_def)

lemma final_step:
  assumes "turn_segment f s = g" "list_all is_scalar t" "list_all is_scalar (ts_text s)"
  shows "\<exists>s' r. caller f t True s = (s', Inr r) \<and> ts_segment s' = None
    \<and> (r = None \<and> strip (ts_text s) = [] \<and> strip t = []
       \<or> (\<exists>e. r = Some e \<and> te_segment e = g \<and> te_final e))"
  using make_event_scalar [of "turn_text t True s" f True g "str ''caller''" "note_turn f t s"] assms
  by (auto simp: caller_def end_turn_def turn_text_def)

definition turn_shown :: "pystr \<Rightarrow> transcript_event list \<Rightarrow> bool" where
  "turn_shown g es \<longleftrightarrow>
     list_all (\<lambda>e. te_segment e = g) es \<and>
     (es = [] \<or> te_final (last es) \<and> list_all (\<lambda>e. \<not> te_final e) (butlast es))"

lemma stream_run_Cons [simp]: "stream_run s (x # xs) = stream_run (fst (speak s x)) xs"
  by (simp add: stream_run_def)

lemma stream_run_Nil [simp]: "stream_run s [] = s"
  by (simp add: stream_run_def)

text \<open>The rest of a turn; something displayed means that a final event follows.\<close>

lemma rest_of_turn:
  assumes "in_turn g s" "list_all (\<lambda>(f, t). list_all is_scalar t) partials" "list_all is_scalar text"
  shows "turn_shown g (stream_events s (turn_calls partials fr text))
    \<and> ts_segment (stream_run s (turn_calls partials fr text)) = None
    \<and> (stream_events s (turn_calls partials fr text) = [] \<longrightarrow> strip (ts_text s) = [])"
  using assms
proof (induction partials arbitrary: s)
  case Nil
  then have "turn_segment fr s = g" by (simp add: in_turn_def turn_segment_def)
  from final_step [OF this Nil(3)] Nil(1) show ?case
    by (auto simp: turn_calls_def turn_shown_def in_turn_def)
next
  case (Cons p partials)
  obtain f t where p: "p = (f, t)" by (cases p)
  have "turn_segment f s = g" "g \<noteq> []" using Cons.prems by (simp_all add: in_turn_def turn_segment_def)
  from partial_step [OF this, of t] Cons.prems p obtain s' r where c: "caller f t False s = (s', Inr r)"
    "in_turn g s'" and r: "r = None \<and> (strip (ts_text s') = [] \<longleftrightarrow> strip (ts_text s) = [])
       \<or> (\<exists>e. r = Some e \<and> te_segment e = g \<and> \<not> te_final e \<and> strip (ts_text s') \<noteq> [])"
    by (auto simp: in_turn_def)
  have calls: "turn_calls (p # partials) fr text = CallerSpeech f t False # turn_calls partials fr text"
    by (simp add: turn_calls_def p)
  have ih: "turn_shown g (stream_events s' (turn_calls partials fr text))
    \<and> ts_segment (stream_run s' (turn_calls partials fr text)) = None
    \<and> (stream_events s' (turn_calls partials fr text) = [] \<longrightarrow> strip (ts_text s') = [])"
    using Cons.IH [OF c(2)] Cons.prems by simp
  from r show ?case
  proof
    assume "r = None \<and> (strip (ts_text s') = [] \<longleftrightarrow> strip (ts_text s) = [])"
    with ih c(1) show ?thesis by (simp add: calls)
  next
    assume "\<exists>e. r = Some e \<and> te_segment e = g \<and> \<not> te_final e \<and> strip (ts_text s') \<noteq> []"
    then obtain e where e: "r = Some e" "te_segment e = g" "\<not> te_final e" "strip (ts_text s') \<noteq> []"
      by blast
    with ih have "stream_events s' (turn_calls partials fr text) \<noteq> []" by auto
    with e ih c(1) show ?thesis by (simp add: calls turn_shown_def)
  qed
qed

text \<open>A whole turn, from a stream between turns.\<close>

lemma whole_turn:
  assumes "ts_segment s = None" "ts_text s = []" "fresh_segment f0 = g" "g \<noteq> []"
    and "list_all (\<lambda>(f, t). list_all is_scalar t) partials" "list_all is_scalar text"
    and f0: "f0 = (case partials of [] \<Rightarrow> fr | (f, t) # ps \<Rightarrow> f)"
  shows "turn_shown g (stream_events s (turn_calls partials fr text))
    \<and> ts_segment (stream_run s (turn_calls partials fr text)) = None"
proof (cases partials)
  case Nil
  with assms have "turn_segment fr s = g" by (simp add: turn_segment_def)
  from final_step [OF this assms(6)] assms(2) Nil show ?thesis
    by (auto simp: turn_calls_def turn_shown_def)
next
  case (Cons p ps)
  obtain f t where p: "p = (f, t)" by (cases p)
  with assms Cons have "turn_segment f s = g" by (simp add: turn_segment_def)
  from partial_step [OF this assms(4), of t] assms p Cons obtain s' r where c: "caller f t False s = (s', Inr r)"
    "in_turn g s'" and r: "r = None \<or> (\<exists>e. r = Some e \<and> te_segment e = g \<and> \<not> te_final e \<and> strip (ts_text s') \<noteq> [])"
    by auto
  have calls: "turn_calls partials fr text = CallerSpeech f t False # turn_calls ps fr text"
    by (simp add: turn_calls_def p Cons)
  have ih: "turn_shown g (stream_events s' (turn_calls ps fr text))
    \<and> ts_segment (stream_run s' (turn_calls ps fr text)) = None
    \<and> (stream_events s' (turn_calls ps fr text) = [] \<longrightarrow> strip (ts_text s') = [])"
    using rest_of_turn [OF c(2), of ps "text" fr] assms(5,6) Cons by simp
  with r c(1) show ?thesis by (auto simp: calls turn_shown_def)
qed

section \<open>Facts about the publisher\<close>

definition publisher_inv :: "publisher \<Rightarrow> bool" where
  "publisher_inv s \<longleftrightarrow>
     length (pub_queue s) \<le> queue_size \<and> pub_failures s \<le> 1 \<and> (pub_failures s = 0 \<or> pub_closed s)
     \<and> pub_sent s = concat (map (\<lambda>e. case payload e of Inl x \<Rightarrow> [] | Inr b \<Rightarrow> [b]) (pub_taken s))"

lemma new_publisher_inv: "publisher_inv new_publisher"
  by (simp add: publisher_inv_def new_publisher_def)

lemma fail_inv: "publisher_inv s \<Longrightarrow> publisher_inv (fail_publisher s)"
  by (auto simp: publisher_inv_def fail_publisher_def)

lemma next_round_inv: "publisher_inv (next_round s) = publisher_inv s"
  by (simp add: publisher_inv_def next_round_def)

lemma enqueue_inv: "publisher_inv s \<Longrightarrow> publisher_inv (enqueue_event e s)"
  using channel.put_items [of "pub_queue s"] fail_inv [of s]
  by (fastforce simp: enqueue_event_def publisher_inv_def split: option.split)

lemma take_inv: "publisher_inv s \<Longrightarrow> publisher_inv (take_event s)"
  using channel.get_items [of "pub_queue s"]
  by (fastforce simp: take_event_def publisher_inv_def fail_publisher_def next_round_def Let_def
      split: option.split sum.split)

lemma publisher_step_inv: "publisher_inv s \<Longrightarrow> publisher_inv (publisher_step s e)"
proof (cases e)
  case ClosePublisher
  then show "publisher_inv s \<Longrightarrow> ?thesis" by (simp add: publisher_inv_def close_publisher_def)
qed (simp_all add: enqueue_inv take_inv start_publisher_def publication_ended_def next_round_inv fail_inv)

lemma publisher_step_closed: "pub_closed s \<Longrightarrow> pub_closed (publisher_step s e)"
  by (cases e) (auto simp: enqueue_event_def fail_publisher_def start_publisher_def next_round_def
      take_event_def publication_ended_def close_publisher_def Let_def split: option.split sum.split)

interpretation delivery: latched_machine publisher_step publisher_inv pub_closed
  by unfold_locales (simp_all add: publisher_step_inv publisher_step_closed)

text \<open>What a history accepted into the queue.\<close>

fun accepted_event :: "publisher \<Rightarrow> publisher_event \<Rightarrow> json list" where
  "accepted_event s (Enqueue (Some e)) =
     (if pub_closed s \<or> length (pub_queue s) = queue_size then [] else [e])"
| "accepted_event s x = []"

fun accepted_events :: "publisher \<Rightarrow> publisher_event list \<Rightarrow> json list" where
  "accepted_events s [] = []"
| "accepted_events s (x # xs) = accepted_event s x @ accepted_events (publisher_step s x) xs"

lemma publisher_step_fifo:
  assumes "publisher_inv s"
  shows "pub_taken (publisher_step s x) @ pub_queue (publisher_step s x)
    = pub_taken s @ pub_queue s @ accepted_event s x"
proof (cases x)
  case (Enqueue e)
  have "length (id (pub_queue s)) \<le> queue_size" using assms by (simp add: publisher_inv_def)
  note put = channel.put_refused [OF this] channel.put_items [OF this]
  show ?thesis
  proof (cases e)
    case (Some v)
    show ?thesis
    proof (cases "put_nowait queue_size (pub_queue s) v")
      case None
      with put(1) [of v] Some Enqueue show ?thesis by (simp add: enqueue_event_def fail_publisher_def)
    next
      case (Some q)
      with put(2) [of v q] \<open>e = Some v\<close> Enqueue show ?thesis by (auto simp: enqueue_event_def)
    qed
  qed (use Enqueue in \<open>simp add: enqueue_event_def\<close>)
next
  case TakeEvent
  then show ?thesis
    using channel.get_items [of "pub_queue s"]
    by (auto simp: take_event_def next_round_def fail_publisher_def Let_def split: option.split sum.split)
qed (simp_all add: start_publisher_def publication_ended_def close_publisher_def next_round_def fail_publisher_def)

lemma publisher_run_fifo:
  "publisher_inv s \<Longrightarrow>
     pub_taken (run publisher_step s xs) @ pub_queue (run publisher_step s xs)
       = pub_taken s @ pub_queue s @ accepted_events s xs"
  by (induction xs arbitrary: s) (simp_all add: publisher_step_fifo publisher_step_inv)

section \<open>The size of an event's text\<close>

lemma escape_clean_length:
  assumes "\<not> is_stripped_control c"
  shows "length (utf8_bytes (escape_char False c)) \<le> 2 * length (utf8_char c)"
proof -
  have "0 < length (utf8_char c)" using length_utf8_char [of c] ..
  moreover from assms have "32 \<le> c \<or> c = 9 \<or> c = 10 \<or> c = 13"
    unfolding is_stripped_control_def by linarith
  ultimately show ?thesis by (auto simp: escape_char_def)
qed

lemma quote_clean_length:
  "\<forall>c \<in> set t. \<not> is_stripped_control c \<Longrightarrow>
     length (utf8_bytes (quote False t)) \<le> 2 * length (utf8_bytes t) + 2"
proof (induction t)
  case (Cons c t)
  then show ?case using escape_clean_length [of c] by (simp add: quote_def)
qed (simp add: quote_def)

section \<open>Properties\<close>

text \<open>Whatever is spoken, the events of a stream are numbered without a gap: their sequence
  numbers are the consecutive integers after the stream's last, in the order they are made.\<close>

theorem stream_numbered:
  "map te_sequence (stream_events (new_stream call_id fresh) xs)
    = [1 ..< Suc (length (stream_events (new_stream call_id fresh) xs))]"
  using stream_sequence [of "new_stream call_id fresh" xs] by (simp add: new_stream_def)

text \<open>C34. The text of an event is the spoken text without its control characters, cut at the
  last character that fits in 6000 bytes of UTF-8 (never inside a character, never
  shorter than needed), and printed as a JSON string it takes at most 12,002 bytes.\<close>

theorem event_text_bounded:
  assumes "list_all is_codepoint text" "make_event fr text final g speaker s = (s', Inr (Some e))"
  shows "prefix (te_text e) (clean_text text)
    \<and> length (utf8_bytes (te_text e)) \<le> 6000
    \<and> (\<forall>p. prefix p (clean_text text) \<longrightarrow> length (utf8_bytes p) \<le> 6000 \<longrightarrow> prefix p (te_text e))
    \<and> list_all (\<lambda>c. is_scalar c \<and> \<not> is_stripped_control c) (te_text e)
    \<and> length (utf8_bytes (quote False (te_text e))) \<le> 12002"
proof -
  have t: "truncate_utf8 6000 (clean_text text) = Inr (te_text e)"
    using make_event_fields [OF assms(2)] by (simp add: MAX_TEXT_BYTES_def)
  note f = truncate_Inr [OF clean_text_codepoint [OF assms(1)] t]
  have c: "\<forall>c \<in> set (te_text e). is_scalar c \<and> \<not> is_stripped_control c"
    using f fit_prefix_subset [of 6000 "clean_text text"] by (auto simp: clean_text_def list_all_iff)
  have len: "length (utf8_bytes (te_text e)) \<le> 6000" unfolding f(2) by (rule fit_prefix_length)
  have "length (utf8_bytes (quote False (te_text e))) \<le> 2 * length (utf8_bytes (te_text e)) + 2"
    using c by (intro quote_clean_length) blast
  with len c show ?thesis
    using fit_prefix_prefix [of 6000 "clean_text text"] fit_prefix_greatest [of _ "clean_text text" 6000]
    by (simp add: f(2) list_all_iff)
qed

definition sample_fresh :: fresh where
  "sample_fresh = \<lparr>fresh_segment = str ''seg'', fresh_event = str ''ev'', fresh_time = str ''now''\<rparr>"

theorem event_text_bounded_witness:
  "\<exists>e. snd (make_event sample_fresh (str ''hello'') True (str ''seg'') (str ''caller'')
      (new_stream [] [])) = Inr (Some e) \<and> length (utf8_bytes (te_text e)) \<le> 6000"
proof -
  have s: "list_all is_scalar (str ''hello'')" "strip (str ''hello'') \<noteq> []"
    by (simp_all add: str_scalar strip_Nil) (simp add: str_def py_isspace_def)
  from make_event_scalar [OF s(1), of sample_fresh True "str ''seg''" "str ''caller''" "new_stream [] []"] s(2)
  obtain s' e where m: "make_event sample_fresh (str ''hello'') True (str ''seg'') (str ''caller'')
      (new_stream [] []) = (s', Inr (Some e))" by auto
  from event_text_bounded [OF is_scalar_codepoint [OF s(1)] m] m show ?thesis by auto
qed

text \<open>One turn of the caller is one segment: between turns, any number of partial results
  followed by a final one gives events that all carry the id made for that turn, of which
  only the last is final; if anything was displayed the final is sent even when the
  provider's last result is blank, and the next turn starts a new segment.\<close>

theorem turn_is_one_segment:
  assumes "ts_segment s = None" "ts_text s = []"
    and "list_all (\<lambda>(f, t). list_all is_scalar t) partials" "list_all is_scalar text"
    and "fresh_segment (case partials of [] \<Rightarrow> fr | (f, t) # ps \<Rightarrow> f) = g" "g \<noteq> []"
  shows "turn_shown g (stream_events s (turn_calls partials fr text))
    \<and> ts_segment (stream_run s (turn_calls partials fr text)) = None"
  using whole_turn [OF assms(1,2,5,6,3,4) refl] .

theorem turn_is_one_segment_witness:
  "turn_shown (str ''seg'') (stream_events (new_stream [] [])
     (turn_calls [(sample_fresh, str ''hel''), (sample_fresh, str ''hello'')] sample_fresh []))"
  using turn_is_one_segment [of "new_stream [] []"
      "[(sample_fresh, str ''hel''), (sample_fresh, str ''hello'')]" "[]" sample_fresh "str ''seg''"]
  by (simp add: new_stream_def sample_fresh_def str_scalar)

text \<open>C29. Delivery in order: in any history of the publisher the events it has taken to send,
  followed by those still queued, are exactly the events it accepted, in that order, so
  none is lost, repeated or overtaken; what went out is their compact JSON.\<close>

theorem delivery_in_order:
  "pub_taken (run publisher_step new_publisher xs) @ pub_queue (run publisher_step new_publisher xs)
     = accepted_events new_publisher xs
   \<and> pub_sent (run publisher_step new_publisher xs)
     = concat (map (\<lambda>e. case payload e of Inl x \<Rightarrow> [] | Inr b \<Rightarrow> [b])
         (pub_taken (run publisher_step new_publisher xs)))"
proof -
  have "publisher_inv (run publisher_step new_publisher xs)"
    by (rule delivery.run_inv) (rule new_publisher_inv)
  then show ?thesis
    using publisher_run_fifo [OF new_publisher_inv, of xs]
    by (simp add: publisher_inv_def new_publisher_def)
qed

text \<open>C30. The publisher fails closed: the queue never holds more than 128 events, the failure
  callback runs at most once and closes it, an event that finds the queue full closes an
  open publisher with that callback, and a closed publisher accepts nothing more.\<close>

theorem publisher_fails_closed:
  "case run publisher_step new_publisher xs of s \<Rightarrow>
     length (pub_queue s) \<le> 128 \<and> pub_failures s \<le> 1 \<and> (pub_failures s = 0 \<or> pub_closed s)
     \<and> publisher_step s (Enqueue (Some e)) =
         (if pub_closed s then s
          else if length (pub_queue s) = 128 then s\<lparr>pub_closed := True, pub_failures := 1\<rparr>
          else s\<lparr>pub_queue := pub_queue s @ [e]\<rparr>)"
proof -
  have "publisher_inv (run publisher_step new_publisher xs)"
    by (rule delivery.run_inv) (rule new_publisher_inv)
  then show ?thesis
    by (auto simp: publisher_inv_def enqueue_event_def fail_publisher_def put_nowait_def queue_size_def)
qed

end
