(* ===== verification/Dictionary.thy ===== *)
theory Dictionary
  imports Prelude
begin

text \<open>
  The contract of Python's \<open>dict\<close> that transcript_history.py (the frozen snapshots) and
  platform_config.py (the resolved values) rely on, what follows from it for a sequence of
  assignments, and the dictionary itself as an association list in insertion order.
\<close>

section \<open>The contract\<close>

locale dictionary =
  fixes look :: "'k \<Rightarrow> 'd \<Rightarrow> 'v option"
    and put :: "'k \<Rightarrow> 'v \<Rightarrow> 'd \<Rightarrow> 'd"
    and del :: "'k \<Rightarrow> 'd \<Rightarrow> 'd"
    and empty :: 'd
  assumes look_empty: "look k empty = None"
    and look_put: "look k (put k' v d) = (if k = k' then Some v else look k d)"
    and look_del: "look k (del k' d) = (if k = k' then None else look k d)"
begin

definition put_all :: "('k \<times> 'v) list \<Rightarrow> 'd \<Rightarrow> 'd" where
  "put_all ps d = foldl (\<lambda>d (k, v). put k v d) d ps"

text \<open>The last assignment of a key is the one that is found.\<close>

lemma look_put_all:
  "look k (put_all ps d) = (case map_of (rev ps) k of None \<Rightarrow> look k d | Some v \<Rightarrow> Some v)"
proof (induction ps arbitrary: d)
  case Nil
  show ?case by (simp add: put_all_def)
next
  case (Cons p ps)
  obtain k' v where p: "p = (k', v)" by (cases p)
  have "look k (put_all (p # ps) d) = look k (put_all ps (put k' v d))"
    by (simp add: put_all_def p)
  then show ?case
    by (simp add: Cons.IH p look_put map_add_def split: option.split)
qed

lemma look_put_other: "k \<noteq> k' \<Longrightarrow> look k (put k' v d) = look k d"
  by (simp add: look_put)

lemma look_del_other: "k \<noteq> k' \<Longrightarrow> look k (del k' d) = look k d"
  by (simp add: look_del)

end

section \<open>The dictionary\<close>

definition lookup :: "'k \<Rightarrow> ('k \<times> 'v) list \<Rightarrow> 'v option" where
  "lookup k d = map_of d k"

definition forget :: "'k \<Rightarrow> ('k \<times> 'v) list \<Rightarrow> ('k \<times> 'v) list" where
  "forget k d = filter (\<lambda>p. fst p \<noteq> k) d"

text \<open>An assignment keeps the place of a key that is there.\<close>

fun remember_as :: "'k \<Rightarrow> 'v \<Rightarrow> ('k \<times> 'v) list \<Rightarrow> ('k \<times> 'v) list" where
  "remember_as k v [] = [(k, v)]"
| "remember_as k v ((k', w) # d) = (if k' = k then (k, v) # d else (k', w) # remember_as k v d)"

lemma lookup_simps [simp]:
  "lookup k [] = None"
  "lookup k (remember_as k' v d) = (if k = k' then Some v else lookup k d)"
  "lookup k (forget k' d) = (if k = k' then None else lookup k d)"
  by (induction d) (auto simp: lookup_def forget_def)

interpretation dict: dictionary lookup remember_as forget "[]"
  by unfold_locales simp_all

text \<open>\<open>d.update(ps)\<close>\<close>

definition update_all :: "('k \<times> 'v) list \<Rightarrow> ('k \<times> 'v) list \<Rightarrow> ('k \<times> 'v) list" where
  "update_all ps d = foldl (\<lambda>d (k, v). remember_as k v d) d ps"

lemma lookup_update_all:
  "lookup k (update_all ps d) = (case map_of (rev ps) k of None \<Rightarrow> lookup k d | Some v \<Rightarrow> Some v)"
  using dict.look_put_all [of k ps d] by (simp add: update_all_def dict.put_all_def)

lemma remember_as_keys: "map fst (remember_as k v d) = map fst d @ (if k \<in> fst ` set d then [] else [k])"
  by (induction d) force+

lemma remember_as_distinct: "distinct (map fst d) \<Longrightarrow> distinct (map fst (remember_as k v d))"
  by (simp add: remember_as_keys)

lemma remember_as_length:
  "length (remember_as k v d) = length d + (if lookup k d = None then 1 else 0)"
proof -
  have "length (map fst (remember_as k v d)) = length d + (if k \<in> fst ` set d then 0 else 1)"
    by (simp only: remember_as_keys) simp
  then show ?thesis by (simp add: lookup_def map_of_eq_None_iff)
qed

lemma remember_as_all: "list_all P d \<Longrightarrow> P (k, v) \<Longrightarrow> list_all P (remember_as k v d)"
  by (induction d) auto

lemma update_all_distinct: "distinct (map fst d) \<Longrightarrow> distinct (map fst (update_all ps d))"
  by (induction ps arbitrary: d) (auto simp: update_all_def remember_as_distinct)

lemma forget_distinct: "distinct (map fst d) \<Longrightarrow> distinct (map fst (forget k d))"
  by (simp add: forget_def distinct_map_filter)

lemma lookup_filter:
  assumes "distinct (map fst d)" "lookup k d = Some v" "P (k, v)"
  shows "lookup k (filter P d) = Some v"
proof -
  have "(k, v) \<in> set (filter P d)" using assms by (auto simp: lookup_def dest: map_of_SomeD)
  moreover have "distinct (map fst (filter P d))" using assms(1) by (simp add: distinct_map_filter)
  ultimately show ?thesis by (simp add: lookup_def)
qed

lemma lookup_all: "lookup k d = Some v \<Longrightarrow> list_all P d \<Longrightarrow> P (k, v)"
  by (auto simp: lookup_def list_all_iff dest: map_of_SomeD)

end
