(* ===== verification/History.thy ===== *)
theory History
  imports Config Bounded_Queue Dictionary
begin

text \<open>
  transcript_history.py: the rows of a call, the snapshot of its history, the paged RPC that
  hands a frozen snapshot to an authorised observer, and the sender of live updates. What
  the SDK supplies (the session's items, the observer's participant, the clock, random ids)
  comes with each call.
\<close>

definition PAGE_CHARS :: nat where
  "PAGE_CHARS = 6000"

definition MAX_SNAPSHOT_CHARS :: nat where
  "MAX_SNAPSHOT_CHARS = 2097152"

section \<open>State\<close>

record row =
  row_id :: pystr
  row_segment :: pystr
  row_role :: pystr
  row_text :: pystr
  row_final :: bool
  row_sequence :: nat

record chat_item =
  item_id :: pystr
  item_type :: pystr
  item_role :: pystr
  item_text :: "pystr option"

text \<open>A frozen snapshot: when, its token, its text.\<close>

type_synonym frozen = "rat \<times> pystr \<times> pystr"

record history =
  hs_call_id :: pystr
  hs_room_name :: pystr
  hs_sequence :: nat
  hs_committed :: "pystr \<Rightarrow> (pystr \<times> nat) option"
  hs_pending :: "row option"
  hs_caller_finals :: "pystr list"
  hs_snapshots :: "(pystr \<times> frozen) list"
  hs_queue :: "row list"
  hs_sender :: sender
  hs_closed :: bool
  hs_sent :: "row list"

definition new_history :: "pystr \<Rightarrow> pystr \<Rightarrow> history" where
  "new_history call_id room_name =
     \<lparr>hs_call_id = call_id, hs_room_name = room_name, hs_sequence = 0, hs_committed = (\<lambda>_. None),
      hs_pending = None, hs_caller_finals = [], hs_snapshots = [], hs_queue = [],
      hs_sender = NotStarted, hs_closed = False, hs_sent = []\<rparr>"

section \<open>Rows\<close>

definition make_row :: "pystr \<Rightarrow> pystr \<Rightarrow> pystr \<Rightarrow> bool \<Rightarrow> history \<Rightarrow> history \<times> row" where
  "make_row segment role text final s =
     (let n = Suc (hs_sequence s) in
      (s\<lparr>hs_sequence := n\<rparr>,
       \<lparr>row_id = segment, row_segment = segment, row_role = role, row_text = text,
        row_final = final, row_sequence = n\<rparr>))"

text \<open>A full queue drops the row; the history stays authoritative.\<close>

definition enqueue_row :: "row \<Rightarrow> history \<Rightarrow> history" where
  "enqueue_row row s =
     (case put_nowait queue_size (hs_queue s) row of None \<Rightarrow> s | Some q \<Rightarrow> s\<lparr>hs_queue := q\<rparr>)"

definition caller_row :: "pystr \<Rightarrow> pystr \<Rightarrow> bool \<Rightarrow> history \<Rightarrow> history" where
  "caller_row fresh text final s =
     (if hs_closed s \<or> strip text = [] then s
      else
        (let segment = (case hs_pending s of Some p \<Rightarrow> row_segment p | None \<Rightarrow> str ''caller-'' @ fresh);
             combined = join [32] (hs_caller_finals s @ [text])
         in case make_row segment (str ''user'') combined False s of
              (s, row) \<Rightarrow>
                (let s = s\<lparr>hs_pending := Some row\<rparr>;
                     s = (if final then s\<lparr>hs_caller_finals := hs_caller_finals s @ [text]\<rparr> else s)
                 in enqueue_row row s)))"

definition is_speaker :: "pystr \<Rightarrow> bool" where
  "is_speaker role \<longleftrightarrow> role = str ''user'' \<or> role = str ''assistant''"

definition item_segment :: "chat_item \<Rightarrow> history \<Rightarrow> pystr" where
  "item_segment item s =
     (case hs_pending s of
        Some p \<Rightarrow> if item_role item = str ''user'' then row_segment p else item_id item
      | None \<Rightarrow> item_id item)"

definition item_row :: "chat_item \<Rightarrow> history \<Rightarrow> history" where
  "item_row item s =
     (case item_text item of
        None \<Rightarrow> s
      | Some text \<Rightarrow>
          if hs_closed s \<or> \<not> is_speaker (item_role item) \<or> text = [] then s
          else
            (case make_row (item_segment item s) (item_role item) text True s of
               (s', row) \<Rightarrow>
                 (let row = row\<lparr>row_id := item_id item\<rparr>;
                      s' = s'\<lparr>hs_committed := (hs_committed s')(item_id item \<mapsto> (item_segment item s, row_sequence row))\<rparr>;
                      s' = (if item_role item = str ''user''
                            then s'\<lparr>hs_pending := None, hs_caller_finals := []\<rparr> else s')
                  in enqueue_row row s')))"

section \<open>The snapshot\<close>

text \<open>Committed messages of the session's history, then the pending row.\<close>

definition committed_row :: "history \<Rightarrow> chat_item \<Rightarrow> row list" where
  "committed_row s item =
     (if item_type item \<noteq> str ''message'' \<or> \<not> is_speaker (item_role item) then []
      else case item_text item of
        None \<Rightarrow> []
      | Some text \<Rightarrow>
          if text = [] then []
          else (case (case hs_committed s (item_id item) of None \<Rightarrow> (item_id item, 0) | Some c \<Rightarrow> c) of
                  (segment, sequence) \<Rightarrow>
                    [\<lparr>row_id = item_id item, row_segment = segment, row_role = item_role item,
                      row_text = text, row_final = True, row_sequence = sequence\<rparr>]))"

definition snapshot_rows :: "chat_item list \<Rightarrow> history \<Rightarrow> row list" where
  "snapshot_rows items s =
     concat (map (committed_row s) items) @ (case hs_pending s of None \<Rightarrow> [] | Some p \<Rightarrow> [p])"

definition row_json :: "row \<Rightarrow> json" where
  "row_json r =
     JObj [(str ''id'', JStr (row_id r)), (str ''segment_id'', JStr (row_segment r)),
       (str ''role'', JStr (row_role r)), (str ''content'', JArr [JStr (row_text r)]),
       (str ''is_final'', JBool (row_final r)), (str ''sequence'', JInt (int (row_sequence r)))]"

definition snapshot :: "chat_item list \<Rightarrow> history \<Rightarrow> json" where
  "snapshot items s =
     JObj [(str ''callId'', JStr (hs_call_id s)), (str ''items'', JArr (map row_json (snapshot_rows items s)))]"

section \<open>The RPC\<close>

text \<open>
  One invocation: the caller, its payload, its participant's attributes if it is in the room,
  whether the transcript is available, the clock, a random id and the session's items.
\<close>

record rpc =
  rpc_caller :: pystr
  rpc_payload :: pystr
  rpc_attributes :: "(pystr \<Rightarrow> pystr option) option"
  rpc_available :: bool
  rpc_now :: rat
  rpc_fresh :: pystr
  rpc_items :: "chat_item list"

definition observer_prefix :: pystr where
  "observer_prefix = str ''admin-observer-''"

definition is_authorized :: "rpc \<Rightarrow> history \<Rightarrow> bool" where
  "is_authorized rpc s \<longleftrightarrow>
     \<not> hs_closed s \<and> rpc_available rpc
     \<and> (case rpc_attributes rpc of
          None \<Rightarrow> False
        | Some attributes \<Rightarrow>
            prefix observer_prefix (rpc_caller rpc)
            \<and> attributes (str ''aida.transcriptObserver'') = Some (hs_room_name s))"

text \<open>The payload: an object with a non-negative integer offset, absent meaning zero.\<close>

definition rpc_request :: "python \<Rightarrow> pystr \<Rightarrow> (fields \<times> nat) result" where
  "rpc_request py payload =
     (case json_loads (plain_opts (repr_float py)) (rec_limit py)
             (RawStr (if payload = [] then str ''{}'' else payload)) of
        Inl e \<Rightarrow> if is_value_error e then Inl (RpcError 2002 ''Invalid transcript request'') else Inl e
      | Inr (JObj request) \<Rightarrow>
          (case get request ''offset'' of
             None \<Rightarrow> Inr (request, 0)
           | Some (JInt i) \<Rightarrow>
               if i < 0 then Inl (RpcError 2002 ''Invalid transcript request'') else Inr (request, nat i)
           | Some v \<Rightarrow> Inl (RpcError 2002 ''Invalid transcript request''))
      | Inr v \<Rightarrow> Inl (RpcError 2002 ''Invalid transcript request''))"

definition drop_expired :: "rat \<Rightarrow> history \<Rightarrow> history" where
  "drop_expired now s =
     s\<lparr>hs_snapshots := filter (\<lambda>(k, t, _, _). now - t < 60) (hs_snapshots s)\<rparr>"

text \<open>At offset zero a new snapshot is frozen for the caller.\<close>

definition freeze :: "rpc \<Rightarrow> history \<Rightarrow> history result" where
  "freeze rpc s =
     (let text = json_dumps compact_ascii (snapshot (rpc_items rpc) s) in
      if MAX_SNAPSHOT_CHARS < length text
      then Inl (RpcError 2003 ''Transcript exceeds history transfer limit'')
      else if 32 \<le> length (hs_snapshots s) \<and> lookup (rpc_caller rpc) (hs_snapshots s) = None
      then Inl (RpcError 2004 ''Transcript history busy; retry'')
      else Inr (s\<lparr>hs_snapshots :=
                    remember_as (rpc_caller rpc) (rpc_now rpc, rpc_fresh rpc, text) (hs_snapshots s)\<rparr>))"

definition page_json :: "pystr \<Rightarrow> pystr \<Rightarrow> nat option \<Rightarrow> json" where
  "page_json token text next =
     JObj [(str ''snapshotId'', JStr token), (str ''text'', JStr text),
       (str ''nextOffset'', case next of None \<Rightarrow> JNull | Some n \<Rightarrow> JInt (int n))]"

text \<open>One page of the caller's snapshot; the last page forgets it.\<close>

definition page :: "rpc \<Rightarrow> fields \<Rightarrow> nat \<Rightarrow> history \<Rightarrow> history \<times> pystr result" where
  "page rpc request offset s =
     (case lookup (rpc_caller rpc) (hs_snapshots s) of
        None \<Rightarrow> (s, Inl (RpcError 2002 ''Transcript snapshot expired; retry''))
      | Some (t, token, text) \<Rightarrow>
          if length text \<le> offset \<or> (offset \<noteq> 0 \<and> get request ''snapshotId'' \<noteq> Some (JStr token))
          then (s, Inl (RpcError 2002 ''Transcript snapshot expired; retry''))
          else
            (let end = min (offset + PAGE_CHARS) (length text);
                 result = json_dumps default_dump
                   (page_json token (take (end - offset) (drop offset text))
                     (if end < length text then Some end else None))
             in (if end = length text
                 then s\<lparr>hs_snapshots := forget (rpc_caller rpc) (hs_snapshots s)\<rparr> else s,
                 Inr result)))"

definition get_transcript :: "python \<Rightarrow> rpc \<Rightarrow> history \<Rightarrow> history \<times> pystr result" where
  "get_transcript py rpc s =
     (if \<not> is_authorized rpc s then (s, Inl (RpcError 2001 ''Transcript access unavailable''))
      else case rpc_request py (rpc_payload rpc) of
        Inl e \<Rightarrow> (s, Inl e)
      | Inr (request, offset) \<Rightarrow>
          (let s = drop_expired (rpc_now rpc) s in
           if offset = 0
           then (case freeze rpc s of Inl e \<Rightarrow> (s, Inl e) | Inr s \<Rightarrow> page rpc request offset s)
           else page rpc request offset s))"

section \<open>The sender of live updates\<close>

text \<open>The attributes of one update; its text is the row's.\<close>

definition row_attributes :: "history \<Rightarrow> row \<Rightarrow> (pystr \<times> pystr) list" where
  "row_attributes s r =
     [(str ''lk.segment_id'', row_segment r),
      (str ''lk.transcription_final'', if row_final r then str ''true'' else str ''false''),
      (str ''aida.call_id'', hs_call_id s),
      (str ''aida.speaker'', if row_role r = str ''user'' then str ''caller'' else str ''assistant''),
      (str ''aida.sequence'', show_nat (row_sequence r))]"

definition sender_round :: "history \<Rightarrow> history" where
  "sender_round s = s\<lparr>hs_sender := if hs_closed s then Returned else Awaiting\<rparr>"

definition start_history :: "history \<Rightarrow> history" where
  "start_history s = (if hs_sender s = NotStarted then sender_round s else s)"

definition take_row :: "history \<Rightarrow> history" where
  "take_row s =
     (if hs_sender s \<noteq> Awaiting then s
      else case get_nowait (hs_queue s) of
        None \<Rightarrow> s
      | Some (row, q) \<Rightarrow> s\<lparr>hs_queue := q, hs_sent := hs_sent s @ [row], hs_sender := Sending\<rparr>)"

text \<open>Delivered or not, the sender goes on.\<close>

definition delivery_ended :: "history \<Rightarrow> history" where
  "delivery_ended s = (if hs_sender s \<noteq> Sending then s else sender_round s)"

definition close_history :: "history \<Rightarrow> history" where
  "close_history s =
     s\<lparr>hs_closed := True, hs_snapshots := [],
       hs_sender := if hs_sender s = NotStarted then NotStarted else Returned\<rparr>"

datatype history_event =
    CallerRow pystr pystr bool
  | ItemRow chat_item
  | Rpc rpc
  | StartHistory
  | TakeRow
  | DeliveryEnded
  | CloseHistory

fun history_step :: "python \<Rightarrow> history \<Rightarrow> history_event \<Rightarrow> history" where
  "history_step py s (CallerRow fresh text final) = caller_row fresh text final s"
| "history_step py s (ItemRow item) = item_row item s"
| "history_step py s (Rpc rpc) = fst (get_transcript py rpc s)"
| "history_step py s StartHistory = start_history s"
| "history_step py s TakeRow = take_row s"
| "history_step py s DeliveryEnded = delivery_ended s"
| "history_step py s CloseHistory = close_history s"

section \<open>The invariant\<close>

text \<open>
  The live updates sent and queued are in strictly increasing sequence, the pending row is
  a partial one of the present sequence, and there are at most 32 frozen snapshots.
\<close>

definition rows_inv :: "history \<Rightarrow> bool" where
  "rows_inv s \<longleftrightarrow>
     sorted_wrt (<) (map row_sequence (hs_sent s @ hs_queue s))
     \<and> list_all (\<lambda>r. row_sequence r \<le> hs_sequence s) (hs_sent s @ hs_queue s)
     \<and> length (hs_queue s) \<le> queue_size
     \<and> (\<forall>p. hs_pending s = Some p \<longrightarrow>
          row_sequence p \<le> hs_sequence s \<and> \<not> row_final p \<and> row_role p = str ''user'')
     \<and> (\<forall>k g n. hs_committed s k = Some (g, n) \<longrightarrow> n \<le> hs_sequence s)"

definition snapshots_inv :: "history \<Rightarrow> bool" where
  "snapshots_inv s \<longleftrightarrow> distinct (map fst (hs_snapshots s)) \<and> length (hs_snapshots s) \<le> 32"

definition history_inv :: "history \<Rightarrow> bool" where
  "history_inv s \<longleftrightarrow> rows_inv s \<and> snapshots_inv s"

lemma new_history_inv: "history_inv (new_history call_id room_name)"
  by (simp add: history_inv_def rows_inv_def snapshots_inv_def new_history_def)

text \<open>Queuing a row whose number is larger than all before.\<close>

definition bump :: "row option \<Rightarrow> pystr list \<Rightarrow> (pystr \<Rightarrow> (pystr \<times> nat) option) \<Rightarrow> history \<Rightarrow> history" where
  "bump p l c s = s\<lparr>hs_sequence := Suc (hs_sequence s), hs_pending := p, hs_caller_finals := l,
     hs_committed := c\<rparr>"

lemma bump_rows_inv:
  assumes "rows_inv s"
    and "\<And>q. p = Some q \<Longrightarrow> row_sequence q \<le> Suc (hs_sequence s) \<and> \<not> row_final q \<and> row_role q = str ''user''"
    and "\<And>k g n. c k = Some (g, n) \<Longrightarrow> n \<le> Suc (hs_sequence s)"
  shows "rows_inv (bump p l c s)"
  using assms by (auto simp: rows_inv_def bump_def list_all_iff le_SucI)

lemma enqueue_rows_inv:
  assumes "rows_inv s" "row_sequence row = hs_sequence s"
    and "list_all (\<lambda>r. row_sequence r < hs_sequence s) (hs_sent s @ hs_queue s)"
  shows "rows_inv (enqueue_row row s)"
proof (cases "put_nowait queue_size (hs_queue s) row")
  case None
  with assms(1) show ?thesis by (simp add: enqueue_row_def)
next
  case (Some q)
  have "length (id (hs_queue s)) \<le> queue_size" using assms(1) by (simp add: rows_inv_def)
  from channel.put_items [OF this Some] have "q = hs_queue s @ [row]" "length q \<le> queue_size" by simp_all
  with Some assms show ?thesis
    by (auto simp: enqueue_row_def rows_inv_def list_all_iff sorted_wrt_append)
qed

lemma bump_enqueue_rows_inv:
  assumes "rows_inv s" "row_sequence row = Suc (hs_sequence s)"
    and "\<And>q. p = Some q \<Longrightarrow> row_sequence q \<le> Suc (hs_sequence s) \<and> \<not> row_final q \<and> row_role q = str ''user''"
    and "\<And>k g n. c k = Some (g, n) \<Longrightarrow> n \<le> Suc (hs_sequence s)"
  shows "rows_inv (enqueue_row row (bump p l c s))"
proof (rule enqueue_rows_inv [OF bump_rows_inv])
  show "list_all (\<lambda>r. row_sequence r < hs_sequence (bump p l c s))
      (hs_sent (bump p l c s) @ hs_queue (bump p l c s))"
    using assms(1) by (auto simp: rows_inv_def bump_def list_all_iff le_imp_less_Suc)
qed (use assms in \<open>auto simp: bump_def\<close>)

text \<open>The two operations that make rows, as such a step.\<close>

lemma caller_row_bump:
  assumes "\<not> hs_closed s" "strip text \<noteq> []"
  obtains row where "caller_row fresh text final s
      = enqueue_row row (bump (Some row) (if final then hs_caller_finals s @ [text] else hs_caller_finals s)
          (hs_committed s) s)"
    "row_sequence row = Suc (hs_sequence s)" "\<not> row_final row" "row_role row = str ''user''"
    "row_segment row = (case hs_pending s of Some p \<Rightarrow> row_segment p | None \<Rightarrow> str ''caller-'' @ fresh)"
    "row_text row = join [32] (hs_caller_finals s @ [text])"
proof -
  let ?g = "case hs_pending s of Some p \<Rightarrow> row_segment p | None \<Rightarrow> str ''caller-'' @ fresh"
  let ?row = "\<lparr>row_id = ?g, row_segment = ?g, row_role = str ''user'',
    row_text = join [32] (hs_caller_finals s @ [text]), row_final = False,
    row_sequence = Suc (hs_sequence s)\<rparr>"
  have "caller_row fresh text final s
      = enqueue_row ?row (bump (Some ?row) (if final then hs_caller_finals s @ [text] else hs_caller_finals s)
          (hs_committed s) s)"
    using assms by (simp add: caller_row_def make_row_def bump_def Let_def)
  from that [OF this] show thesis by simp
qed

lemma item_row_bump:
  assumes "\<not> hs_closed s" "is_speaker (item_role item)" "item_text item = Some text" "text \<noteq> []"
  obtains row where "item_row item s
      = enqueue_row row (bump (if item_role item = str ''user'' then None else hs_pending s)
          (if item_role item = str ''user'' then [] else hs_caller_finals s)
          ((hs_committed s)(item_id item \<mapsto> (item_segment item s, Suc (hs_sequence s)))) s)"
    "row_sequence row = Suc (hs_sequence s)" "row_id row = item_id item"
    "row_segment row = item_segment item s" "row_final row" "row_text row = text"
proof -
  let ?row = "\<lparr>row_id = item_id item, row_segment = item_segment item s, row_role = item_role item,
    row_text = text, row_final = True, row_sequence = Suc (hs_sequence s)\<rparr>"
  have "item_row item s
      = enqueue_row ?row (bump (if item_role item = str ''user'' then None else hs_pending s)
          (if item_role item = str ''user'' then [] else hs_caller_finals s)
          ((hs_committed s)(item_id item \<mapsto> (item_segment item s, Suc (hs_sequence s)))) s)"
    using assms by (cases s) (simp add: item_row_def item_segment_def make_row_def bump_def Let_def)
  from that [OF this] show thesis by simp
qed

lemma caller_row_skip: "hs_closed s \<or> strip text = [] \<Longrightarrow> caller_row fresh text final s = s"
  by (auto simp: caller_row_def)

lemma item_row_skip:
  "\<not> (\<exists>text. \<not> hs_closed s \<and> is_speaker (item_role item) \<and> item_text item = Some text \<and> text \<noteq> []) \<Longrightarrow>
     item_row item s = s"
  by (auto simp: item_row_def split: option.split)

lemma caller_rows_inv:
  assumes "rows_inv s"
  shows "rows_inv (caller_row fresh text final s)"
proof (cases "hs_closed s \<or> strip text = []")
  case True
  with assms show ?thesis by (simp add: caller_row_skip)
next
  case False
  then have a: "\<not> hs_closed s" "strip text \<noteq> []" by auto
  obtain row where c: "caller_row fresh text final s
      = enqueue_row row (bump (Some row) (if final then hs_caller_finals s @ [text] else hs_caller_finals s)
          (hs_committed s) s)"
    and r: "row_sequence row = Suc (hs_sequence s)" "\<not> row_final row" "row_role row = str ''user''"
    using caller_row_bump [OF a, of fresh final] by metis
  show ?thesis unfolding c
    using assms r by (intro bump_enqueue_rows_inv) (auto simp: rows_inv_def intro: le_SucI)
qed

lemma item_rows_inv:
  assumes "rows_inv s"
  shows "rows_inv (item_row item s)"
proof (cases "\<exists>text. \<not> hs_closed s \<and> is_speaker (item_role item) \<and> item_text item = Some text \<and> text \<noteq> []")
  case False
  with assms show ?thesis by (simp add: item_row_skip)
next
  case True
  then obtain t row where c: "item_row item s
      = enqueue_row row (bump (if item_role item = str ''user'' then None else hs_pending s)
          (if item_role item = str ''user'' then [] else hs_caller_finals s)
          ((hs_committed s)(item_id item \<mapsto> (item_segment item s, Suc (hs_sequence s)))) s)"
    and r: "row_sequence row = Suc (hs_sequence s)"
    by (auto elim: item_row_bump)
  show ?thesis unfolding c
    using assms r
    by (intro bump_enqueue_rows_inv) (auto simp: rows_inv_def intro: le_SucI split: if_splits)
qed

lemma make_rows_snapshots [simp]:
  "hs_snapshots (caller_row fresh text final s) = hs_snapshots s"
  "hs_snapshots (item_row item s) = hs_snapshots s"
  by (auto simp: caller_row_def item_row_def make_row_def enqueue_row_def Let_def split: option.split)

lemma make_rows_frame [simp]:
  "hs_closed (caller_row fresh text final s) = hs_closed s" "hs_closed (item_row item s) = hs_closed s"
  "hs_room_name (caller_row fresh text final s) = hs_room_name s"
  "hs_room_name (item_row item s) = hs_room_name s"
  by (auto simp: caller_row_def item_row_def make_row_def enqueue_row_def Let_def split: option.split)

lemma drop_expired_inv: "snapshots_inv s \<Longrightarrow> snapshots_inv (drop_expired now s)"
  by (auto simp: snapshots_inv_def drop_expired_def distinct_map_filter intro: order_trans [OF length_filter_le])

lemma freeze_inv: "snapshots_inv s \<Longrightarrow> freeze rpc s = Inr s' \<Longrightarrow> snapshots_inv s'"
  by (auto simp: snapshots_inv_def freeze_def Let_def remember_as_distinct remember_as_length split: if_splits)

lemma page_inv: "snapshots_inv s \<Longrightarrow> snapshots_inv (fst (page rpc request offset s))"
  by (auto simp: page_def snapshots_inv_def forget_def distinct_map_filter Let_def
      intro: order_trans [OF length_filter_le] split: option.split)

lemma get_transcript_inv: "snapshots_inv s \<Longrightarrow> snapshots_inv (fst (get_transcript py rpc s))"
  by (auto simp: get_transcript_def Let_def intro: page_inv drop_expired_inv freeze_inv split: sum.split)

lemma get_transcript_rows [simp]: "rows_inv (fst (get_transcript py rpc s)) = rows_inv s"
  by (auto simp: get_transcript_def page_def freeze_def drop_expired_def rows_inv_def Let_def
      split: sum.split option.split)

lemma take_rows_inv: "rows_inv s \<Longrightarrow> rows_inv (take_row s)"
  using channel.get_items [of "hs_queue s"]
  by (auto simp: take_row_def rows_inv_def split: option.split)

lemma history_step_inv: "history_inv s \<Longrightarrow> history_inv (history_step py s e)"
proof (cases e)
  case (CallerRow fresh t final)
  then show "history_inv s \<Longrightarrow> ?thesis"
    using caller_rows_inv [of s] by (auto simp: history_inv_def snapshots_inv_def)
next
  case (ItemRow item)
  then show "history_inv s \<Longrightarrow> ?thesis"
    using item_rows_inv [of s] by (auto simp: history_inv_def snapshots_inv_def)
next
  case (Rpc rpc)
  then show "history_inv s \<Longrightarrow> ?thesis"
    using get_transcript_inv [of s] by (auto simp: history_inv_def)
next
  case TakeRow
  then show "history_inv s \<Longrightarrow> ?thesis"
    using take_rows_inv [of s]
    by (auto simp: history_inv_def snapshots_inv_def take_row_def split: option.split)
qed (auto simp: history_inv_def rows_inv_def snapshots_inv_def start_history_def delivery_ended_def
    sender_round_def close_history_def)

interpretation transcript: event_machine "history_step py" history_inv for py
  by unfold_locales (rule history_step_inv)

section \<open>What an observer can get\<close>

lemma get_transcript_refused:
  "\<not> is_authorized rpc s \<Longrightarrow>
     get_transcript py rpc s = (s, Inl (RpcError 2001 ''Transcript access unavailable''))"
  by (simp add: get_transcript_def)

definition rpc_error :: "exn \<Rightarrow> bool" where
  "rpc_error e \<longleftrightarrow> (\<exists>code m. e = RpcError code m \<and> code \<in> {2001, 2002, 2003, 2004})"

lemma rpc_request_error: "rpc_request py payload = Inl e \<Longrightarrow> rpc_error e \<or> e = RecursionError"
  by (auto simp: rpc_request_def rpc_error_def split: sum.splits json.splits option.splits if_splits
      dest!: json_loads_error)

lemma get_transcript_error:
  "snd (get_transcript py rpc s) = Inl e \<Longrightarrow> rpc_error e \<or> e = RecursionError"
  by (auto simp: get_transcript_def freeze_def page_def Let_def rpc_error_def
      split: sum.splits option.splits if_splits dest: rpc_request_error [unfolded rpc_error_def])

text \<open>The rows whose JSON can be read back: no lone surrogate and numbers of a readable size.\<close>

definition row_wf :: "row \<Rightarrow> bool" where
  "row_wf r \<longleftrightarrow>
     list_all is_scalar (row_id r) \<and> list_all is_scalar (row_segment r) \<and> list_all is_scalar (row_role r)
     \<and> list_all is_scalar (row_text r) \<and> length (show_nat (row_sequence r)) \<le> max_int_digits"

definition snapshot_wf :: "chat_item list \<Rightarrow> history \<Rightarrow> bool" where
  "snapshot_wf items s \<longleftrightarrow> list_all is_scalar (hs_call_id s) \<and> list_all row_wf (snapshot_rows items s)"

lemma snapshot_json_wf: "snapshot_wf items s \<Longrightarrow> wf_json (snapshot items s)"
  by (auto simp: snapshot_wf_def snapshot_def row_json_def row_wf_def list_all_iff str_scalar [unfolded list_all_iff])

lemma snapshot_depth: "jdepth (snapshot items s) \<le> 4"
proof -
  have "jdepth (row_json r) = 2" for r by (simp add: row_json_def)
  then have "foldr (\<lambda>v m. max (jdepth v) m) (map row_json rs) 0 \<le> 2" for rs
    by (induction rs) auto
  then show ?thesis by (simp add: snapshot_def)
qed

text \<open>The frozen text of a snapshot, and its size on the wire page by page.\<close>

definition frozen_text :: "chat_item list \<Rightarrow> history \<Rightarrow> pystr" where
  "frozen_text items s = json_dumps compact_ascii (snapshot items s)"

lemma frozen_printable: "snapshot_wf items s \<Longrightarrow> list_all is_printable (frozen_text items s)"
  unfolding frozen_text_def
  by (rule compact_wire.enc_printable [of _ "4"]) (simp add: snapshot_json_wf snapshot_depth)

lemma page_length:
  assumes "list_all is_printable token" "length token \<le> 36" "list_all is_printable text"
    "length text \<le> PAGE_CHARS" "nxt = None \<or> (\<exists>n. nxt = Some n \<and> n \<le> MAX_SNAPSHOT_CHARS)"
  shows "length (json_dumps default_dump (page_json token text nxt)) < 15 * 1024"
proof -
  have k: "list_all is_printable (str ''snapshotId'')" "list_all is_printable (str ''text'')"
    "list_all is_printable (str ''nextOffset'')"
    by (simp_all add: str_def)
  have n: "length (show_int (int n)) \<le> 7" if "n \<le> MAX_SNAPSHOT_CHARS" for n
    using length_show_nat_le [of 7 n] that by (simp add: show_int_def MAX_SNAPSHOT_CHARS_def)
  have v: "length (json_dumps default_dump (case nxt of None \<Rightarrow> JNull | Some n \<Rightarrow> JInt (int n))) \<le> 7"
    using assms(5) n by (auto simp: str_def)
  have "length (json_dumps default_dump (page_json token text nxt))
    \<le> length (quote True token) + length (quote True text) + 7 + 100"
    using v quote_length_printable [OF k(1), of True] quote_length_printable [OF k(2), of True]
      quote_length_printable [OF k(3), of True]
    by (simp add: page_json_def default_dump_def)
  then show ?thesis
    using assms quote_length_printable [OF assms(1), of True] quote_length_printable [OF assms(3), of True]
    by (simp add: PAGE_CHARS_def)
qed

section \<open>The size of a page\<close>

text \<open>
  Whatever the texts are, lone surrogates included, the frozen text is printable ASCII. What
  the SDK supplies is made of code points, and a random id is 36 printable characters.
\<close>

definition row_codepoints :: "row \<Rightarrow> bool" where
  "row_codepoints r \<longleftrightarrow>
     list_all is_codepoint (row_id r) \<and> list_all is_codepoint (row_segment r)
     \<and> list_all is_codepoint (row_role r) \<and> list_all is_codepoint (row_text r)"

definition item_codepoints :: "chat_item \<Rightarrow> bool" where
  "item_codepoints item \<longleftrightarrow>
     list_all is_codepoint (item_id item) \<and> list_all is_codepoint (item_role item)
     \<and> (\<forall>t. item_text item = Some t \<longrightarrow> list_all is_codepoint t)"

definition random_id :: "pystr \<Rightarrow> bool" where
  "random_id u \<longleftrightarrow> list_all is_printable u \<and> length u = 36"

fun event_codepoints :: "history_event \<Rightarrow> bool" where
  "event_codepoints (CallerRow fresh text final) = (random_id fresh \<and> list_all is_codepoint text)"
| "event_codepoints (ItemRow item) = item_codepoints item"
| "event_codepoints (Rpc rpc) = (random_id (rpc_fresh rpc) \<and> list_all item_codepoints (rpc_items rpc))"
| "event_codepoints e = True"

definition texts_inv :: "history \<Rightarrow> bool" where
  "texts_inv s \<longleftrightarrow>
     list_all is_codepoint (hs_call_id s)
     \<and> (\<forall>p. hs_pending s = Some p \<longrightarrow> row_codepoints p)
     \<and> (\<forall>k. pred_option (\<lambda>c. list_all is_codepoint (fst c)) (hs_committed s k))
     \<and> list_all (list_all is_codepoint) (hs_caller_finals s)
     \<and> list_all (\<lambda>(k, t, token, text). random_id token \<and> list_all is_printable text \<and> length text \<le> MAX_SNAPSHOT_CHARS)
          (hs_snapshots s)"

lemma str_codepoints [simp]: "list_all is_codepoint (str cs)"
  by (rule is_scalar_codepoint) (rule str_scalar)

lemma random_id_codepoints: "random_id u \<Longrightarrow> list_all is_codepoint u"
  by (simp add: random_id_def is_scalar_codepoint printable_scalar)

lemma row_json_printable:
  assumes "row_codepoints r"
  shows "list_all is_printable (json_dumps compact_ascii (row_json r))"
proof -
  have "list_all is_printable (show_nat n)" for n
    using show_nat_digits [of n] by (auto simp: list_all_iff is_digit_def is_printable_def)
  then show ?thesis
    using assms
    by (auto simp: row_json_def row_codepoints_def compact_ascii_def show_int_def quote_printable
        str_codepoints is_printable_def intro!: join_all)
       (auto simp: str_def is_printable_def)
qed

lemma snapshot_rows_codepoints:
  assumes "texts_inv s" "list_all item_codepoints items"
  shows "list_all row_codepoints (snapshot_rows items s)"
proof -
  have "list_all row_codepoints (committed_row s item)" if "item_codepoints item" for item
  proof (cases "hs_committed s (item_id item)")
    case None
    with that show ?thesis
      by (auto simp: committed_row_def item_codepoints_def row_codepoints_def split: option.split)
  next
    case (Some c)
    moreover have "pred_option (\<lambda>c. list_all is_codepoint (fst c)) (hs_committed s (item_id item))"
      using assms(1) by (simp add: texts_inv_def)
    ultimately show ?thesis
      using that
      by (cases c) (auto simp: committed_row_def item_codepoints_def row_codepoints_def split: option.split)
  qed
  then show ?thesis
    using assms by (auto simp: snapshot_rows_def texts_inv_def list_all_iff split: option.split)
qed

lemma frozen_text_printable:
  assumes "texts_inv s" "list_all item_codepoints items"
  shows "list_all is_printable (frozen_text items s)"
proof -
  have c: "list_all is_printable (quote True (hs_call_id s))"
    using assms(1) by (simp add: texts_inv_def quote_printable)
  have r: "list_all is_printable (json_dumps compact_ascii (JArr (map row_json (snapshot_rows items s))))"
  proof -
    have "\<forall>x \<in> set (map (json_dumps compact_ascii \<circ> row_json) (snapshot_rows items s)). list_all is_printable x"
      using snapshot_rows_codepoints [OF assms] row_json_printable by (auto simp: list_all_iff)
    moreover have "list_all is_printable (item_separator compact_ascii)"
      by (simp add: compact_ascii_def str_def is_printable_def)
    ultimately show ?thesis by (simp add: join_all is_printable_def)
  qed
  have k: "list_all is_printable (quote True (str ''callId''))" "list_all is_printable (quote True (str ''items''))"
    by (simp_all add: quote_printable)
  show ?thesis
    using c r k
    by (simp add: frozen_text_def snapshot_def compact_ascii_def) (simp add: str_def is_printable_def)
qed

lemma join_codepoints: "list_all (list_all is_codepoint) xs \<Longrightarrow> list_all is_codepoint (join [32] xs)"
  by (rule join_all) (simp_all add: list_all_iff is_codepoint_def)

lemma enqueue_texts [simp]: "texts_inv (enqueue_row r s) = texts_inv s"
  by (simp add: texts_inv_def enqueue_row_def split: option.split)

lemma caller_texts_inv:
  assumes "texts_inv s" "random_id fresh" "list_all is_codepoint t"
  shows "texts_inv (caller_row fresh t final s)"
proof -
  have "list_all is_codepoint (join [32] (hs_caller_finals s @ [t]))"
    using assms by (intro join_codepoints) (simp add: texts_inv_def)
  moreover have "list_all is_codepoint (str ''caller-'' @ fresh)"
    using assms(2) by (simp add: random_id_codepoints)
  ultimately show ?thesis
    using assms
    by (auto simp: caller_row_def make_row_def Let_def) (auto simp: texts_inv_def row_codepoints_def split: option.splits)
qed

lemma item_texts_inv: "texts_inv s \<Longrightarrow> item_codepoints item \<Longrightarrow> texts_inv (item_row item s)"
  by (auto simp: item_row_def make_row_def Let_def split: option.split)
     (auto simp: texts_inv_def item_codepoints_def item_segment_def row_codepoints_def split: option.splits if_splits)

lemma page_texts_inv: "texts_inv s \<Longrightarrow> texts_inv (fst (page rpc request offset s))"
  by (auto simp: page_def texts_inv_def forget_def Let_def list_all_iff split: option.split)

lemma drop_texts_inv: "texts_inv s \<Longrightarrow> texts_inv (drop_expired now s)"
  by (auto simp: drop_expired_def texts_inv_def list_all_iff)

lemma freeze_texts_inv:
  assumes "texts_inv s" "event_codepoints (Rpc rpc)" "freeze rpc s = Inr s'"
  shows "texts_inv s'"
proof -
  have "list_all is_printable (json_dumps compact_ascii (snapshot (rpc_items rpc) s))"
    using frozen_text_printable [of s "rpc_items rpc"] assms by (simp add: frozen_text_def)
  with assms show ?thesis
    by (auto simp: freeze_def Let_def texts_inv_def remember_as_all simp del: not_None_eq split: if_splits)
qed

lemma history_step_texts: "texts_inv s \<Longrightarrow> event_codepoints e \<Longrightarrow> texts_inv (history_step py s e)"
proof (induction py s e rule: history_step.induct)
  case (1 py s fresh t final)
  then show ?case by (simp add: caller_texts_inv)
next
  case (2 py s item)
  then show ?case by (simp add: item_texts_inv)
next
  case (3 py s rpc)
  then have "texts_inv x" if "freeze rpc (drop_expired (rpc_now rpc) s) = Inr x" for x
    using freeze_texts_inv [OF drop_texts_inv _ that] by simp
  with 3 show ?case
    by (auto simp: get_transcript_def Let_def split: sum.split intro: page_texts_inv drop_texts_inv)
qed (auto simp: start_history_def take_row_def delivery_ended_def
    sender_round_def close_history_def texts_inv_def split: option.split)

lemma history_run_texts:
  "texts_inv s \<Longrightarrow> list_all event_codepoints es \<Longrightarrow> texts_inv (run (history_step py) s es)"
  by (induction es arbitrary: s) (simp_all add: history_step_texts)

lemma page_result_length:
  assumes "texts_inv s" "snd (page rpc request offset s) = Inr reply"
  shows "length reply < 15 * 1024"
proof -
  obtain t token body where l: "lookup (rpc_caller rpc) (hs_snapshots s) = Some (t, token, body)"
    and o: "offset < length body"
    and r: "reply = json_dumps default_dump (page_json token
      (take (min (offset + PAGE_CHARS) (length body) - offset) (drop offset body))
      (if min (offset + PAGE_CHARS) (length body) < length body
       then Some (min (offset + PAGE_CHARS) (length body)) else None))"
    using assms(2) by (auto simp: page_def Let_def split: option.splits if_splits)
  have t: "random_id token \<and> list_all is_printable body \<and> length body \<le> MAX_SNAPSHOT_CHARS"
    using lookup_all [OF l, of "\<lambda>(k, t, token, text). random_id token \<and> list_all is_printable text
      \<and> length text \<le> MAX_SNAPSHOT_CHARS"] assms(1) by (simp add: texts_inv_def)
  have p: "list_all is_printable (take n (drop offset body))" for n
    using t by (auto simp: list_all_iff dest!: in_set_takeD in_set_dropD)
  show ?thesis unfolding r
    using t p by (intro page_length) (auto simp: random_id_def)
qed

text \<open>C31.
  Every reply of the transcript RPC is shorter than 15 KiB, LiveKit's limit, whatever the
  call's texts are (quotes, backslashes, control characters, lone surrogates): at most 6,000
  characters of an ASCII snapshot, each at most doubled, and the envelope.
\<close>

theorem page_fits:
  assumes "list_all is_codepoint call_id" "list_all event_codepoints (es @ [Rpc rpc])"
    and "snd (get_transcript py rpc (run (history_step py) (new_history call_id room) es)) = Inr reply"
  shows "length reply < 15 * 1024"
proof -
  let ?s = "run (history_step py) (new_history call_id room) es"
  have "texts_inv (new_history call_id room)"
    using assms(1) by (simp add: texts_inv_def new_history_def)
  then have "texts_inv ?s" using assms(2) by (intro history_run_texts) simp_all
  then have d: "texts_inv (drop_expired (rpc_now rpc) ?s)" by (rule drop_texts_inv)
  then have "texts_inv x" if "freeze rpc (drop_expired (rpc_now rpc) ?s) = Inr x" for x
    using freeze_texts_inv [OF _ _ that] assms(2) by simp
  with d show ?thesis
    using assms(3)
    by (auto simp: get_transcript_def Let_def split: if_splits sum.splits intro: page_result_length [simplified])
qed

section \<open>Properties\<close>

text \<open>C32.
  The live updates leave in strictly increasing sequence (a full queue drops some, it never
  reorders or repeats), at most 128 wait, and at most 32 observers have a frozen snapshot.
\<close>

theorem live_updates_ordered:
  "sorted_wrt (<) (map row_sequence (hs_sent (run (history_step py) (new_history call_id room) es)
       @ hs_queue (run (history_step py) (new_history call_id room) es)))
   \<and> length (hs_queue (run (history_step py) (new_history call_id room) es)) \<le> 128
   \<and> length (hs_snapshots (run (history_step py) (new_history call_id room) es)) \<le> 32
   \<and> distinct (map fst (hs_snapshots (run (history_step py) (new_history call_id room) es)))"
  using transcript.run_inv [OF new_history_inv, of py call_id room es]
  unfolding history_inv_def rows_inv_def snapshots_inv_def queue_size_def by blast

text \<open>C33.
  A transcript is handed only to an observer's identity whose participant is admitted to
  this room, while the call is open and the transcript available; anybody else gets error
  2001 and changes nothing. The other errors are 2002, 2003 and 2004, and a RecursionError,
  which a deeply nested payload raises and nothing catches.
\<close>

theorem transcript_access:
  "if is_authorized rpc s
   then (case snd (get_transcript py rpc s) of
           Inl e \<Rightarrow> (\<exists>code \<in> {2002, 2003, 2004}. \<exists>m. e = RpcError code m) \<or> e = RecursionError
         | Inr reply \<Rightarrow>
             \<not> hs_closed s \<and> rpc_available rpc \<and> prefix (str ''admin-observer-'') (rpc_caller rpc)
             \<and> (\<exists>attributes. rpc_attributes rpc = Some attributes
                  \<and> attributes (str ''aida.transcriptObserver'') = Some (hs_room_name s)))
   else get_transcript py rpc s = (s, Inl (RpcError 2001 ''Transcript access unavailable''))"
proof (cases "is_authorized rpc s")
  case False
  then show ?thesis by (simp add: get_transcript_refused)
next
  case True
  have e: "(\<exists>code \<in> {2002, 2003, 2004}. \<exists>m. e = RpcError code m) \<or> e = RecursionError"
    if "snd (get_transcript py rpc s) = Inl e" for e
  proof -
    have "(\<exists>m. x = RpcError 2002 m) \<or> x = RecursionError" if "rpc_request py (rpc_payload rpc) = Inl x" for x
      using that by (auto simp: rpc_request_def split: sum.splits json.splits option.splits if_splits
          dest!: json_loads_error)
    with that True show ?thesis
      by (auto simp: get_transcript_def freeze_def page_def Let_def
          split: sum.splits option.splits if_splits)
  qed
  show ?thesis
    using True e by (auto simp: is_authorized_def observer_prefix_def split: sum.split option.splits)
qed

text \<open>One utterance of the caller: transcripts of a turn, then the committed message.\<close>

fun is_caller_event :: "history_event \<Rightarrow> bool" where
  "is_caller_event (CallerRow fresh text final) = True"
| "is_caller_event e = False"

lemma caller_row_pending:
  assumes "\<not> hs_closed s" "hs_pending s = Some p"
  shows "\<exists>q. hs_pending (caller_row fresh text final s) = Some q \<and> row_segment q = row_segment p"
  using assms
  by (auto simp: caller_row_def make_row_def enqueue_row_def Let_def split: option.split)

lemma caller_run_pending:
  "list_all is_caller_event es \<Longrightarrow> \<not> hs_closed s \<Longrightarrow> hs_pending s = Some p \<Longrightarrow>
     \<not> hs_closed (run (history_step py) s es)
     \<and> (\<exists>q. hs_pending (run (history_step py) s es) = Some q \<and> row_segment q = row_segment p)"
proof (induction es arbitrary: s p)
  case (Cons e es)
  then obtain f t b where e: "e = CallerRow f t b" by (cases e) auto
  obtain q where q: "hs_pending (caller_row f t b s) = Some q" "row_segment q = row_segment p"
    using caller_row_pending Cons.prems by metis
  show ?case
    using Cons.IH [of "caller_row f t b s" q] Cons.prems e q by simp
qed simp

lemma caller_row_opens:
  assumes "\<not> hs_closed s" "hs_pending s = None" "strip text \<noteq> []"
  shows "\<exists>q. hs_pending (caller_row fresh text final s) = Some q \<and> row_segment q = str ''caller-'' @ fresh"
  using assms by (auto simp: caller_row_def make_row_def enqueue_row_def Let_def split: option.split)

text \<open>An utterance keeps its segment: whatever transcripts arrive in a caller turn, the live rows
  and the message committed after it carry the segment of the turn's first transcript, and
  no pending row stays, so a snapshot shows the utterance once.
\<close>

theorem utterance_keeps_segment:
  assumes "\<not> hs_closed s" "hs_pending s = None" "strip body \<noteq> []" "list_all is_caller_event es"
    and "item_type item = str ''message''" "item_role item = str ''user''"
    and "item_text item = Some said" "said \<noteq> []"
    and "t = run (history_step py) s (CallerRow fresh body final # es)"
  shows "(\<exists>p. hs_pending t = Some p \<and> row_segment p = str ''caller-'' @ fresh)
    \<and> hs_pending (item_row item t) = None
    \<and> snapshot_rows [item] (item_row item t)
        = [\<lparr>row_id = item_id item, row_segment = str ''caller-'' @ fresh, row_role = str ''user'',
            row_text = said, row_final = True, row_sequence = Suc (hs_sequence t)\<rparr>]"
proof -
  obtain q where q: "hs_pending (caller_row fresh body final s) = Some q" "row_segment q = str ''caller-'' @ fresh"
    using caller_row_opens assms by metis
  have t: "\<not> hs_closed t" "\<exists>p. hs_pending t = Some p \<and> row_segment p = str ''caller-'' @ fresh"
    using caller_run_pending [of es "caller_row fresh body final s" q py] assms q by simp_all
  then obtain p where p: "hs_pending t = Some p" "row_segment p = str ''caller-'' @ fresh" by blast
  have sp: "is_speaker (item_role item)" using assms(6) by (simp add: is_speaker_def)
  obtain row where r: "item_row item t = enqueue_row row (bump None []
      ((hs_committed t)(item_id item \<mapsto> (item_segment item t, Suc (hs_sequence t)))) t)"
    by (rule item_row_bump [OF t(1) sp assms(7,8)]) (simp add: assms(6))
  have c: "hs_pending (item_row item t) = None"
    "hs_committed (item_row item t) (item_id item) = Some (str ''caller-'' @ fresh, Suc (hs_sequence t))"
    using p assms(6) by (simp_all add: r bump_def enqueue_row_def item_segment_def split: option.split)
  have "snapshot_rows [item] (item_row item t)
        = [\<lparr>row_id = item_id item, row_segment = str ''caller-'' @ fresh, row_role = str ''user'',
            row_text = said, row_final = True, row_sequence = Suc (hs_sequence t)\<rparr>]"
    using c sp assms by (simp add: snapshot_rows_def committed_row_def)
  with t(2) c(1) show ?thesis by blast
qed

definition sample_said :: chat_item where
  "sample_said = \<lparr>item_id = str ''item-1'', item_type = str ''message'', item_role = str ''user'',
     item_text = Some (str ''hello there'')\<rparr>"

lemma utterance_keeps_segment_witness:
  "snapshot_rows [sample_said] (item_row sample_said
       (run (history_step plain_python) (new_history (str ''call'') (str ''room''))
         [CallerRow (str ''1'') (str ''hello'') False, CallerRow (str ''2'') (str ''hello there'') True]))
     = [\<lparr>row_id = str ''item-1'', row_segment = str ''caller-'' @ str ''1'', row_role = str ''user'',
         row_text = str ''hello there'', row_final = True,
         row_sequence = Suc (hs_sequence (run (history_step plain_python)
           (new_history (str ''call'') (str ''room''))
           [CallerRow (str ''1'') (str ''hello'') False, CallerRow (str ''2'') (str ''hello there'') True]))\<rparr>]"
proof -
  have b: "strip (str ''hello'') \<noteq> []" by code_simp
  have s: "item_type sample_said = str ''message''" "item_role sample_said = str ''user''"
    "item_text sample_said = Some (str ''hello there'')" "str ''hello there'' \<noteq> []"
    "item_id sample_said = str ''item-1''"
    by (simp_all add: sample_said_def str_def)
  have n: "\<not> hs_closed (new_history (str ''call'') (str ''room''))"
    "hs_pending (new_history (str ''call'') (str ''room'')) = None"
    by (simp_all add: new_history_def)
  from utterance_keeps_segment [OF n b _ s(1-4) refl, of "[CallerRow (str ''2'') (str ''hello there'') True]"
      plain_python "str ''1''" False] s(5)
  show ?thesis by simp
qed

end
