(* ===== verification/Paging.thy ===== *)
theory Paging
  imports History
begin

text \<open>
  The other end of the transcript RPC: an observer that asks page after page, and the proof
  that what it joins is the snapshot that was frozen at its first request, whatever the call
  and the other observers do in between.
\<close>

section \<open>An observer that reads page after page\<close>

text \<open>
  The other end of the RPC: it asks for offset zero, then for each \<open>nextOffset\<close> with the
  \<open>snapshotId\<close> it was given, and joins the texts. \<open>env k\<close> is what the SDK supplies with
  its \<open>k\<close>-th request, \<open>between k\<close> is everything that happens before that request.
\<close>

definition next_payload :: "pystr \<Rightarrow> nat \<Rightarrow> pystr" where
  "next_payload token offset =
     json_dumps default_dump
       (JObj [(str ''offset'', JInt (int offset)), (str ''snapshotId'', JStr token)])"

definition read_reply :: "python \<Rightarrow> pystr \<Rightarrow> (pystr \<times> pystr \<times> nat option) result" where
  "read_reply py reply =
     (case json_loads (plain_opts (repr_float py)) (rec_limit py) (RawStr reply) of
        Inr (JObj f) \<Rightarrow>
          (case (get f ''snapshotId'', get f ''text'', get f ''nextOffset'') of
             (Some (JStr token), Some (JStr text), Some JNull) \<Rightarrow> Inr (token, text, None)
           | (Some (JStr token), Some (JStr text), Some (JInt n)) \<Rightarrow> Inr (token, text, Some (nat n))
           | _ \<Rightarrow> Inl ValueError)
      | _ \<Rightarrow> Inl ValueError)"

fun read_pages ::
  "python \<Rightarrow> (nat \<Rightarrow> rpc) \<Rightarrow> (nat \<Rightarrow> history_event list) \<Rightarrow> nat \<Rightarrow> nat \<Rightarrow> pystr \<Rightarrow> history \<Rightarrow> pystr result"
where
  "read_pages py env between 0 k payload s = Inl RuntimeError"
| "read_pages py env between (Suc n) k payload s =
     (case get_transcript py ((env k)\<lparr>rpc_payload := payload\<rparr>) (run (history_step py) s (between k)) of
        (s, r) \<Rightarrow>
          bind_res r (\<lambda>reply. bind_res (read_reply py reply) (\<lambda>(token, text, nxt).
            case nxt of
              None \<Rightarrow> Inr text
            | Some offset \<Rightarrow>
                bind_res (read_pages py env between n (Suc k) (next_payload token offset) s)
                  (\<lambda>rest. Inr (text @ rest)))))"

text \<open>An observer admitted to the room, and events that leave its snapshot alone.\<close>

definition observer_ok :: "pystr \<Rightarrow> pystr \<Rightarrow> rpc \<Rightarrow> bool" where
  "observer_ok room caller rpc \<longleftrightarrow>
     rpc_caller rpc = caller \<and> prefix observer_prefix caller \<and> rpc_available rpc
     \<and> (\<exists>attributes. rpc_attributes rpc = Some attributes
          \<and> attributes (str ''aida.transcriptObserver'') = Some room)"

fun undisturbed :: "pystr \<Rightarrow> rat \<Rightarrow> history_event \<Rightarrow> bool" where
  "undisturbed caller t0 (Rpc r) = (rpc_caller r \<noteq> caller \<and> rpc_now r - t0 < 60)"
| "undisturbed caller t0 CloseHistory = False"
| "undisturbed caller t0 e = True"

lemma observer_authorized:
  "observer_ok (hs_room_name s) caller rpc \<Longrightarrow> \<not> hs_closed s \<Longrightarrow> is_authorized (rpc\<lparr>rpc_payload := p\<rparr>) s"
  by (auto simp: observer_ok_def is_authorized_def)

text \<open>What holds of the history while the observer reads.\<close>

definition reading :: "pystr \<Rightarrow> pystr \<Rightarrow> frozen \<Rightarrow> history \<Rightarrow> bool" where
  "reading room caller fr s \<longleftrightarrow>
     history_inv s \<and> \<not> hs_closed s \<and> hs_room_name s = room \<and> lookup caller (hs_snapshots s) = Some fr"

lemma drop_expired_lookup:
  assumes "snapshots_inv s" "lookup caller (hs_snapshots s) = Some (t0, rest)" "now - t0 < 60"
  shows "lookup caller (hs_snapshots (drop_expired now s)) = Some (t0, rest)"
  using lookup_filter [of "hs_snapshots s" caller "(t0, rest)" "\<lambda>(k, t, _, _). now - t < 60"] assms
  by (cases rest) (simp add: drop_expired_def snapshots_inv_def)

lemma other_rpc_lookup:
  assumes "snapshots_inv s" "lookup caller (hs_snapshots s) = Some (t0, rest)"
    and "rpc_caller r \<noteq> caller" "rpc_now r - t0 < 60"
  shows "lookup caller (hs_snapshots (fst (get_transcript py r s))) = Some (t0, rest)"
proof -
  note d = drop_expired_lookup [OF assms(1,2,4)]
  have p: "lookup caller (hs_snapshots (fst (page r request offset s'))) = lookup caller (hs_snapshots s')"
    for request offset s'
    using assms(3) by (auto simp: page_def Let_def split: option.split)
  have f: "freeze r s' = Inr s'' \<Longrightarrow> lookup caller (hs_snapshots s'') = lookup caller (hs_snapshots s')" for s' s''
    using assms(3) by (auto simp: freeze_def Let_def split: if_splits)
  show ?thesis
    using assms(2) d by (auto simp: get_transcript_def Let_def p f split: sum.split)
qed

lemma get_transcript_frame [simp]:
  "hs_closed (fst (get_transcript py r s)) = hs_closed s"
  "hs_room_name (fst (get_transcript py r s)) = hs_room_name s"
  by (auto simp: get_transcript_def page_def freeze_def drop_expired_def Let_def
      split: sum.split option.split)

lemma step_reading:
  assumes "reading room caller (t0, rest) s" "undisturbed caller t0 e"
  shows "reading room caller (t0, rest) (history_step py s e)"
proof -
  have inv: "history_inv (history_step py s e)"
    using assms(1) by (intro history_step_inv) (simp add: reading_def)
  show ?thesis
  proof (cases e)
    case (Rpc r)
    with assms inv other_rpc_lookup [of s caller t0 rest r py] show ?thesis
      by (simp add: reading_def history_inv_def)
  qed (use assms inv in \<open>auto simp: reading_def start_history_def delivery_ended_def sender_round_def
      take_row_def split: option.split\<close>)
qed

lemma run_reading:
  "reading room caller (t0, rest) s \<Longrightarrow> list_all (undisturbed caller t0) es \<Longrightarrow>
     reading room caller (t0, rest) (run (history_step py) s es)"
  by (induction es arbitrary: s) (simp_all add: step_reading)

text \<open>What the two ends exchange is read as it was written.\<close>

lemma small_digits: "n \<le> MAX_SNAPSHOT_CHARS \<Longrightarrow> length (show_nat n) \<le> max_int_digits"
  using length_show_nat_le [of 7 n] by (simp add: MAX_SNAPSHOT_CHARS_def max_int_digits_def)

lemma request_of_next:
  assumes "list_all is_scalar token" "n \<le> MAX_SNAPSHOT_CHARS" "1 \<le> rec_limit py"
  shows "rpc_request py (next_payload token n)
    = Inr ([(str ''offset'', JInt (int n)), (str ''snapshotId'', JStr token)], n)"
proof -
  let ?v = "JObj [(str ''offset'', JInt (int n)), (str ''snapshotId'', JStr token)]"
  have "json_loads (plain_opts (repr_float py)) (rec_limit py) (RawStr (json_dumps default_dump ?v)) = Inr ?v"
    using assms by (intro json_wire.dec_enc) (simp add: str_scalar small_digits)
  moreover have "next_payload token n \<noteq> []" by (simp add: next_payload_def)
  ultimately show ?thesis by (simp add: rpc_request_def next_payload_def get_def)
qed

lemma request_of_empty: "1 \<le> rec_limit py \<Longrightarrow> rpc_request py [] = Inr ([], 0)"
proof -
  assume "1 \<le> rec_limit py"
  then have "json_loads (plain_opts (repr_float py)) (rec_limit py) (RawStr (json_dumps default_dump (JObj [])))
      = Inr (JObj [])"
    by (intro json_wire.dec_enc) simp
  moreover have "json_dumps default_dump (JObj []) = str ''{}''" by (simp add: str_def)
  ultimately show ?thesis by (simp add: rpc_request_def get_def)
qed

lemma read_page_reply:
  assumes "list_all is_scalar token" "list_all is_scalar text" "1 \<le> rec_limit py"
    and "nxt = None \<or> (\<exists>n. nxt = Some n \<and> n \<le> MAX_SNAPSHOT_CHARS)"
  shows "read_reply py (json_dumps default_dump (page_json token text nxt)) = Inr (token, text, nxt)"
proof -
  have "json_loads (plain_opts (repr_float py)) (rec_limit py)
      (RawStr (json_dumps default_dump (page_json token text nxt))) = Inr (page_json token text nxt)"
    using assms by (intro json_wire.dec_enc) (auto simp: page_json_def str_scalar small_digits split: option.split)
  then show ?thesis
    by (simp add: read_reply_def page_json_def get_def split: option.split)
qed

text \<open>One page of a snapshot that is being read.\<close>

definition page_end :: "nat \<Rightarrow> pystr \<Rightarrow> nat" where
  "page_end offset text = min (offset + PAGE_CHARS) (length text)"

definition page_after :: "nat \<Rightarrow> pystr \<Rightarrow> nat option" where
  "page_after offset text = (if page_end offset text < length text then Some (page_end offset text) else None)"

definition page_text :: "nat \<Rightarrow> pystr \<Rightarrow> pystr" where
  "page_text offset text = take (page_end offset text - offset) (drop offset text)"

lemma page_reading:
  assumes "lookup (rpc_caller rpc) (hs_snapshots s) = Some (t0, token, text)" "offset < length text"
    and "offset = 0 \<or> get request ''snapshotId'' = Some (JStr token)"
  shows "page rpc request offset s =
    (if page_after offset text = None
     then s\<lparr>hs_snapshots := forget (rpc_caller rpc) (hs_snapshots s)\<rparr> else s,
     Inr (json_dumps default_dump (page_json token (page_text offset text) (page_after offset text))))"
  using assms by (auto simp: page_def page_after_def page_text_def page_end_def Let_def)

lemma page_text_join:
  "offset < length text \<Longrightarrow>
     (case page_after offset text of
        None \<Rightarrow> page_text offset text = drop offset text
      | Some n \<Rightarrow> page_text offset text @ drop n text = drop offset text \<and> offset < n \<and> n < length text
          \<and> n = offset + PAGE_CHARS)"
proof -
  assume "offset < length text"
  moreover have "take PAGE_CHARS (drop offset text) @ drop (offset + PAGE_CHARS) text = drop offset text"
    by (metis append_take_drop_id drop_drop add.commute)
  ultimately show ?thesis
    by (auto simp: page_after_def page_text_def page_end_def PAGE_CHARS_def min_def)
qed

lemma page_text_scalar: "list_all is_scalar text \<Longrightarrow> list_all is_scalar (page_text offset text)"
  by (auto simp: page_text_def list_all_iff dest!: in_set_takeD in_set_dropD)

lemma page_after_bound:
  "length text \<le> MAX_SNAPSHOT_CHARS \<Longrightarrow>
     page_after offset text = None \<or> (\<exists>n. page_after offset text = Some n \<and> n \<le> MAX_SNAPSHOT_CHARS)"
  by (auto simp: page_after_def page_end_def)

text \<open>A later page of a snapshot that is being read.\<close>

lemma later_page:
  assumes "reading room caller (t0, token, text) s" "observer_ok room caller r" "rpc_now r - t0 < 60"
    and "0 < offset" "offset < length text" "length text \<le> MAX_SNAPSHOT_CHARS"
    and "list_all is_scalar token" "1 \<le> rec_limit py"
  obtains s' where "get_transcript py (r\<lparr>rpc_payload := next_payload token offset\<rparr>) s
      = (s', Inr (json_dumps default_dump (page_json token (page_text offset text) (page_after offset text))))"
    "page_after offset text \<noteq> None \<Longrightarrow> reading room caller (t0, token, text) s'"
proof -
  let ?r = "r\<lparr>rpc_payload := next_payload token offset\<rparr>"
  let ?d = "drop_expired (rpc_now r) s"
  have s: "snapshots_inv s" "\<not> hs_closed s" "hs_room_name s = room"
    "lookup caller (hs_snapshots s) = Some (t0, token, text)"
    using assms(1) by (simp_all add: reading_def history_inv_def)
  have c: "rpc_caller r = caller" using assms(2) by (simp add: observer_ok_def)
  have a: "is_authorized ?r s" using assms(2) s by (simp add: observer_authorized)
  have q: "rpc_request py (next_payload token offset)
      = Inr ([(str ''offset'', JInt (int offset)), (str ''snapshotId'', JStr token)], offset)"
    using assms by (intro request_of_next) simp_all
  have l: "lookup caller (hs_snapshots ?d) = Some (t0, token, text)"
    using drop_expired_lookup [OF s(1,4) assms(3)] .
  have p: "page ?r [(str ''offset'', JInt (int offset)), (str ''snapshotId'', JStr token)] offset ?d =
    (if page_after offset text = None
     then ?d\<lparr>hs_snapshots := forget caller (hs_snapshots ?d)\<rparr> else ?d,
     Inr (json_dumps default_dump (page_json token (page_text offset text) (page_after offset text))))"
    using page_reading [of ?r ?d t0 token "text" offset] l assms(5) c by (simp add: get_def)
  have g: "get_transcript py ?r s = page ?r [(str ''offset'', JInt (int offset)), (str ''snapshotId'', JStr token)] offset ?d"
    using a q assms(4) by (simp add: get_transcript_def)
  have "history_inv ?d"
    using assms(1) drop_expired_inv [of s]
    by (simp add: reading_def history_inv_def rows_inv_def drop_expired_def)
  then have "reading room caller (t0, token, text) ?d"
    using s l by (simp add: reading_def drop_expired_def)
  with that g p show thesis by (cases "page_after offset text = None") auto
qed

lemma read_rest:
  assumes "\<And>k. observer_ok room caller (env k) \<and> rpc_now (env k) - t0 < 60"
    and "\<And>k. 0 < k \<Longrightarrow> list_all (undisturbed caller t0) (between k)"
    and "length text \<le> MAX_SNAPSHOT_CHARS" "list_all is_scalar token" "list_all is_scalar text"
    and "1 \<le> rec_limit py"
  shows "reading room caller (t0, token, text) s \<Longrightarrow> 0 < k \<Longrightarrow> 0 < offset \<Longrightarrow> offset < length text \<Longrightarrow>
    length text \<le> offset + n * PAGE_CHARS \<Longrightarrow>
    read_pages py env between n k (next_payload token offset) s = Inr (drop offset text)"
proof (induction n arbitrary: k offset s)
  case 0
  then show ?case by simp
next
  case (Suc n)
  have "reading room caller (t0, token, text) (run (history_step py) s (between k))"
    using Suc.prems(1) assms(2) [OF Suc.prems(2)] by (rule run_reading)
  then obtain s' where g: "get_transcript py ((env k)\<lparr>rpc_payload := next_payload token offset\<rparr>)
        (run (history_step py) s (between k))
      = (s', Inr (json_dumps default_dump (page_json token (page_text offset text) (page_after offset text))))"
    and s': "page_after offset text \<noteq> None \<Longrightarrow> reading room caller (t0, token, text) s'"
    using Suc.prems assms by (elim later_page) auto
  have r: "read_reply py (json_dumps default_dump (page_json token (page_text offset text) (page_after offset text)))
      = Inr (token, page_text offset text, page_after offset text)"
    using assms by (intro read_page_reply page_text_scalar page_after_bound)
  show ?case
  proof (cases "page_after offset text")
    case None
    with g r page_text_join [OF Suc.prems(4)] show ?thesis by simp
  next
    case (Some m)
    have m: "page_text offset text @ drop m text = drop offset text"
      "offset < m" "m < length text" "m = offset + PAGE_CHARS"
      using page_text_join [OF Suc.prems(4)] unfolding Some option.case by blast+
    have "read_pages py env between n (Suc k) (next_payload token m) s' = Inr (drop m text)"
      using Suc.prems(5) m s' Some by (intro Suc.IH) simp_all
    with g r Some m(1) show ?thesis by simp
  qed
qed

text \<open>The first page: the snapshot is frozen and its first part is sent.\<close>

lemma first_page:
  assumes "history_inv s" "\<not> hs_closed s" "hs_room_name s = room" "observer_ok room caller r"
    and "length (hs_snapshots s) < 32" "length (frozen_text (rpc_items r) s) \<le> MAX_SNAPSHOT_CHARS"
    and "1 \<le> rec_limit py"
  obtains s' where "get_transcript py (r\<lparr>rpc_payload := []\<rparr>) s
      = (s', Inr (json_dumps default_dump (page_json (rpc_fresh r)
          (page_text 0 (frozen_text (rpc_items r) s)) (page_after 0 (frozen_text (rpc_items r) s)))))"
    "page_after 0 (frozen_text (rpc_items r) s) \<noteq> None \<Longrightarrow>
       reading room caller (rpc_now r, rpc_fresh r, frozen_text (rpc_items r) s) s'"
proof -
  let ?r = "r\<lparr>rpc_payload := []\<rparr>"
  let ?t = "frozen_text (rpc_items r) s"
  let ?d = "drop_expired (rpc_now r) s"
  let ?f = "?d\<lparr>hs_snapshots := remember_as caller (rpc_now r, rpc_fresh r, ?t) (hs_snapshots ?d)\<rparr>"
  have c: "rpc_caller r = caller" using assms(4) by (simp add: observer_ok_def)
  have "committed_row ?d = committed_row s"
    by (rule ext) (simp add: committed_row_def drop_expired_def cong: option.case_cong if_cong)
  then have "frozen_text (rpc_items r) ?d = ?t"
    by (simp add: frozen_text_def snapshot_def snapshot_rows_def) (simp add: drop_expired_def)
  moreover have "length (hs_snapshots ?d) < 32"
    using assms(5) by (simp add: drop_expired_def le_less_trans [OF length_filter_le])
  ultimately have f: "freeze ?r ?d = Inr ?f"
    using assms(6) c by (simp add: freeze_def frozen_text_def)
  have "?t \<noteq> []" by (simp add: frozen_text_def snapshot_def)
  then have p: "page ?r [] 0 ?f =
    (if page_after 0 ?t = None then ?f\<lparr>hs_snapshots := forget caller (hs_snapshots ?f)\<rparr> else ?f,
     Inr (json_dumps default_dump (page_json (rpc_fresh r) (page_text 0 ?t) (page_after 0 ?t))))"
    using page_reading [of ?r ?f "rpc_now r" "rpc_fresh r" ?t 0 "[]"] c by simp
  have g: "get_transcript py ?r s = page ?r [] 0 ?f"
    using observer_authorized [of s caller r "[]"] request_of_empty [OF assms(7)] assms f
    by (simp add: get_transcript_def Let_def)
  have "snapshots_inv ?f"
    using freeze_inv [OF drop_expired_inv f] assms(1) by (simp add: history_inv_def)
  then have "reading room caller (rpc_now r, rpc_fresh r, ?t) ?f"
    using assms by (simp add: reading_def history_inv_def rows_inv_def drop_expired_def)
  with that g p show thesis by (cases "page_after 0 ?t = None") auto
qed

lemma history_step_frame:
  "hs_room_name (history_step py s e) = hs_room_name s"
  "e \<noteq> CloseHistory \<Longrightarrow> hs_closed (history_step py s e) = hs_closed s"
  by (cases e; auto simp: start_history_def take_row_def delivery_ended_def sender_round_def
      close_history_def split: option.split)+

lemma history_run_frame:
  "hs_room_name (run (history_step py) s es) = hs_room_name s"
  "CloseHistory \<notin> set es \<Longrightarrow> hs_closed (run (history_step py) s es) = hs_closed s"
  by (induction es arbitrary: s) (auto simp: history_step_frame)

text \<open>C9.
  An admitted observer that reads page after page within a minute, with any partial and
  final transcript, live update and request of another observer in between, joins the text
  of one snapshot, the one of its first request, and decoding it gives that snapshot back.
  350 requests are always enough.
\<close>

theorem transcript_reassembled:
  assumes "\<And>k. observer_ok room caller (env k) \<and> rpc_now (env k) - rpc_now (env 0) < 60"
    and "\<And>k. 0 < k \<Longrightarrow> list_all (undisturbed caller (rpc_now (env 0))) (between k)"
    and "CloseHistory \<notin> set (es @ between 0)"
    and "s = run (history_step py) (new_history call_id room) (es @ between 0)"
    and "length (hs_snapshots s) < 32"
    and "snapshot_wf (rpc_items (env 0)) s" "list_all is_scalar (rpc_fresh (env 0))"
    and "length (frozen_text (rpc_items (env 0)) s) \<le> MAX_SNAPSHOT_CHARS"
    and "350 \<le> n" "4 \<le> rec_limit py"
  shows "bind_res (read_pages py env between n 0 [] (run (history_step py) (new_history call_id room) es))
      (\<lambda>text. json_loads (plain_opts (repr_float py)) (rec_limit py) (RawStr text))
    = Inr (snapshot (rpc_items (env 0)) s)"
proof -
  let ?t = "frozen_text (rpc_items (env 0)) s"
  obtain m where n: "n = Suc m" using assms(9) by (cases n) auto
  have s: "run (history_step py) (run (history_step py) (new_history call_id room) es) (between 0) = s"
    using assms(4) by (simp add: run_append)
  have inv: "history_inv s" "\<not> hs_closed s" "hs_room_name s = room"
    using assms(3,4) transcript.run_inv [OF new_history_inv] history_run_frame(2) [of "es @ between 0" py]
    by (simp_all add: history_run_frame(1)) (simp_all add: new_history_def)
  have scalar: "list_all is_scalar ?t"
    using frozen_printable [OF assms(6)] by (auto simp: list_all_iff is_printable_def is_scalar_def surrogate_defs)
  obtain s' where g: "get_transcript py ((env 0)\<lparr>rpc_payload := []\<rparr>) s
      = (s', Inr (json_dumps default_dump (page_json (rpc_fresh (env 0)) (page_text 0 ?t) (page_after 0 ?t))))"
    and s': "page_after 0 ?t \<noteq> None \<Longrightarrow> reading room caller (rpc_now (env 0), rpc_fresh (env 0), ?t) s'"
    using inv assms by (elim first_page) auto
  have r: "read_reply py (json_dumps default_dump (page_json (rpc_fresh (env 0)) (page_text 0 ?t) (page_after 0 ?t)))
      = Inr (rpc_fresh (env 0), page_text 0 ?t, page_after 0 ?t)"
    using assms scalar by (intro read_page_reply page_text_scalar page_after_bound) simp_all
  have "0 < length ?t" by (simp add: frozen_text_def snapshot_def)
  note join = page_text_join [OF this]
  have "read_pages py env between n 0 [] (run (history_step py) (new_history call_id room) es) = Inr ?t"
  proof (cases "page_after 0 ?t")
    case None
    with g r s n join show ?thesis by simp
  next
    case (Some off)
    have off: "page_text 0 ?t @ drop off ?t = drop 0 ?t" "0 < off" "off < length ?t" "off = 0 + PAGE_CHARS"
      using join unfolding Some option.case by blast+
    have "read_pages py env between m (Suc 0) (next_payload (rpc_fresh (env 0)) off) s' = Inr (drop off ?t)"
      using assms s' scalar off n Some
      by (intro read_rest [of room caller env "rpc_now (env 0)"]) (auto simp: MAX_SNAPSHOT_CHARS_def PAGE_CHARS_def)
    with g r s n Some off(1) show ?thesis by simp
  qed
  then show ?thesis
    using compact_wire.dec_enc [of "snapshot (rpc_items (env 0)) s" "rec_limit py" "repr_float py"]
      snapshot_json_wf [OF assms(6)] snapshot_depth [of "rpc_items (env 0)" s] assms(10)
    by (simp add: frozen_text_def)
qed

text \<open>An observer of a call whose history has one message of 7,000 characters: two pages.\<close>

definition sample_item :: chat_item where
  "sample_item = \<lparr>item_id = str ''item-1'', item_type = str ''message'', item_role = str ''assistant'',
     item_text = Some (replicate 7000 97)\<rparr>"

definition sample_observer :: rpc where
  "sample_observer = \<lparr>rpc_caller = str ''admin-observer-1'', rpc_payload = [],
     rpc_attributes = Some [str ''aida.transcriptObserver'' \<mapsto> str ''room''], rpc_available = True,
     rpc_now = 5, rpc_fresh = replicate 36 97, rpc_items = [sample_item]\<rparr>"

definition sample_between :: "nat \<Rightarrow> history_event list" where
  "sample_between k = (if k = 0 then [] else [CallerRow (replicate 36 98) (str ''more'') False])"

lemma sample_observer_ok: "observer_ok (str ''room'') (str ''admin-observer-1'') sample_observer"
  by (simp add: observer_ok_def sample_observer_def observer_prefix_def) (simp add: str_def)

definition sample_history :: history where
  "sample_history = new_history (str ''call'') (str ''room'')"

lemma sample_history_fields [simp]:
  "hs_call_id sample_history = str ''call''" "hs_pending sample_history = None"
  "hs_committed sample_history = (\<lambda>_. None)" "hs_snapshots sample_history = []"
  by (simp_all add: sample_history_def new_history_def)

lemma sample_frozen_rows:
  "snapshot_rows [sample_item] sample_history
     = [\<lparr>row_id = str ''item-1'', row_segment = str ''item-1'', row_role = str ''assistant'',
         row_text = replicate 7000 97, row_final = True, row_sequence = 0\<rparr>]"
  by (simp add: snapshot_rows_def committed_row_def sample_item_def is_speaker_def)

lemma sample_frozen_length: "length (frozen_text [sample_item] sample_history) \<le> MAX_SNAPSHOT_CHARS"
proof -
  have q: "length (quote True (replicate 7000 97)) \<le> 14002"
    using quote_length_printable [of "replicate 7000 97" True] by (simp add: list_all_iff is_printable_def)
  have k: "length (quote True (str cs)) \<le> 12 * length cs + 2" for cs
    using quote_length [of True "str cs"] by (simp add: str_def)
  show ?thesis
    using q k [of "''callId''"] k [of "''items''"] k [of "''call''"] k [of "''id''"] k [of "''segment_id''"]
      k [of "''role''"] k [of "''content''"] k [of "''is_final''"] k [of "''sequence''"]
      k [of "''item-1''"] k [of "''assistant''"]
    by (simp add: frozen_text_def snapshot_def sample_frozen_rows row_json_def compact_ascii_def
        MAX_SNAPSHOT_CHARS_def show_int_def show_nat.simps [of 0])
qed

lemma transcript_reassembled_witness:
  "bind_res (read_pages plain_python (\<lambda>k. sample_observer) sample_between 350 0 [] sample_history)
      (\<lambda>text. json_loads (plain_opts (repr_float plain_python)) (rec_limit plain_python) (RawStr text))
    = Inr (snapshot [sample_item] sample_history)"
proof -
  have i: "rpc_items sample_observer = [sample_item]" "rpc_fresh sample_observer = replicate 36 97"
    by (simp_all add: sample_observer_def)
  have w: "snapshot_wf [sample_item] sample_history"
    using small_digits [of 0]
    by (simp add: sample_frozen_rows snapshot_wf_def row_wf_def str_scalar MAX_SNAPSHOT_CHARS_def)
       (simp add: list_all_iff surrogate_defs)
  have s: "list_all is_scalar (rpc_fresh sample_observer)"
    by (simp add: i list_all_iff surrogate_defs)
  from transcript_reassembled [of "str ''room''" "str ''admin-observer-1''" "\<lambda>k. sample_observer"
      sample_between "[]" sample_history plain_python "str ''call''" 350]
  show ?thesis
    using sample_observer_ok w s sample_frozen_length
    by (simp add: i sample_between_def plain_python_def flip: sample_history_def)
qed

lemma page_fits_witness:
  "\<exists>reply. snd (get_transcript plain_python sample_observer
      (run (history_step plain_python) (new_history (str ''call'') (str ''room'')) [])) = Inr reply
    \<and> length reply < 15 * 1024"
proof -
  have i: "rpc_items sample_observer = [sample_item]" "sample_observer\<lparr>rpc_payload := []\<rparr> = sample_observer"
    by (simp_all add: sample_observer_def)
  have n: "history_inv sample_history" "\<not> hs_closed sample_history" "hs_room_name sample_history = str ''room''"
    using new_history_inv by (simp_all add: sample_history_def) (simp_all add: new_history_def)
  obtain reply where g: "snd (get_transcript plain_python sample_observer sample_history) = Inr reply"
    by (rule first_page [OF n sample_observer_ok, of plain_python, unfolded i, OF _ sample_frozen_length])
       (simp_all add: plain_python_def)
  have "event_codepoints (Rpc sample_observer)"
    by (simp add: sample_observer_def sample_item_def random_id_def item_codepoints_def)
       (simp add: list_all_iff is_printable_def is_codepoint_def)
  with g show ?thesis
    using page_fits [of "str ''call''" "[]" sample_observer plain_python "str ''room''" reply]
    by (simp add: sample_history_def)
qed

end
