(* ===== verification/Job.thy ===== *)
theory Job
  imports Control Admission Transcripts Paging
begin

text \<open>
  worker.py, \<open>entrypoint\<close>: one job as a state machine over the components' own machines.
  The state is the local variables of \<open>entrypoint\<close> with the handler, the admission, the
  stream, the publisher and the history it holds, the point at which each of its two
  coroutines is suspended, and the calls it makes on the SDK, in order. An event is one
  uninterrupted piece of the program: a resumption of a coroutine with what it awaited, a
  callback of the SDK, or a step of a component's own task.
\<close>

section \<open>The accepted job\<close>

record job_config =
  jc_dispatch :: dispatch_configuration
  jc_deployment :: deployment_configuration
  jc_bootstrap :: bootstrap_configuration
  jc_room_name :: pystr

text \<open>The metadata and the environment, or the shutdown of the job with its reason.\<close>

definition load_job :: "python \<Rightarrow> pystr \<Rightarrow> pystr \<Rightarrow> environ \<Rightarrow> job_config result" where
  "load_job py metadata room_name env =
     bind_res (parse_dispatch py metadata room_name) (\<lambda>dispatch.
     bind_res (deployment_from_env env) (\<lambda>deployment.
     bind_res (bootstrap_from_env py env) (\<lambda>bootstrap.
       Inr \<lparr>jc_dispatch = dispatch, jc_deployment = deployment, jc_bootstrap = bootstrap,
            jc_room_name = room_name\<rparr>)))"

section \<open>State\<close>

record session_options =
  so_stt_model :: pystr
  so_llm_model :: pystr
  so_tts_model :: pystr
  so_tts_voice :: pystr
  so_language :: pystr
  so_turn_detection :: string
  so_interruption :: bool
  so_preemptive_generation :: bool

record room_options =
  ro_participant_identity :: pystr
  ro_sip_only :: bool
  ro_text_input :: bool
  ro_text_output :: bool
  ro_video_input :: bool
  ro_close_on_disconnect :: bool
  ro_delete_room_on_close :: bool

datatype resource = HistoryResource | PublisherResource | ControlResource | SessionResource

datatype job_effect =
    Observe fields
  | ShutdownContext string
  | ConnectRoom
  | PostAuthorization http_request
  | CreateSession session_options
  | StartSession room_options pystr
  | PublishReady pybytes
  | SayOpening pystr
  | GenerateGreeting
  | CloseResource resource
  | LeaveRoom

datatype startup_outcome = StartupReturned | StartupCancelled | StartupFailed exn

datatype startup_phase =
    NotBegun
  | AtConnect
  | AtAdmission
  | AtBootstrap sip_leg
  | AtSessionStart
  | AtSubscription
  | AtPublish
  | StartupDone startup_outcome

text \<open>\<open>cleanup\<close>: awaiting the cancelled startup, then one close after the other.\<close>

datatype cleanup_phase = AwaitingStartup | Closing "resource list" | CleanedUp

datatype entry_phase = AwaitStartup | InCleanup | EntryDone

record job =
  j_phase :: startup_phase
  j_entry :: entry_phase
  j_cleanup :: "cleanup_phase option"
  j_cancel :: bool
  j_expired :: bool
  j_aborted :: bool
  j_stage :: string
  j_control :: handler
  j_admission :: admission
  j_grant :: "(sip_leg \<times> call_configuration) option"
  j_stream :: transcript_stream
  j_publisher :: publisher
  j_history :: history
  j_stt_events :: nat
  j_stt_finals :: nat
  j_assistant_items :: nat
  j_effects :: "job_effect list"

abbreviation j_session :: "job \<Rightarrow> bool" where
  "j_session j \<equiv> j_grant j \<noteq> None"

definition new_job :: "job_config \<Rightarrow> job" where
  "new_job cfg =
     \<lparr>j_phase = NotBegun, j_entry = AwaitStartup, j_cleanup = None, j_cancel = False, j_expired = False,
      j_aborted = False, j_stage = ''connect'', j_control = new_handler (d_call_id (jc_dispatch cfg)),
      j_admission = new_admission (b_route_token_attribute (jc_bootstrap cfg)), j_grant = None,
      j_stream = new_stream [] [], j_publisher = new_publisher, j_history = new_history [] [],
      j_stt_events = 0, j_stt_finals = 0, j_assistant_items = 0, j_effects = []\<rparr>"

definition call_sdk :: "job_effect \<Rightarrow> job \<Rightarrow> job" where
  "call_sdk e j = j\<lparr>j_effects := j_effects j @ [e]\<rparr>"

definition cleaned :: "job \<Rightarrow> bool" where
  "cleaned j \<longleftrightarrow> j_cleanup j \<noteq> None"

definition startup_running :: "job \<Rightarrow> bool" where
  "startup_running j \<longleftrightarrow> (case j_phase j of StartupDone r \<Rightarrow> False | _ \<Rightarrow> True)"

text \<open>\<open>observe\<close>: the trusted scope, the event and its explicit fields.\<close>

definition lifecycle :: "job_config \<Rightarrow> string \<Rightarrow> fields \<Rightarrow> fields" where
  "lifecycle cfg event extra =
     [(str ''callSessionId'', JStr (d_call_id (jc_dispatch cfg))),
      (str ''pbxInstanceId'', JStr (d_pbx_instance_id (jc_dispatch cfg))),
      (str ''context'', JStr (d_context (jc_dispatch cfg))), (str ''event'', JStr (str event))] @ extra"

definition observe :: "job_config \<Rightarrow> string \<Rightarrow> fields \<Rightarrow> job \<Rightarrow> job" where
  "observe cfg event extra j = call_sdk (Observe (lifecycle cfg event extra)) j"

definition counts :: "job \<Rightarrow> fields" where
  "counts j =
     [(str ''sttEvents'', JInt (int (j_stt_events j))), (str ''sttFinalEvents'', JInt (int (j_stt_finals j))),
      (str ''assistantItems'', JInt (int (j_assistant_items j)))]"

section \<open>Abort and cleanup\<close>

definition silence_job :: "(effect \<Rightarrow> bool) \<Rightarrow> job \<Rightarrow> job" where
  "silence_job fails j = j\<lparr>j_control := silence fails (j_control j)\<rparr>"

definition cancel_startup :: "job \<Rightarrow> job" where
  "cancel_startup j = (if startup_running j then j\<lparr>j_cancel := True\<rparr> else j)"

definition abort :: "(effect \<Rightarrow> bool) \<Rightarrow> job \<Rightarrow> job" where
  "abort fails j =
     (if j_aborted j \<or> cleaned j then j
      else call_sdk (ShutdownContext ''call admission ended'')
             (cancel_startup (silence_job fails (j\<lparr>j_aborted := True\<rparr>))))"

text \<open>\<open>cleanup\<close> up to its first await.\<close>

definition open_resources :: "job \<Rightarrow> resource list" where
  "open_resources j =
     (if j_session j then [HistoryResource, PublisherResource, ControlResource, SessionResource]
      else [ControlResource])"

definition begin_cleanup :: "job_config \<Rightarrow> (effect \<Rightarrow> bool) \<Rightarrow> job \<Rightarrow> job" where
  "begin_cleanup cfg fails j =
     (if cleaned j then j
      else
        (let j = observe cfg ''closing'' (counts j) (j\<lparr>j_cleanup := Some AwaitingStartup\<rparr>);
             j = j\<lparr>j_control := (j_control j)\<lparr>h_ready := False\<rparr>, j_admission := close_admission (j_admission j)\<rparr>;
             j = silence_job fails j
         in if startup_running j then cancel_startup j
            else j\<lparr>j_cleanup := Some (Closing (open_resources j))\<rparr>))"

definition close_resource :: "resource \<Rightarrow> job \<Rightarrow> job" where
  "close_resource r j =
     call_sdk (CloseResource r)
       (case r of
          HistoryResource \<Rightarrow> j\<lparr>j_history := close_history (j_history j)\<rparr>
        | PublisherResource \<Rightarrow> j\<lparr>j_publisher := close_publisher (j_publisher j)\<rparr>
        | ControlResource \<Rightarrow> j\<lparr>j_control := cancel_announcement (j_control j)\<rparr>
        | SessionResource \<Rightarrow> j)"

text \<open>The last piece of \<open>cleanup\<close>; \<open>entrypoint\<close> leaves the room when it awaited it.\<close>

definition end_cleanup :: "job \<Rightarrow> job" where
  "end_cleanup j =
     (let j = j\<lparr>j_cleanup := Some CleanedUp\<rparr> in
      if j_entry j = InCleanup then call_sdk LeaveRoom (j\<lparr>j_entry := EntryDone\<rparr>) else j)"

definition resume_cleanup :: "job \<Rightarrow> job" where
  "resume_cleanup j =
     (case j_cleanup j of
        Some AwaitingStartup \<Rightarrow>
          if startup_running j then j else j\<lparr>j_cleanup := Some (Closing (open_resources j))\<rparr>
      | Some (Closing []) \<Rightarrow> end_cleanup j
      | Some (Closing (r # rs)) \<Rightarrow> close_resource r (j\<lparr>j_cleanup := Some (Closing rs)\<rparr>)
      | _ \<Rightarrow> j)"

section \<open>The startup task\<close>

text \<open>
  What a resumption of the startup finds: the exception of what it awaited, the room, the
  HTTP service, the subscriptions that fail, the exception of making the session, the local
  participant's identity and SID, two random ids and the clock.
\<close>

record resumption =
  in_error :: "exn option"
  in_room :: room
  in_post :: "http_request \<Rightarrow> http_outcome"
  in_subscribe_fails :: "pystr \<Rightarrow> bool"
  in_session_error :: "exn option"
  in_identity :: pystr
  in_sid :: pystr
  in_stream_id :: pystr
  in_now :: int

definition finish :: "startup_outcome \<Rightarrow> job \<Rightarrow> job" where
  "finish r j = j\<lparr>j_phase := StartupDone (if r = StartupReturned \<and> j_cancel j then StartupCancelled else r)\<rparr>"

text \<open>A change of the admission; its calls of \<open>on_abort\<close> are \<open>abort\<close>.\<close>

definition put_admission :: "(effect \<Rightarrow> bool) \<Rightarrow> admission \<Rightarrow> job \<Rightarrow> job" where
  "put_admission fails a j =
     (let old = length (adm_effects (j_admission j)); j = j\<lparr>j_admission := a\<rparr> in
      if Abort \<in> set (drop old (adm_effects a)) then abort fails j else j)"

text \<open>\<open>admission.validate()\<close>, then the test for an abort or a take-over.\<close>

definition recheck :: "room \<Rightarrow> (job \<Rightarrow> job) \<Rightarrow> job \<Rightarrow> job" where
  "recheck room k j =
     (case validate room (j_admission j) of
        Inl e \<Rightarrow> finish (StartupFailed e) j
      | Inr _ \<Rightarrow> if j_aborted j \<or> h_stopping (j_control j) then finish StartupReturned j else k j)"

definition admission_pass :: "job_config \<Rightarrow> resumption \<Rightarrow> job \<Rightarrow> job" where
  "admission_pass cfg r j =
     (case wait_pass (in_room r) (j_admission j) of (a, result) \<Rightarrow>
        (let j = j\<lparr>j_admission := a\<rparr> in
         case result of
           pass.Waiting \<Rightarrow> j\<lparr>j_phase := AtAdmission\<rparr>
         | pass.Raised e \<Rightarrow> finish (StartupFailed e) j
         | pass.Returned leg \<Rightarrow>
             call_sdk (PostAuthorization (authorize_request (jc_bootstrap cfg) (jc_dispatch cfg) (jc_room_name cfg) leg))
               (j\<lparr>j_stage := ''bootstrap'', j_phase := AtBootstrap leg\<rparr>)))"

definition create_session :: "python \<Rightarrow> deployment_configuration \<Rightarrow> call_configuration \<Rightarrow> session_options" where
  "create_session py deployment call =
     \<lparr>so_stt_model = stt_model deployment, so_llm_model = llm_model deployment,
      so_tts_model = tts_model deployment, so_tts_voice = tts_voice deployment,
      so_language = py_lower py (fst (partition_at 45 (c_locale call))),
      so_turn_detection = ''vad'', so_interruption = True, so_preemptive_generation = False\<rparr>"

text \<open>The session hears the leg's audio only; it neither reads nor writes text.\<close>

definition leg_room_options :: "sip_leg \<Rightarrow> room_options" where
  "leg_room_options leg =
     \<lparr>ro_participant_identity = leg_identity leg, ro_sip_only = True, ro_text_input = False,
      ro_text_output = False, ro_video_input = False, ro_close_on_disconnect = True,
      ro_delete_room_on_close = False\<rparr>"

text \<open>The session is made, muted and handed to the handler; the transcripts are set up.\<close>

definition open_session ::
  "python \<Rightarrow> job_config \<Rightarrow> resumption \<Rightarrow> sip_leg \<Rightarrow> call_configuration \<Rightarrow> job \<Rightarrow> job"
where
  "open_session py cfg r leg call j =
     (case in_session_error r of
        Some e \<Rightarrow> finish (StartupFailed e) (j\<lparr>j_stage := ''session-create''\<rparr>)
      | None \<Rightarrow>
          call_sdk (StartSession (leg_room_options leg) (instructions call))
            (call_sdk (CreateSession (create_session py (jc_deployment cfg) call)) j)
              \<lparr>j_grant := Some (leg, call),
               j_control := attach (c_transfer_statement call) (c_failed_transfer_statement call) (j_control j),
               j_stream := new_stream (c_call_id call) (in_stream_id r), j_publisher := new_publisher,
               j_history := new_history (c_call_id call) (jc_room_name cfg),
               j_stage := ''session-start'', j_phase := AtSessionStart\<rparr>)"

definition authorized :: "python \<Rightarrow> job_config \<Rightarrow> resumption \<Rightarrow> sip_leg \<Rightarrow> job \<Rightarrow> job" where
  "authorized py cfg r leg j =
     (case snd (authorize py (in_post r) (jc_bootstrap cfg) (jc_dispatch cfg) (jc_room_name cfg) leg) of
        Inl e \<Rightarrow> finish (StartupFailed e) j
      | Inr call \<Rightarrow>
          recheck (in_room r) (open_session py cfg r leg call) (observe cfg ''bootstrap-authorized'' [] j))"

definition ready_payload :: "job_config \<Rightarrow> resumption \<Rightarrow> pybytes" where
  "ready_payload cfg r =
     utf8_bytes (json_dumps default_dump (JObj
       [(str ''type'', JStr (str ''aida.event.agent_ready'')), (str ''schemaVersion'', JInt 1),
        (str ''callSessionId'', JStr (d_call_id (jc_dispatch cfg))),
        (str ''agentIdentity'', JStr (in_identity r)), (str ''agentParticipantSid'', JStr (in_sid r))]))"

definition publish_readiness :: "job_config \<Rightarrow> resumption \<Rightarrow> job \<Rightarrow> job" where
  "publish_readiness cfg r j =
     (if in_identity r = [] \<or> in_sid r = []
      then finish (StartupFailed (InvalidConfiguration ''agent identity unavailable'')) j
      else call_sdk (PublishReady (ready_payload cfg r))
             (j\<lparr>j_stage := ''readiness-publish'', j_phase := AtPublish\<rparr>))"

definition subscription_pass ::
  "job_config \<Rightarrow> (effect \<Rightarrow> bool) \<Rightarrow> resumption \<Rightarrow> admission \<times> unit pass \<Rightarrow> job \<Rightarrow> job"
where
  "subscription_pass cfg fails r p j =
     (case p of (a, result) \<Rightarrow>
        (let j = put_admission fails a j in
         case result of
           pass.Waiting \<Rightarrow> j\<lparr>j_phase := AtSubscription\<rparr>
         | pass.Raised e \<Rightarrow> finish (StartupFailed e) j
         | pass.Returned _ \<Rightarrow>
             recheck (in_room r) (publish_readiness cfg r) (observe cfg ''sip-audio-subscribed'' [] j)))"

text \<open>No await between the final checks and enabling normal turns.\<close>

definition open_conversation :: "job_config \<Rightarrow> resumption \<Rightarrow> job \<Rightarrow> job" where
  "open_conversation cfg r j =
     (let j = j\<lparr>j_publisher := start_publisher (j_publisher j), j_history := start_history (j_history j)\<rparr>;
          live = snd (activate (in_now r) (j_control j));
          j = j\<lparr>j_control := go_live (in_now r) (j_control j)\<rparr>
      in if \<not> live then finish StartupReturned j
         else
           (let j = observe cfg ''conversation-enabled'' [] j;
                opening = (case j_grant j of None \<Rightarrow> [] | Some (leg, call) \<Rightarrow> c_opening_statement call)
            in finish StartupReturned (call_sdk (if opening \<noteq> [] then SayOpening opening else GenerateGreeting) j)))"

definition resume_startup ::
  "python \<Rightarrow> job_config \<Rightarrow> (effect \<Rightarrow> bool) \<Rightarrow> resumption \<Rightarrow> job \<Rightarrow> job"
where
  "resume_startup py cfg fails r j =
     (if \<not> startup_running j then j
      else if j_cancel j then finish StartupCancelled j
      else if j_expired j then finish (StartupFailed TimeoutError) j
      else case in_error r of
        Some e \<Rightarrow> if j_phase j = NotBegun then j else finish (StartupFailed e) j
      | None \<Rightarrow>
          (case j_phase j of
             NotBegun \<Rightarrow> call_sdk ConnectRoom (j\<lparr>j_phase := AtConnect\<rparr>)
           | AtConnect \<Rightarrow> admission_pass cfg r (j\<lparr>j_stage := ''sip-admission''\<rparr>)
           | AtAdmission \<Rightarrow> admission_pass cfg r j
           | AtBootstrap leg \<Rightarrow> authorized py cfg r leg j
           | AtSessionStart \<Rightarrow>
               subscription_pass cfg fails r (subscribe_start (in_subscribe_fails r) (in_room r) (j_admission j))
                 (observe cfg ''session-started'' [] (j\<lparr>j_stage := ''sip-audio-subscription''\<rparr>))
           | AtSubscription \<Rightarrow>
               subscription_pass cfg fails r (subscribe_pass (in_subscribe_fails r) (in_room r) (j_admission j)) j
           | AtPublish \<Rightarrow>
               recheck (in_room r) (open_conversation cfg r) (observe cfg ''readiness-published'' [] j)
           | StartupDone x \<Rightarrow> j))"

text \<open>\<open>asyncio.timeout\<close>: its clock runs from the first step of the task.\<close>

definition deadline_passed :: "job \<Rightarrow> job" where
  "deadline_passed j = (if startup_running j \<and> j_phase j \<noteq> NotBegun then j\<lparr>j_expired := True\<rparr> else j)"

section \<open>The entry point after the startup\<close>

text \<open>\<open>class_name\<close> is \<open>type(error).__name__\<close>: the exceptions of the model are coarser.\<close>

definition startup_failed :: "job_config \<Rightarrow> (exn \<Rightarrow> pystr) \<Rightarrow> startup_outcome \<Rightarrow> job \<Rightarrow> job" where
  "startup_failed cfg class_name r j =
     (case r of
        StartupFailed e \<Rightarrow>
          observe cfg ''startup-failed''
            [(str ''stage'', JStr (str (j_stage j))), (str ''errorType'', JStr (class_name e))] j
      | _ \<Rightarrow> j)"

definition entry_finally :: "job_config \<Rightarrow> (effect \<Rightarrow> bool) \<Rightarrow> job \<Rightarrow> job" where
  "entry_finally cfg fails j =
     (if j_aborted j \<or> h_stopping (j_control j) \<and> \<not> h_ready (j_control j)
      then (if cleaned j then call_sdk LeaveRoom (j\<lparr>j_entry := EntryDone\<rparr>)
            else begin_cleanup cfg fails (j\<lparr>j_entry := InCleanup\<rparr>))
      else j\<lparr>j_entry := EntryDone\<rparr>)"

definition resume_entry :: "job_config \<Rightarrow> (exn \<Rightarrow> pystr) \<Rightarrow> (effect \<Rightarrow> bool) \<Rightarrow> job \<Rightarrow> job" where
  "resume_entry cfg class_name fails j =
     (case j_phase j of
        StartupDone r \<Rightarrow>
          if j_entry j \<noteq> AwaitStartup then j
          else entry_finally cfg fails
                 (if r = StartupReturned then j else abort fails (startup_failed cfg class_name r j))
      | _ \<Rightarrow> j)"

section \<open>Callbacks\<close>

text \<open>\<open>on_data\<close>, until \<open>cleanup\<close> removes it.\<close>

definition on_data ::
  "python \<Rightarrow> packet \<Rightarrow> (nat \<Rightarrow> int) \<Rightarrow> int \<Rightarrow> (effect \<Rightarrow> bool) \<Rightarrow> job \<Rightarrow> job"
where
  "on_data py packet now loop fails j =
     (if cleaned j \<or> j_aborted j then j
      else
        (let j = j\<lparr>j_control := fst (receive py packet now loop fails (j_control j))\<rparr> in
         if h_stopping (j_control j) \<and> \<not> h_ready (j_control j) then abort fails j else j))"

definition conversing :: "job \<Rightarrow> bool" where
  "conversing j \<longleftrightarrow> h_ready (j_control j) \<and> \<not> j_aborted j \<and> \<not> h_stopping (j_control j)"

text \<open>A change of the publisher; its call of \<open>on_failure\<close> is \<open>abort\<close>.\<close>

definition put_publisher :: "(effect \<Rightarrow> bool) \<Rightarrow> publisher \<Rightarrow> job \<Rightarrow> job" where
  "put_publisher fails p j =
     (let old = pub_failures (j_publisher j); j = j\<lparr>j_publisher := p\<rparr> in
      if old < pub_failures p then abort fails j else j)"

definition enqueue_transcript ::
  "(effect \<Rightarrow> bool) \<Rightarrow> transcript_event option \<Rightarrow> job \<Rightarrow> job"
where
  "enqueue_transcript fails event j =
     put_publisher fails (enqueue_event (map_option event_json event) (j_publisher j)) j"

text \<open>An exception of the stream leaves the callback before the history sees the text.\<close>

definition count_speech :: "job_config \<Rightarrow> bool \<Rightarrow> job \<Rightarrow> job" where
  "count_speech cfg is_final j =
     (let j = j\<lparr>j_stt_events := Suc (j_stt_events j),
                j_stt_finals := j_stt_finals j + (if is_final then 1 else 0)\<rparr>
      in if is_final then observe cfg ''caller-stt-final'' (counts j) j else j)"

definition send_caller :: "(effect \<Rightarrow> bool) \<Rightarrow> fresh \<Rightarrow> pystr \<Rightarrow> pystr \<Rightarrow> bool \<Rightarrow> job \<Rightarrow> job" where
  "send_caller fails fr row_fresh body is_final j =
     (case caller fr body is_final (j_stream j) of
        (s, Inl e) \<Rightarrow> j\<lparr>j_stream := s\<rparr>
      | (s, Inr event) \<Rightarrow>
          (let j = enqueue_transcript fails event (j\<lparr>j_stream := s\<rparr>) in
           j\<lparr>j_history := caller_row row_fresh body is_final (j_history j)\<rparr>))"

definition on_caller :: "job_config \<Rightarrow> (effect \<Rightarrow> bool) \<Rightarrow> fresh \<Rightarrow> pystr \<Rightarrow> pystr \<Rightarrow> bool \<Rightarrow> job \<Rightarrow> job" where
  "on_caller cfg fails fr row_fresh body is_final j =
     (let j = count_speech cfg is_final j in
      if conversing j then send_caller fails fr row_fresh body is_final j else j)"

definition remember_item :: "chat_item \<Rightarrow> job \<Rightarrow> job" where
  "remember_item item j = (if conversing j then j\<lparr>j_history := item_row item (j_history j)\<rparr> else j)"

definition count_item :: "job_config \<Rightarrow> job \<Rightarrow> job" where
  "count_item cfg j =
     (let j = j\<lparr>j_assistant_items := Suc (j_assistant_items j)\<rparr> in observe cfg ''assistant-item'' (counts j) j)"

definition send_item :: "(effect \<Rightarrow> bool) \<Rightarrow> fresh \<Rightarrow> chat_item \<Rightarrow> job \<Rightarrow> job" where
  "send_item fails fr item j =
     (case assistant fr (case item_text item of None \<Rightarrow> [] | Some t \<Rightarrow> t) (item_id item) (j_stream j) of
        (s, Inl e) \<Rightarrow> j\<lparr>j_stream := s\<rparr>
      | (s, Inr event) \<Rightarrow> enqueue_transcript fails event (j\<lparr>j_stream := s\<rparr>))"

definition on_item :: "job_config \<Rightarrow> (effect \<Rightarrow> bool) \<Rightarrow> fresh \<Rightarrow> chat_item \<Rightarrow> job \<Rightarrow> job" where
  "on_item cfg fails fr item j =
     (let j = remember_item item j in
      if conversing j \<and> item_role item = str ''assistant''
      then send_item fails fr item (count_item cfg j) else j)"

definition on_error :: "job_config \<Rightarrow> bool \<Rightarrow> job \<Rightarrow> job" where
  "on_error cfg recoverable j = observe cfg ''session-error'' [(str ''recoverable'', JBool recoverable)] j"

text \<open>The history's RPC is available while the conversation is.\<close>

definition history_task :: "python \<Rightarrow> history_event \<Rightarrow> job \<Rightarrow> job" where
  "history_task py e j =
     (case e of
        Rpc rpc \<Rightarrow> j\<lparr>j_history := history_step py (j_history j) (Rpc (rpc\<lparr>rpc_available := conversing j\<rparr>))\<rparr>
      | TakeRow \<Rightarrow> j\<lparr>j_history := take_row (j_history j)\<rparr>
      | DeliveryEnded \<Rightarrow> j\<lparr>j_history := delivery_ended (j_history j)\<rparr>
      | _ \<Rightarrow> j)"

definition control_task :: "python \<Rightarrow> control_event \<Rightarrow> job \<Rightarrow> job" where
  "control_task py e j =
     (case e of
        ResumeAnnouncement i ok now loop fails \<Rightarrow> j\<lparr>j_control := control_step py (j_control j) e\<rparr>
      | FireTimeout i loop \<Rightarrow> j\<lparr>j_control := control_step py (j_control j) e\<rparr>
      | ResumeStop cancelled now loop fails \<Rightarrow> j\<lparr>j_control := control_step py (j_control j) e\<rparr>
      | _ \<Rightarrow> j)"

definition publisher_task :: "(effect \<Rightarrow> bool) \<Rightarrow> publisher_event \<Rightarrow> job \<Rightarrow> job" where
  "publisher_task fails e j =
     (case e of
        TakeEvent \<Rightarrow> put_publisher fails (take_event (j_publisher j)) j
      | PublicationEnded ok \<Rightarrow> put_publisher fails (publication_ended ok (j_publisher j)) j
      | _ \<Rightarrow> j)"

text \<open>The room's handlers of the admission.\<close>

definition room_event :: "(effect \<Rightarrow> bool) \<Rightarrow> admission_event \<Rightarrow> job \<Rightarrow> job" where
  "room_event fails e j =
     (if adm_closed (j_admission j) then j
      else put_admission fails (room_handler (j_admission j) e) j)"

section \<open>The machine\<close>

datatype job_event =
    ResumeStartup resumption
  | StartupDeadline
  | ResumeEntry "exn \<Rightarrow> pystr"
  | ResumeCleanup
  | ShutdownCallback
  | JobCancelled
  | DataReceived packet "nat \<Rightarrow> int" int
  | RoomEvent admission_event
  | CallerTranscribed fresh pystr pystr bool
  | ItemAdded fresh chat_item
  | SessionError bool
  | SessionClosed
  | ControlTask control_event
  | PublisherTask publisher_event
  | HistoryTask history_event

text \<open>\<open>fails\<close>: the calls on the session that raise. The session's callbacks need a session.\<close>

fun job_step :: "python \<Rightarrow> job_config \<Rightarrow> job \<Rightarrow> (effect \<Rightarrow> bool) \<times> job_event \<Rightarrow> job" where
  "job_step py cfg j (fails, ResumeStartup r) = resume_startup py cfg fails r j"
| "job_step py cfg j (fails, StartupDeadline) = deadline_passed j"
| "job_step py cfg j (fails, ResumeEntry class_name) = resume_entry cfg class_name fails j"
| "job_step py cfg j (fails, ResumeCleanup) = resume_cleanup j"
| "job_step py cfg j (fails, ShutdownCallback) = begin_cleanup cfg fails j"
| "job_step py cfg j (fails, JobCancelled) = cancel_startup j"
| "job_step py cfg j (fails, DataReceived packet now loop) = on_data py packet now loop fails j"
| "job_step py cfg j (fails, RoomEvent e) = room_event fails e j"
| "job_step py cfg j (fails, CallerTranscribed fr row_fresh body is_final) =
     (if j_session j then on_caller cfg fails fr row_fresh body is_final j else j)"
| "job_step py cfg j (fails, ItemAdded fr item) = (if j_session j then on_item cfg fails fr item j else j)"
| "job_step py cfg j (fails, SessionError recoverable) =
     (if j_session j then on_error cfg recoverable j else j)"
| "job_step py cfg j (fails, SessionClosed) = (if j_session j then abort fails j else j)"
| "job_step py cfg j (fails, ControlTask e) = control_task py e j"
| "job_step py cfg j (fails, PublisherTask e) = (if j_session j then publisher_task fails e j else j)"
| "job_step py cfg j (fails, HistoryTask e) = (if j_session j then history_task py e j else j)"

section \<open>Driving a component\<close>

text \<open>One state of a component is reached from another by steps on events of a kind.\<close>

definition reaches :: "('s \<Rightarrow> 'e \<Rightarrow> 's) \<Rightarrow> ('e \<Rightarrow> bool) \<Rightarrow> 's \<Rightarrow> 's \<Rightarrow> bool" where
  "reaches step P s s' \<longleftrightarrow> (\<exists>es. list_all P es \<and> s' = run step s es)"

lemma reaches_refl [intro, simp]: "reaches step P s s"
  unfolding reaches_def by (rule exI [of _ "[]"]) simp

lemma reaches_trans: "reaches step P s t \<Longrightarrow> reaches step P t u \<Longrightarrow> reaches step P s u"
  unfolding reaches_def by (metis list_all_append run_append)

lemma reaches_step: "P e \<Longrightarrow> reaches step P s (step s e)"
  unfolding reaches_def by (rule exI [of _ "[e]"]) simp

lemma reaches_mono: "reaches step P s t \<Longrightarrow> (\<And>e. P e \<Longrightarrow> Q e) \<Longrightarrow> reaches step Q s t"
  unfolding reaches_def list_all_iff by blast

lemma reaches_inv:
  assumes "reaches step P s t" "\<And>s e. ok s \<Longrightarrow> P e \<Longrightarrow> ok (step s e)" "ok s"
  shows "ok t"
proof -
  obtain es where "list_all P es" "t = run step s es" using assms(1) by (auto simp: reaches_def)
  moreover have "ok s \<Longrightarrow> list_all P es \<Longrightarrow> ok (run step s es)" for s
    using assms(2) by (induction es arbitrary: s) auto
  ultimately show ?thesis using assms(3) by simp
qed

text \<open>Which of the handler's events a job may cause at a state.\<close>

fun allowed :: "bool \<Rightarrow> job \<Rightarrow> control_event \<Rightarrow> bool" where
  "allowed startup j (Receive packet now loop fails) = (\<not> j_aborted j \<and> \<not> cleaned j)"
| "allowed startup j (Attach transfer failed) = (startup \<and> (\<exists>leg. j_phase j = AtBootstrap leg))"
| "allowed startup j (Activate now) = (startup \<and> j_phase j = AtPublish \<and> \<not> j_cancel j \<and> \<not> j_aborted j)"
| "allowed startup j e = True"

fun is_startup :: "job_event \<Rightarrow> bool" where
  "is_startup (ResumeStartup r) = True"
| "is_startup e = False"

section \<open>What an operation leaves alone\<close>

lemma call_sdk_fields [simp]:
  "j_phase (call_sdk e j) = j_phase j" "j_entry (call_sdk e j) = j_entry j" "j_cleanup (call_sdk e j) = j_cleanup j"
  "j_cancel (call_sdk e j) = j_cancel j" "j_expired (call_sdk e j) = j_expired j"
  "j_aborted (call_sdk e j) = j_aborted j" "j_control (call_sdk e j) = j_control j"
  "j_admission (call_sdk e j) = j_admission j" "j_grant (call_sdk e j) = j_grant j"
  "j_publisher (call_sdk e j) = j_publisher j" "j_history (call_sdk e j) = j_history j"
  "j_effects (call_sdk e j) = j_effects j @ [e]"
  by (simp_all add: call_sdk_def)

lemma observe_fields [simp]:
  "j_phase (observe cfg v x j) = j_phase j" "j_entry (observe cfg v x j) = j_entry j"
  "j_cleanup (observe cfg v x j) = j_cleanup j" "j_cancel (observe cfg v x j) = j_cancel j"
  "j_expired (observe cfg v x j) = j_expired j" "j_aborted (observe cfg v x j) = j_aborted j"
  "j_control (observe cfg v x j) = j_control j" "j_admission (observe cfg v x j) = j_admission j"
  "j_grant (observe cfg v x j) = j_grant j" "j_publisher (observe cfg v x j) = j_publisher j"
  "j_history (observe cfg v x j) = j_history j"
  by (simp_all add: observe_def)

lemma finish_fields [simp]:
  "startup_running (finish r j) = False" "j_entry (finish r j) = j_entry j" "j_cleanup (finish r j) = j_cleanup j"
  "j_cancel (finish r j) = j_cancel j" "j_aborted (finish r j) = j_aborted j"
  "j_control (finish r j) = j_control j" "j_admission (finish r j) = j_admission j"
  "j_grant (finish r j) = j_grant j" "j_publisher (finish r j) = j_publisher j"
  "j_history (finish r j) = j_history j" "j_effects (finish r j) = j_effects j"
  by (simp_all add: finish_def startup_running_def)

lemma abort_fields [simp]:
  "j_phase (abort fails j) = j_phase j" "j_entry (abort fails j) = j_entry j" "j_cleanup (abort fails j) = j_cleanup j"
  "j_admission (abort fails j) = j_admission j" "j_grant (abort fails j) = j_grant j"
  "j_publisher (abort fails j) = j_publisher j" "j_history (abort fails j) = j_history j"
  by (simp_all add: abort_def silence_job_def cancel_startup_def)

lemma cleaned_fields [simp]:
  "cleaned (call_sdk e j) = cleaned j" "cleaned (observe cfg v x j) = cleaned j" "cleaned (finish r j) = cleaned j"
  "cleaned (abort fails j) = cleaned j"
  by (simp_all add: cleaned_def)

lemma running_fields [simp]:
  "startup_running (call_sdk e j) = startup_running j" "startup_running (observe cfg v x j) = startup_running j"
  "startup_running (abort fails j) = startup_running j"
  by (simp_all add: startup_running_def)

lemma put_admission_fields [simp]:
  "j_phase (put_admission fails a j) = j_phase j" "j_grant (put_admission fails a j) = j_grant j"
  "j_admission (put_admission fails a j) = a" "j_publisher (put_admission fails a j) = j_publisher j"
  "j_history (put_admission fails a j) = j_history j" "j_cleanup (put_admission fails a j) = j_cleanup j"
  "j_entry (put_admission fails a j) = j_entry j"
  by (simp_all add: put_admission_def Let_def)

lemma put_publisher_fields [simp]:
  "j_phase (put_publisher fails p j) = j_phase j" "j_grant (put_publisher fails p j) = j_grant j"
  "j_admission (put_publisher fails p j) = j_admission j" "j_publisher (put_publisher fails p j) = p"
  "j_history (put_publisher fails p j) = j_history j" "j_cleanup (put_publisher fails p j) = j_cleanup j"
  by (simp_all add: put_publisher_def Let_def)

section \<open>The handler is driven by its own events\<close>

lemma silence_reaches: "P (Silence fails) \<Longrightarrow> reaches (control_step py) P c (silence fails c)"
  using reaches_step [of P "Silence fails" "control_step py" c] by simp

lemma abort_control [simp]:
  "P (Silence fails) \<Longrightarrow> reaches (control_step py) P (j_control j) (j_control (abort fails j))"
  by (simp add: abort_def cancel_startup_def silence_job_def silence_reaches)

lemma put_control [simp]:
  "P (Silence fails) \<Longrightarrow> reaches (control_step py) P (j_control j) (j_control (put_admission fails a j))"
  "P (Silence fails) \<Longrightarrow> reaches (control_step py) P (j_control j) (j_control (put_publisher fails p j))"
  using abort_control [of P fails py "j\<lparr>j_admission := a\<rparr>"] abort_control [of P fails py "j\<lparr>j_publisher := p\<rparr>"]
  by (simp_all add: put_admission_def put_publisher_def Let_def)

lemma begin_cleanup_control:
  assumes "P Unready" "P (Silence fails)"
  shows "reaches (control_step py) P (j_control j) (j_control (begin_cleanup cfg fails j))"
proof -
  have "reaches (control_step py) P (j_control j) (silence fails ((j_control j)\<lparr>h_ready := False\<rparr>))"
    using reaches_trans [OF reaches_step [of P Unready "control_step py" "j_control j"]
        silence_reaches [of P fails py]] assms
    by simp
  then show ?thesis
    by (simp add: begin_cleanup_def Let_def silence_job_def cancel_startup_def)
qed

lemma resume_cleanup_control:
  "P Close \<Longrightarrow> reaches (control_step py) P (j_control j) (j_control (resume_cleanup j))"
  using reaches_step [of P Close "control_step py" "j_control j"]
  by (auto simp: resume_cleanup_def close_resource_def end_cleanup_def Let_def
      split: option.split cleanup_phase.split list.split resource.split)

lemma recheck_control:
  assumes "\<not> j_aborted j \<Longrightarrow> reaches (control_step py) P c (j_control (k j))"
    and "reaches (control_step py) P c (j_control j)"
  shows "reaches (control_step py) P c (j_control (recheck room k j))"
  using assms by (simp add: recheck_def split: sum.split)

lemma open_session_control:
  assumes "P (Attach (c_transfer_statement call) (c_failed_transfer_statement call))"
  shows "reaches (control_step py) P (j_control j) (j_control (open_session py cfg r leg call j))"
  using assms reaches_step [of P "Attach (c_transfer_statement call) (c_failed_transfer_statement call)"
      "control_step py" "j_control j"]
  by (simp add: open_session_def split: option.split)

lemma open_conversation_control:
  assumes "P (Activate (in_now r))"
  shows "reaches (control_step py) P (j_control j) (j_control (open_conversation cfg r j))"
  using assms reaches_step [of P "Activate (in_now r)" "control_step py" "j_control j"]
  by (simp add: open_conversation_def Let_def)

lemma subscription_pass_control:
  assumes "P (Silence fails)"
  shows "reaches (control_step py) P (j_control j) (j_control (subscription_pass cfg fails r p j))"
  using put_control(1) [of P fails py j] assms
  by (auto simp: subscription_pass_def publish_readiness_def Let_def split: pass.split prod.split
      intro!: recheck_control)

lemma resume_startup_control:
  "reaches (control_step py) (allowed True j) (j_control j) (j_control (resume_startup py cfg fails r j))"
proof (cases "\<not> startup_running j \<or> j_cancel j \<or> j_expired j \<or> in_error r \<noteq> None")
  case True
  then show ?thesis by (auto simp: resume_startup_def)
next
  case False
  have pass: "j_control (admission_pass cfg r j') = j_control j'" for j'
    by (simp add: admission_pass_def Let_def split: prod.split pass.split)
  have sub: "reaches (control_step py) (allowed True j) (j_control j') (j_control (subscription_pass cfg fails r p j'))" for p j'
    by (rule subscription_pass_control) simp
  show ?thesis
  proof (cases "j_phase j")
    case (AtBootstrap leg)
    have "reaches (control_step py) (allowed True j) (j_control j) (j_control (authorized py cfg r leg j))"
      by (auto simp: authorized_def AtBootstrap split: sum.split intro!: recheck_control
          open_session_control [of _ _ _ "observe cfg ''bootstrap-authorized'' [] j", simplified])
    with False AtBootstrap show ?thesis by (simp add: resume_startup_def)
  next
    case AtPublish
    let ?j = "observe cfg ''readiness-published'' [] j"
    have "reaches (control_step py) (allowed True j) (j_control j) (j_control (recheck (in_room r) (open_conversation cfg r) ?j))"
    proof (rule recheck_control)
      assume "\<not> j_aborted ?j"
      then show "reaches (control_step py) (allowed True j) (j_control j) (j_control (open_conversation cfg r ?j))"
        using open_conversation_control [of "allowed True j" r py ?j cfg] AtPublish False by simp
    qed simp
    with False AtPublish show ?thesis by (simp add: resume_startup_def)
  qed (use False pass sub [of "observe cfg ''session-started'' [] (j\<lparr>j_stage := ''sip-audio-subscription''\<rparr>)"]
      sub [of j] in \<open>simp_all add: resume_startup_def\<close>)
qed

lemma resume_entry_control:
  "reaches (control_step py) (allowed False j) (j_control j) (j_control (resume_entry cfg cn fails j))"
proof -
  have f: "reaches (control_step py) (allowed False j) (j_control j') (j_control (entry_finally cfg fails j'))" for j'
    using begin_cleanup_control [of "allowed False j" fails py "j'\<lparr>j_entry := InCleanup\<rparr>" cfg]
    by (simp add: entry_finally_def)
  have s: "j_control (startup_failed cfg cn x j) = j_control j" for x
    by (simp add: startup_failed_def split: startup_outcome.split)
  have a: "reaches (control_step py) (allowed False j) (j_control j) (j_control (abort fails (startup_failed cfg cn x j)))" for x
    using abort_control [of "allowed False j" fails py "startup_failed cfg cn x j"] s by simp
  show ?thesis
    using f reaches_trans [OF a f] by (auto simp: resume_entry_def split: startup_phase.split)
qed

lemma on_data_control:
  "reaches (control_step py) (allowed False j) (j_control j) (j_control (on_data py packet now loop fails j))"
proof (cases "cleaned j \<or> j_aborted j")
  case False
  have r: "reaches (control_step py) (allowed False j) (j_control j) (fst (receive py packet now loop fails (j_control j)))"
    using reaches_step [of "allowed False j" "Receive packet now loop fails" "control_step py" "j_control j"] False by simp
  let ?j = "j\<lparr>j_control := fst (receive py packet now loop fails (j_control j))\<rparr>"
  have "reaches (control_step py) (allowed False j) (fst (receive py packet now loop fails (j_control j))) (j_control (abort fails ?j))"
    using abort_control [of "allowed False j" fails py ?j] by simp
  with r show ?thesis using False by (auto simp: on_data_def Let_def intro: reaches_trans)
qed (simp add: on_data_def)

lemma callbacks_control:
  "reaches (control_step py) (allowed False j) (j_control j) (j_control (on_caller cfg fails fr rf body fin j))"
  "reaches (control_step py) (allowed False j) (j_control j) (j_control (on_item cfg fails fr item j))"
  "reaches (control_step py) (allowed False j) (j_control j) (j_control (room_event fails a j))"
  "reaches (control_step py) (allowed False j) (j_control j) (j_control (publisher_task fails p j))"
  "reaches (control_step py) (allowed False j) (j_control j) (j_control (control_task py e j))"
  "j_control (history_task py h j) = j_control j"
proof -
  have q: "reaches (control_step py) (allowed False j) (j_control j') (j_control (enqueue_transcript fails v j'))" for v j'
    by (simp add: enqueue_transcript_def)
  have q': "reaches (control_step py) (allowed False j) c (j_control (enqueue_transcript fails v j'))"
    if "j_control j' = c" for v j' c
    using q [of j' v] that by simp
  have c: "j_control (count_speech cfg fin j) = j_control j" "j_control (remember_item item j) = j_control j"
    "j_control (count_item cfg j') = j_control j'" for j'
    by (simp_all add: count_speech_def remember_item_def count_item_def Let_def)
  have "reaches (control_step py) (allowed False j) (j_control j) (j_control (send_caller fails fr rf body fin j'))"
    if "j_control j' = j_control j" for j'
    using q' [of "j'\<lparr>j_stream := fst (caller fr body fin (j_stream j'))\<rparr>" "j_control j"] that
    by (auto simp: send_caller_def Let_def split: prod.split sum.split)
  then show "reaches (control_step py) (allowed False j) (j_control j) (j_control (on_caller cfg fails fr rf body fin j))"
    using c by (simp add: on_caller_def Let_def)
  have "reaches (control_step py) (allowed False j) (j_control j) (j_control (send_item fails fr item j'))"
    if "j_control j' = j_control j" for j'
    using that by (auto simp: send_item_def split: prod.split sum.split intro!: q')
  then show "reaches (control_step py) (allowed False j) (j_control j) (j_control (on_item cfg fails fr item j))"
    using c by (simp add: on_item_def Let_def)
  show "reaches (control_step py) (allowed False j) (j_control j) (j_control (control_task py e j))"
    using reaches_step [of "allowed False j" e "control_step py" "j_control j"]
    by (cases e) (simp_all add: control_task_def)
qed (auto simp: room_event_def publisher_task_def history_task_def split: publisher_event.split history_event.split)

lemma job_step_control:
  "reaches (control_step py) (allowed (is_startup e) j) (j_control j) (j_control (job_step py cfg j (fails, e)))"
  by (cases e)
     (simp_all add: resume_startup_control resume_entry_control on_data_control callbacks_control
       begin_cleanup_control resume_cleanup_control deadline_passed_def cancel_startup_def on_error_def)

end
