(* ===== verification/Job_Invariant.thy ===== *)
theory Job_Invariant
  imports Job
begin

text \<open>
  What holds of a job at every point of every run: which of the handler's events a job
  causes, what its phase has established, and what no callback or task can change.
\<close>

section \<open>What is known at each point\<close>

text \<open>The handler before the conversation: not ready, no announcement, nothing heard or said.\<close>

definition mute :: "handler \<Rightarrow> bool" where
  "mute c \<longleftrightarrow> \<not> h_ready c \<and> h_next c = 0 \<and> h_current c = None \<and> audible c = []"

definition published :: "job \<Rightarrow> bool" where
  "published j \<longleftrightarrow> (\<exists>b. PublishReady b \<in> set (j_effects j))"

text \<open>The startup's own speech: the opening statement or the greeting.\<close>

definition speaks :: "job \<Rightarrow> bool" where
  "speaks j \<longleftrightarrow> GenerateGreeting \<in> set (j_effects j) \<or> (\<exists>t. SayOpening t \<in> set (j_effects j))"

text \<open>What the startup asks of the SDK, without logging, shutting down and closing.\<close>

fun startup_call :: "job_effect \<Rightarrow> bool" where
  "startup_call (Observe fs) = False"
| "startup_call (ShutdownContext s) = False"
| "startup_call (CloseResource r) = False"
| "startup_call LeaveRoom = False"
| "startup_call e = True"

definition core :: "job \<Rightarrow> job_effect list" where
  "core j = filter startup_call (j_effects j)"

definition granted :: "python \<Rightarrow> job_config \<Rightarrow> sip_leg \<Rightarrow> call_configuration \<Rightarrow> bool" where
  "granted py cfg leg call \<longleftrightarrow>
     (\<exists>post. snd (authorize py post (jc_bootstrap cfg) (jc_dispatch cfg) (jc_room_name cfg) leg) = Inr call)"

definition base_inv :: "python \<Rightarrow> job_config \<Rightarrow> job \<Rightarrow> bool" where
  "base_inv py cfg j \<longleftrightarrow>
     h_session (j_control j) = j_session j
     \<and> (\<forall>leg call. j_grant j = Some (leg, call) \<longrightarrow> adm_leg (j_admission j) = Some leg \<and> granted py cfg leg call)
     \<and> (published j \<or> mute (j_control j)) \<and> (published j \<longrightarrow> j_session j)
     \<and> (speaks j \<longrightarrow> published j)
     \<and> (j_aborted j \<or> cleaned j \<longrightarrow> startup_running j \<longrightarrow> j_cancel j)"

definition phase_inv :: "job \<Rightarrow> bool" where
  "phase_inv j \<longleftrightarrow>
     (case j_phase j of
        AtBootstrap leg \<Rightarrow> adm_leg (j_admission j) = Some leg \<and> \<not> j_session j
      | AtSessionStart \<Rightarrow> j_session j
      | AtSubscription \<Rightarrow> j_session j \<and> adm_authorized (j_admission j)
      | AtPublish \<Rightarrow> j_session j \<and> published j
      | StartupDone r \<Rightarrow> True
      | _ \<Rightarrow> adm_leg (j_admission j) = None \<and> \<not> j_session j)"

definition job_inv :: "python \<Rightarrow> job_config \<Rightarrow> job \<Rightarrow> bool" where
  "job_inv py cfg j \<longleftrightarrow> base_inv py cfg j \<and> phase_inv j"

lemma published_fields [simp]:
  "published (call_sdk e j) = (published j \<or> (\<exists>b. e = PublishReady b))"
  "published (observe cfg v x j) = published j" "published (finish r j) = published j"
  by (auto simp: published_def observe_def)

lemma speaks_fields [simp]:
  "speaks (call_sdk e j) = (speaks j \<or> e = GenerateGreeting \<or> (\<exists>t. e = SayOpening t))"
  "speaks (observe cfg v x j) = speaks j" "speaks (finish r j) = speaks j"
  by (auto simp: speaks_def observe_def)

lemma core_fields [simp]:
  "core (call_sdk e j) = core j @ (if startup_call e then [e] else [])"
  "core (observe cfg v x j) = core j" "core (finish r j) = core j"
  by (simp_all add: core_def observe_def call_sdk_def finish_def)

lemma abort_published [simp]: "published (abort fails j) = published j" "speaks (abort fails j) = speaks j"
  by (auto simp: abort_def cancel_startup_def silence_job_def published_def speaks_def call_sdk_def)

lemma put_published [simp]:
  "published (put_admission fails a j) = published j" "published (put_publisher fails p j) = published j"
  "speaks (put_admission fails a j) = speaks j" "speaks (put_publisher fails p j) = speaks j"
proof -
  have "published (j\<lparr>j_admission := a\<rparr>) = published j" "published (j\<lparr>j_publisher := p\<rparr>) = published j"
    "speaks (j\<lparr>j_admission := a\<rparr>) = speaks j" "speaks (j\<lparr>j_publisher := p\<rparr>) = speaks j"
    by (simp_all add: published_def speaks_def)
  then show "published (put_admission fails a j) = published j" "published (put_publisher fails p j) = published j"
    "speaks (put_admission fails a j) = speaks j" "speaks (put_publisher fails p j) = speaks j"
    by (simp_all add: put_admission_def put_publisher_def Let_def)
qed

text \<open>The handler's events: only \<open>Activate\<close> can end the silence, only \<open>Attach\<close> gives a session.\<close>

lemma audible_simps [simp]:
  "audible (emit e c) = audible c @ (if is_audible e then [e] else [])"
  by (simp add: audible_def emit_def)

lemma mute_step: "mute c \<Longrightarrow> \<forall>now. e \<noteq> Activate now \<Longrightarrow> mute (control_step py c e)"
  by (cases e)
     (auto simp: mute_def receive_def human_answered_def transfer_requested_def transfer_failed_def
       start_announcement_def extend_outro_def cancel_announcement_def remember_def attach_def silence_def
       resume_announcement_def fire_timeout_def resume_stop_def end_handoff_def set_input_def set_output_def
       audible_def is_audible_def emit_def Let_def
       split: sum.split action.split option.split stop_phase.split)

lemma human_session [simp]: "h_session (human_answered d now loop fails s) = h_session s"
  by (simp add: human_answered_def Let_def)

lemma transfer_session [simp]:
  "h_session (transfer_requested d now s) = h_session s" "h_session (transfer_failed d now s) = h_session s"
  by (simp_all add: transfer_requested_def transfer_failed_def Let_def)

lemma receive_session [simp]: "h_session (fst (receive py packet now loop fails s)) = h_session s"
  by (simp add: receive_def Let_def split: sum.split action.split)

lemma go_live_session [simp]: "h_session (go_live now s) = h_session s"
  by (simp add: go_live_def activate_def Let_def)

lemma resume_stop_session [simp]: "h_session (resume_stop c now loop fails s) = h_session s"
  by (simp add: resume_stop_def end_handoff_def split: option.split stop_phase.split)

lemma resume_stop_input: "\<not> h_input s \<Longrightarrow> \<not> h_input (resume_stop c now loop fails s)"
  by (simp add: resume_stop_def end_handoff_def silence_audio split: option.split stop_phase.split)

lemma session_step: "\<forall>tr fa. e \<noteq> Attach tr fa \<Longrightarrow> h_session (control_step py c e) = h_session c"
  by (cases e) (simp_all add: fire_timeout_def Let_def)

lemma input_step:
  "\<not> h_input c \<Longrightarrow> \<forall>now. e \<noteq> Activate now \<Longrightarrow> \<forall>p n l f. e \<noteq> Receive p n l f \<Longrightarrow>
     \<not> h_input (control_step py c e)"
  by (cases e) (simp_all add: fire_timeout_def attach_def silence_audio resume_stop_input Let_def)

lemma job_mute:
  assumes "mute (j_control j)" "j_phase j \<noteq> AtPublish \<or> \<not> is_startup e"
  shows "mute (j_control (job_step py cfg j (fails, e)))"
proof (rule reaches_inv [OF job_step_control, where ok = mute])
  fix c :: handler and v assume c: "mute c" and "allowed (is_startup e) j v"
  with assms(2) have "\<forall>now. v \<noteq> Activate now" by auto
  with c show "mute (control_step py c v)" by (rule mute_step)
qed (rule assms(1))

lemma job_session:
  assumes "(\<forall>leg. j_phase j \<noteq> AtBootstrap leg) \<or> \<not> is_startup e"
  shows "h_session (j_control (job_step py cfg j (fails, e))) = h_session (j_control j)"
proof (rule reaches_inv [OF job_step_control, where ok = "\<lambda>c. h_session c = h_session (j_control j)"])
  fix c :: handler and v assume c: "h_session c = h_session (j_control j)" and "allowed (is_startup e) j v"
  with assms have "\<forall>tr fa. v \<noteq> Attach tr fa" by auto
  then have "h_session (control_step py c v) = h_session c" by (rule session_step)
  with c show "h_session (control_step py c v) = h_session (j_control j)" by simp
qed simp

section \<open>The invariant of a job\<close>

text \<open>
  Steps that are not the startup's keep the phase and the grant, only lengthen the record of
  calls, and leave the leg and the authorization of the audio alone.
\<close>

definition bound :: "admission \<Rightarrow> sip_leg option \<times> bool" where
  "bound a = (adm_leg a, adm_authorized a)"

lemma perform_bound [simp]: "bound (perform e a) = bound a"
  by (simp add: bound_def perform_def)

lemma bound_fields [simp]:
  "bound (a\<lparr>adm_changed := c\<rparr>) = bound a" "bound (a\<lparr>adm_requested := q\<rparr>) = bound a"
  "bound (a\<lparr>adm_closed := c\<rparr>) = bound a" "bound (a\<lparr>adm_connected := c\<rparr>) = bound a"
  "bound (a\<lparr>adm_effects := x\<rparr>) = bound a"
  by (simp_all add: bound_def)

lemma on_changed_bound [simp]: "bound (on_changed room a) = bound a"
  by (simp add: on_changed_def Let_def split: sum.split)

lemma on_disconnected_bound [simp]: "bound (on_disconnected sid room a) = bound a"
  by (simp add: on_disconnected_def split: option.split)

lemma track_published_bound [simp]: "bound (track_published fails pub p room a) = bound a"
  by (simp add: track_published_def speaks_def Let_def split: sum.split)

lemma track_others_bound [simp]:
  "bound (track_subscribed pub p a) = bound a" "bound (track_subscription_failed sid t a) = bound a"
  "bound (track_unsubscribed pub p a) = bound a" "bound (on_room_disconnected a) = bound a"
  "bound (close_admission a) = bound a"
proof -
  show "bound (track_subscribed pub p a) = bound a" by (simp add: track_subscribed_def)
  show "bound (track_subscription_failed sid t a) = bound a"
    by (cases "adm_leg a") (simp_all add: track_subscription_failed_def)
  show "bound (track_unsubscribed pub p a) = bound a" by (simp add: track_unsubscribed_def)
  show "bound (on_room_disconnected a) = bound a" by (simp add: on_room_disconnected_def)
  show "bound (close_admission a) = bound a" by (simp add: close_admission_def bound_def del: bound_fields)
qed

lemma room_handler_bound [simp]: "bound (room_handler a e) = bound a"
  by (cases e) simp_all

lemma leg_frame [simp]:
  "adm_leg (room_handler a e) = adm_leg a" "adm_authorized (room_handler a e) = adm_authorized a"
  "adm_leg (close_admission a) = adm_leg a" "adm_authorized (close_admission a) = adm_authorized a"
  using room_handler_bound [of a e] track_others_bound(5) [of a] by (simp_all add: bound_def)

lemma subscribe_loop_bound [simp]: "bound (fst (subscribe_loop fails pubs p room a)) = bound a"
  by (induction fails pubs p room a rule: subscribe_loop.induct) (simp_all add: Let_def)

lemma subscribe_loop_leg:
  "subscribe_loop fails pubs p room a = (a', b) \<Longrightarrow> adm_leg a' = adm_leg a \<and> adm_authorized a' = adm_authorized a"
  using subscribe_loop_bound [of fails pubs p room a] by (simp add: bound_def)

lemma subscribe_leg:
  assumes "subscribe_pass fails room a = (a', r)"
  shows "adm_leg a' = adm_leg a \<and> adm_authorized a' = adm_authorized a"
proof -
  let ?a = "a\<lparr>adm_changed := False\<rparr>"
  let ?p = "Option.bind (adm_leg ?a) (\<lambda>leg. find_participant (leg_identity leg) room)"
  consider "adm_closed a" | e where "\<not> adm_closed a" "validate room ?a = Inl e"
    | "\<not> adm_closed a" "validate room ?a = Inr ()" "?p = None"
    | q where "\<not> adm_closed a" "validate room ?a = Inr ()" "?p = Some q"
    by (cases "validate room ?a"; cases ?p) auto
  then show ?thesis
  proof cases
    case (4 q)
    obtain s b where l: "subscribe_loop fails (part_publications q) q room ?a = (s, b)" by fastforce
    have "a' = (if b then s else s\<lparr>adm_changed := False\<rparr>)"
      using assms 4 l by (cases b) (simp_all add: subscribe_pass_def)
    then show ?thesis using subscribe_loop_leg [OF l] by simp
  qed (use assms in \<open>auto simp: subscribe_pass_def\<close>)
qed

lemma subscribe_start_leg:
  assumes "subscribe_start fails room a = (a', r)"
  shows "adm_leg a' = adm_leg a" "r = pass.Waiting \<Longrightarrow> adm_authorized a'"
proof -
  show "adm_leg a' = adm_leg a"
    using assms subscribe_leg [of fails room "a\<lparr>adm_authorized := True\<rparr>" a' r]
    by (auto simp: subscribe_start_def split: sum.splits)
  show "r = pass.Waiting \<Longrightarrow> adm_authorized a'"
    using assms subscribe_leg [of fails room "a\<lparr>adm_authorized := True\<rparr>" a' r]
    by (auto simp: subscribe_start_def split: sum.splits)
qed

definition keeps :: "job \<Rightarrow> job \<Rightarrow> bool" where
  "keeps j j' \<longleftrightarrow>
     j_phase j' = j_phase j \<and> j_grant j' = j_grant j \<and> core j' = core j \<and> published j' = published j
     \<and> speaks j' = speaks j \<and> set (j_effects j) \<subseteq> set (j_effects j')
     \<and> adm_leg (j_admission j') = adm_leg (j_admission j)
     \<and> adm_authorized (j_admission j') = adm_authorized (j_admission j)
     \<and> ((j_aborted j \<or> cleaned j \<longrightarrow> startup_running j \<longrightarrow> j_cancel j)
         \<longrightarrow> (j_aborted j' \<or> cleaned j' \<longrightarrow> startup_running j' \<longrightarrow> j_cancel j'))"

lemma keeps_refl [simp]: "keeps j j"
  by (simp add: keeps_def)

lemma keeps_trans: "keeps j k \<Longrightarrow> keeps k l \<Longrightarrow> keeps j l"
  unfolding keeps_def by (metis order_trans)

lemma keeps_cancel:
  "keeps j (cancel_startup j)" "startup_running (cancel_startup j) \<Longrightarrow> j_cancel (cancel_startup j)"
  by (auto simp: keeps_def cancel_startup_def startup_running_def published_def speaks_def core_def cleaned_def)

lemma keeps_abort [simp]: "keeps j (abort fails j)"
  by (auto simp: keeps_def abort_def cancel_startup_def silence_job_def startup_running_def cleaned_def
      published_def speaks_def core_def call_sdk_def split: startup_phase.split)

lemma keeps_observe [simp]: "keeps j (observe cfg v x j)"
  by (auto simp: keeps_def observe_def)

lemma keeps_update:
  "keeps j (j\<lparr>j_control := c\<rparr>)" "keeps j (j\<lparr>j_stream := st\<rparr>)" "keeps j (j\<lparr>j_publisher := pu\<rparr>)"
  "keeps j (j\<lparr>j_history := h\<rparr>)" "keeps j (j\<lparr>j_stt_events := n, j_stt_finals := m\<rparr>)"
  "keeps j (j\<lparr>j_assistant_items := n\<rparr>)" "keeps j (j\<lparr>j_entry := en\<rparr>)"
  "adm_leg a = adm_leg (j_admission j) \<Longrightarrow> adm_authorized a = adm_authorized (j_admission j) \<Longrightarrow>
     keeps j (j\<lparr>j_admission := a\<rparr>)"
  by (simp_all add: keeps_def startup_running_def cleaned_def published_def speaks_def core_def)

lemma keeps_put:
  "adm_leg a = adm_leg (j_admission j) \<Longrightarrow> adm_authorized a = adm_authorized (j_admission j) \<Longrightarrow>
     keeps j (put_admission fails a j)"
  "keeps j (put_publisher fails p j)"
  using keeps_trans [OF keeps_update(8) keeps_abort] keeps_trans [OF keeps_update(3) keeps_abort]
  by (auto simp: put_admission_def put_publisher_def Let_def keeps_update)

lemma keeps_begin_cleanup: "keeps j (begin_cleanup cfg fails j)"
  by (auto simp: keeps_def begin_cleanup_def cancel_startup_def silence_job_def startup_running_def cleaned_def
      published_def speaks_def core_def observe_def call_sdk_def Let_def split: startup_phase.split)

lemma keeps_resume_cleanup: "keeps j (resume_cleanup j)"
  by (auto simp: keeps_def resume_cleanup_def close_resource_def end_cleanup_def startup_running_def cleaned_def
      published_def speaks_def core_def call_sdk_def Let_def split: option.split cleanup_phase.split list.split resource.split)

lemma keeps_entry: "keeps j (resume_entry cfg cn fails j)"
proof -
  have f: "keeps j' (entry_finally cfg fails j')" for j'
    using keeps_trans [OF keeps_update(7) keeps_begin_cleanup]
    by (auto simp: entry_finally_def keeps_update) (auto simp: keeps_def startup_running_def cleaned_def published_def speaks_def core_def call_sdk_def)
  have s: "keeps j (startup_failed cfg cn r j)" for r
    by (simp add: startup_failed_def split: startup_outcome.split)
  show ?thesis
    using f keeps_trans [OF s keeps_trans [OF keeps_abort f]]
    by (auto simp: resume_entry_def split: startup_phase.split)
qed

lemma keeps_on_data: "keeps j (on_data py packet now loop fails j)"
  using keeps_trans [OF keeps_update(1) keeps_abort]
  by (auto simp: on_data_def Let_def keeps_update)

lemma keeps_enqueue: "keeps j (enqueue_transcript fails v j)"
  by (simp add: enqueue_transcript_def keeps_put)

lemma keeps_count:
  "keeps j (count_speech cfg fin j)" "keeps j (remember_item item j)" "keeps j (count_item cfg j)"
  by (auto simp: keeps_def count_speech_def remember_item_def count_item_def startup_running_def cleaned_def
      published_def speaks_def core_def observe_def call_sdk_def Let_def)

lemma keeps_sent: "keeps j (enqueue_transcript fails v (j\<lparr>j_stream := s\<rparr>))"
  by (rule keeps_trans [OF keeps_update(2) keeps_enqueue])

lemma keeps_send:
  "keeps j (send_caller fails fr rf body fin j)" "keeps j (send_item fails fr item j)"
  using keeps_trans [OF keeps_sent keeps_update(4)]
  by (auto simp: send_caller_def send_item_def Let_def keeps_update keeps_sent split: prod.split sum.split)

lemma keeps_on_caller: "keeps j (on_caller cfg fails fr rf body fin j)"
  using keeps_trans [OF keeps_count(1) keeps_send(1)] by (simp add: on_caller_def Let_def keeps_count)

lemma keeps_on_item: "keeps j (on_item cfg fails fr item j)"
  using keeps_trans [OF keeps_count(2) keeps_trans [OF keeps_count(3) keeps_send(2)]]
  by (simp add: on_item_def Let_def keeps_count)

lemma job_step_keeps:
  assumes "\<not> is_startup e"
  shows "keeps j (job_step py cfg j (fails, e))"
  using assms
  by (cases e)
     (simp_all add: keeps_entry keeps_resume_cleanup keeps_begin_cleanup keeps_cancel keeps_on_data keeps_on_caller
       keeps_on_item keeps_put room_event_def control_task_def publisher_task_def history_task_def keeps_update
       deadline_passed_def on_error_def split: control_event.split publisher_event.split history_event.split,
      simp_all add: keeps_def startup_running_def cleaned_def published_def speaks_def core_def)

lemma other_step_inv:
  assumes "job_inv py cfg j" "\<not> is_startup e"
  shows "job_inv py cfg (job_step py cfg j (fails, e))"
proof -
  let ?j = "job_step py cfg j (fails, e)"
  have k: "keeps j ?j" using assms(2) by (rule job_step_keeps)
  have "h_session (j_control ?j) = h_session (j_control j)" using assms(2) by (intro job_session) simp
  moreover have "mute (j_control j) \<Longrightarrow> mute (j_control ?j)" using assms(2) by (intro job_mute) simp_all
  ultimately have "base_inv py cfg ?j"
    using assms(1) k unfolding job_inv_def base_inv_def keeps_def by metis
  moreover have "phase_inv ?j = phase_inv j"
    using k by (simp only: phase_inv_def keeps_def)
  ultimately show ?thesis using assms(1) by (simp add: job_inv_def)
qed

text \<open>The startup: what each piece needs and leaves.\<close>

lemma finish_inv: "base_inv py cfg j \<Longrightarrow> job_inv py cfg (finish r j)"
  by (simp add: job_inv_def base_inv_def phase_inv_def) (simp add: finish_def)

lemma base_observe: "base_inv py cfg (observe cfg v x j) = base_inv py cfg j"
  by (simp add: base_inv_def)

lemma base_phase:
  "base_inv py cfg j \<Longrightarrow> startup_running j \<Longrightarrow> base_inv py cfg (j\<lparr>j_phase := q\<rparr>)"
  by (simp add: base_inv_def published_def speaks_def cleaned_def)

lemma base_stage [simp]: "base_inv py cfg (j\<lparr>j_stage := t\<rparr>) = base_inv py cfg j"
  by (simp add: base_inv_def published_def speaks_def cleaned_def startup_running_def)

lemma running_stage [simp]: "startup_running (j\<lparr>j_stage := t\<rparr>) = startup_running j"
  by (simp add: startup_running_def)

lemma recheck_inv:
  assumes "base_inv py cfg j"
    and "\<not> j_aborted j \<Longrightarrow> \<not> h_stopping (j_control j) \<Longrightarrow> job_inv py cfg (k j)"
  shows "job_inv py cfg (recheck room k j)"
  using assms by (simp add: recheck_def finish_inv split: sum.split)

lemma admission_pass_inv:
  assumes "base_inv py cfg j" "adm_leg (j_admission j) = None" "\<not> j_session j" "startup_running j"
  shows "job_inv py cfg (admission_pass cfg r j)"
proof -
  obtain a p where w: "wait_pass (in_room r) (j_admission j) = (a, p)" by fastforce
  have l: "p = pass.Waiting \<Longrightarrow> adm_leg a = None" "p = pass.Returned leg \<Longrightarrow> adm_leg a = Some leg" for leg
    using w assms(2)
    by (auto simp: wait_pass_def Let_def split: list.splits option.splits sum.splits)
  have b: "base_inv py cfg (j\<lparr>j_admission := a\<rparr>)"
    using assms by (simp add: base_inv_def) (auto simp: published_def speaks_def cleaned_def startup_running_def)
  show ?thesis
  proof (cases p)
    case Waiting
    then show ?thesis
      using w b l(1) assms
      by (simp add: admission_pass_def job_inv_def base_inv_def phase_inv_def)
        (auto simp: published_def speaks_def cleaned_def startup_running_def)
  next
    case (Raised e)
    then show ?thesis using w b by (simp add: admission_pass_def finish_inv)
  next
    case (Returned leg)
    then show ?thesis
      using w b l(2) assms
      by (simp add: admission_pass_def job_inv_def base_inv_def phase_inv_def)
        (auto simp: published_def speaks_def cleaned_def startup_running_def)
  qed
qed

lemma open_session_inv:
  assumes "base_inv py cfg j" "adm_leg (j_admission j) = Some leg" "\<not> j_session j" "granted py cfg leg call"
    and "\<not> j_aborted j" "\<not> cleaned j" "\<not> h_stopping (j_control j)"
  shows "job_inv py cfg (open_session py cfg r leg call j)"
proof (cases "in_session_error r")
  case (Some e)
  have "base_inv py cfg (j\<lparr>j_stage := ''session-create''\<rparr>)"
    using assms(1) by (simp add: base_inv_def) (auto simp: published_def speaks_def cleaned_def startup_running_def)
  with Some show ?thesis by (simp add: open_session_def finish_inv)
next
  case None
  let ?c = "attach (c_transfer_statement call) (c_failed_transfer_statement call) (j_control j)"
  have m: "mute (j_control j)" "\<not> published j" "\<not> h_session (j_control j)"
    using assms(1,3) by (auto simp: base_inv_def)
  have "mute ?c"
    using mute_step [OF m(1), of "Attach (c_transfer_statement call) (c_failed_transfer_statement call)" py] by simp
  moreover have "h_session ?c" using m assms(7) by (simp add: attach_def)
  moreover have "\<not> speaks j" using assms(1) m(2) by (auto simp: base_inv_def)
  with m(2) None have "\<not> published (open_session py cfg r leg call j)" "\<not> speaks (open_session py cfg r leg call j)"
    by (simp_all add: open_session_def published_def speaks_def call_sdk_def)
  ultimately show ?thesis
    using None assms
    by (simp add: job_inv_def base_inv_def phase_inv_def open_session_def cleaned_def)
qed

lemma authorized_inv:
  assumes "job_inv py cfg j" "j_phase j = AtBootstrap leg" "\<not> j_cancel j"
  shows "job_inv py cfg (authorized py cfg r leg j)"
proof (cases "snd (authorize py (in_post r) (jc_bootstrap cfg) (jc_dispatch cfg) (jc_room_name cfg) leg)")
  case (Inl e)
  moreover have "base_inv py cfg j" using assms(1) by (simp add: job_inv_def)
  ultimately show ?thesis by (simp add: authorized_def finish_inv)
next
  case (Inr call)
  have b: "base_inv py cfg (observe cfg v x j)" for v x
    using assms(1) by (simp add: base_observe job_inv_def)
  have p: "adm_leg (j_admission j) = Some leg" "\<not> j_session j" "\<not> j_aborted j" "\<not> cleaned j"
    using assms by (auto simp: job_inv_def phase_inv_def base_inv_def startup_running_def)
  have "granted py cfg leg call" using Inr by (auto simp: granted_def)
  then show ?thesis
    using Inr b p by (simp add: authorized_def) (rule recheck_inv; simp add: open_session_inv)
qed

lemma publish_readiness_inv:
  assumes "base_inv py cfg j" "startup_running j" "j_session j"
  shows "job_inv py cfg (publish_readiness cfg r j)"
proof (cases "in_identity r = [] \<or> in_sid r = []")
  case True
  then show ?thesis using assms(1) by (simp add: publish_readiness_def finish_inv)
next
  case False
  let ?j = "j\<lparr>j_stage := ''readiness-publish'', j_phase := AtPublish\<rparr>"
  have "base_inv py cfg ?j" by (rule base_phase) (simp_all add: assms)
  then have "base_inv py cfg (call_sdk (PublishReady (ready_payload cfg r)) ?j)"
    using assms(3) by (simp add: base_inv_def)
  then show ?thesis
    using False assms(3) by (simp add: publish_readiness_def job_inv_def phase_inv_def)
qed

lemma subscription_pass_inv:
  assumes "base_inv py cfg j" "j_session j"
    and "adm_leg (fst p) = adm_leg (j_admission j)" "snd p = pass.Waiting \<Longrightarrow> adm_authorized (fst p)"
    and "startup_running j"
  shows "job_inv py cfg (subscription_pass cfg fails r p j)"
proof -
  obtain a q where p: "p = (a, q)" by (cases p)
  let ?j = "put_admission fails a j"
  have c: "h_session (j_control ?j) = h_session (j_control j)" "mute (j_control j) \<Longrightarrow> mute (j_control ?j)"
    using mute_step [of "j_control j" "Silence fails" py]
    by (simp_all add: put_admission_def abort_def cancel_startup_def silence_job_def Let_def)
  have f: "(j_aborted ?j \<or> cleaned ?j \<longrightarrow> startup_running ?j \<longrightarrow> j_cancel ?j)"
  proof -
    let ?a = "j\<lparr>j_admission := a\<rparr>"
    have "keeps ?a ?j" by (simp add: put_admission_def Let_def)
    moreover have "j_aborted ?a \<or> cleaned ?a \<longrightarrow> startup_running ?a \<longrightarrow> j_cancel ?a"
      using assms(1) by (simp add: base_inv_def cleaned_def startup_running_def)
    ultimately show ?thesis unfolding keeps_def by blast
  qed
  have b: "base_inv py cfg ?j"
    using assms(1-3) c f unfolding base_inv_def p fst_conv put_admission_fields put_published by metis
  have run: "startup_running ?j" using assms(5) by (simp add: startup_running_def)
  show ?thesis
  proof (cases q)
    case Waiting
    have "base_inv py cfg (?j\<lparr>j_phase := AtSubscription\<rparr>)" using b run by (rule base_phase)
    with Waiting p assms(2,4) show ?thesis
      by (simp add: subscription_pass_def Let_def job_inv_def phase_inv_def)
  next
    case (Raised e)
    with p b show ?thesis by (simp add: subscription_pass_def Let_def finish_inv)
  next
    case (Returned u)
    let ?o = "observe cfg ''sip-audio-subscribed'' [] ?j"
    have "job_inv py cfg (publish_readiness cfg r ?o)"
      using b run assms(2) by (intro publish_readiness_inv) (simp_all add: base_observe)
    then show ?thesis
      using p b Returned by (simp add: subscription_pass_def Let_def) (rule recheck_inv; simp add: base_observe)
  qed
qed

lemma base_open:
  assumes "base_inv py cfg j" "j_session j" "published j"
  shows "base_inv py cfg (j\<lparr>j_publisher := p, j_history := h, j_control := go_live n (j_control j)\<rparr>)"
  using assms by (simp add: base_inv_def published_def speaks_def cleaned_def startup_running_def)

lemma base_call:
  "base_inv py cfg j \<Longrightarrow> \<forall>b. e \<noteq> PublishReady b \<Longrightarrow>
     published j \<or> e \<noteq> GenerateGreeting \<and> (\<forall>t. e \<noteq> SayOpening t) \<Longrightarrow> base_inv py cfg (call_sdk e j)"
  by (auto simp: base_inv_def)

lemma open_conversation_inv:
  assumes "base_inv py cfg j" "j_session j" "published j"
  shows "job_inv py cfg (open_conversation cfg r j)"
proof -
  let ?j = "observe cfg ''conversation-enabled'' []
    (j\<lparr>j_publisher := start_publisher (j_publisher j), j_history := start_history (j_history j),
       j_control := go_live (in_now r) (j_control j)\<rparr>)"
  have "published ?j" using assms(3) by (auto simp: published_def observe_def)
  moreover have "base_inv py cfg ?j" using assms by (simp add: base_observe base_open)
  ultimately have "base_inv py cfg (call_sdk e ?j)" if "\<forall>b. e \<noteq> PublishReady b" for e
    using that by (intro base_call) simp_all
  then show ?thesis
    by (simp add: open_conversation_def Let_def finish_inv base_open assms)
qed

lemma resume_startup_inv:
  assumes "job_inv py cfg j"
  shows "job_inv py cfg (resume_startup py cfg fails r j)"
proof (cases "\<not> startup_running j \<or> j_cancel j \<or> j_expired j \<or> in_error r \<noteq> None")
  case True
  then show ?thesis
    using assms finish_inv by (auto simp: resume_startup_def job_inv_def)
next
  case False
  have b: "base_inv py cfg j" and run: "startup_running j" and p: "phase_inv j"
    using assms False by (simp_all add: job_inv_def)
  show ?thesis
  proof (cases "j_phase j")
    case NotBegun
    have "base_inv py cfg (j\<lparr>j_phase := AtConnect\<rparr>)" using b run by (rule base_phase)
    with NotBegun p False show ?thesis
      by (simp add: resume_startup_def job_inv_def base_call phase_inv_def)
  next
    case AtConnect
    then have "job_inv py cfg (admission_pass cfg r (j\<lparr>j_stage := ''sip-admission''\<rparr>))"
      using b run p by (intro admission_pass_inv) (simp_all add: phase_inv_def)
    with AtConnect False show ?thesis by (simp add: resume_startup_def)
  next
    case AtAdmission
    then have "job_inv py cfg (admission_pass cfg r j)"
      using b run p by (intro admission_pass_inv) (simp_all add: phase_inv_def)
    with AtAdmission False show ?thesis by (simp add: resume_startup_def)
  next
    case (AtBootstrap leg)
    with False authorized_inv [OF assms] show ?thesis by (simp add: resume_startup_def)
  next
    case AtSessionStart
    let ?p = "subscribe_start (in_subscribe_fails r) (in_room r) (j_admission j)"
    obtain a x where q: "?p = (a, x)" by (cases ?p)
    let ?j = "observe cfg ''session-started'' [] (j\<lparr>j_stage := ''sip-audio-subscription''\<rparr>)"
    have "job_inv py cfg (subscription_pass cfg fails r ?p ?j)"
      using b run p AtSessionStart subscribe_start_leg [OF q]
      by (intro subscription_pass_inv) (simp_all add: q base_observe phase_inv_def)
    with AtSessionStart False show ?thesis by (simp add: resume_startup_def)
  next
    case AtSubscription
    let ?p = "subscribe_pass (in_subscribe_fails r) (in_room r) (j_admission j)"
    obtain a x where q: "?p = (a, x)" by (cases ?p)
    have "job_inv py cfg (subscription_pass cfg fails r ?p j)"
      using b run p AtSubscription subscribe_leg [OF q]
      by (intro subscription_pass_inv) (simp_all add: q phase_inv_def)
    with AtSubscription False show ?thesis by (simp add: resume_startup_def)
  next
    case AtPublish
    let ?j = "observe cfg ''readiness-published'' [] j"
    have "job_inv py cfg (recheck (in_room r) (open_conversation cfg r) ?j)"
      using b p AtPublish by (intro recheck_inv open_conversation_inv) (simp_all add: base_observe phase_inv_def)
    with AtPublish False show ?thesis by (simp add: resume_startup_def)
  next
    case (StartupDone x)
    with run show ?thesis by (simp add: startup_running_def)
  qed
qed

lemma job_step_inv:
  assumes "job_inv py cfg j"
  shows "job_inv py cfg (job_step py cfg j e)"
proof -
  obtain fails v where e: "e = (fails, v)" by (cases e)
  show ?thesis
  proof (cases "is_startup v")
    case True
    then obtain r where "v = ResumeStartup r" by (cases v) simp_all
    with assms show ?thesis by (simp only: e job_step.simps resume_startup_inv)
  next
    case False
    with assms show ?thesis unfolding e by (rule other_step_inv)
  qed
qed

lemma new_job_inv: "job_inv py cfg (new_job cfg)"
  by (simp add: job_inv_def base_inv_def phase_inv_def new_job_def published_def speaks_def mute_def cleaned_def
      new_handler_def new_admission_def audible_def)

interpretation job: event_machine "job_step py cfg" "job_inv py cfg" for py cfg
  by unfold_locales (rule job_step_inv)

end
