(* ===== verification/Job_Shutdown.thy ===== *)
theory Job_Shutdown
  imports Job_Invariant
begin

text \<open>
  How a job ends: from an abort or the start of its cleanup on the caller is not heard, and
  a cleanup that was begun closes everything the job opened.
\<close>

section \<open>After an abort\<close>

definition hushed :: "job \<Rightarrow> bool" where
  "hushed j \<longleftrightarrow>
     control_inv (j_control j) \<and> (j_aborted j \<or> cleaned j \<longrightarrow> \<not> h_input (j_control j))
     \<and> (cleaned j \<longrightarrow> \<not> h_ready (j_control j))"

lemma hushed_same:
  "hushed j \<Longrightarrow> j_control j' = j_control j \<Longrightarrow> j_aborted j' = j_aborted j \<Longrightarrow> cleaned j' = cleaned j \<Longrightarrow> hushed j'"
  by (simp add: hushed_def)

lemma ready_step:
  "\<not> h_ready c \<Longrightarrow> \<forall>now. e \<noteq> Activate now \<Longrightarrow> \<not> h_ready (control_step py c e)"
  by (cases e)
     (simp_all add: receive_def human_answered_def transfer_requested_def transfer_failed_def attach_def
       fire_timeout_def resume_stop_def end_handoff_def Let_def
       split: sum.split action.split option.split stop_phase.split ann_phase.split)

lemma silence_inv: "control_inv c \<Longrightarrow> control_inv (silence fails c)"
  using takeover.step_inv [of c undefined "Silence fails"] by simp

lemma silence_input: "control_inv c \<Longrightarrow> \<not> h_input (silence fails c)"
  by (auto simp: silence_audio control_inv_def audio_inv_def)

lemma cancel_startup_fields [simp]:
  "j_control (cancel_startup j) = j_control j" "j_aborted (cancel_startup j) = j_aborted j"
  "cleaned (cancel_startup j) = cleaned j" "j_cleanup (cancel_startup j) = j_cleanup j"
  "j_entry (cancel_startup j) = j_entry j" "j_admission (cancel_startup j) = j_admission j"
  by (simp_all add: cancel_startup_def cleaned_def)

lemma abort_hushed [intro]: "hushed j \<Longrightarrow> hushed (abort fails j)"
  by (simp add: hushed_def abort_def silence_job_def silence_inv silence_input) (simp add: cleaned_def)

lemma put_hushed:
  assumes "hushed j"
  shows "hushed (put_admission fails a j)" "hushed (put_publisher fails p j)"
proof -
  have "hushed (j\<lparr>j_admission := a\<rparr>)" "hushed (j\<lparr>j_publisher := p\<rparr>)"
    using assms by (auto elim: hushed_same simp: cleaned_def)
  then show "hushed (put_admission fails a j)" "hushed (put_publisher fails p j)"
    by (auto simp: put_admission_def put_publisher_def Let_def)
qed

lemma begin_cleanup_hushed: "hushed j \<Longrightarrow> hushed (begin_cleanup cfg fails j)"
  using takeover.step_inv [of "j_control j" undefined Unready]
  by (auto simp: begin_cleanup_def hushed_def Let_def silence_job_def silence_inv silence_input)

lemma control_step_hushed:
  assumes "hushed j" "\<forall>n. e \<noteq> Activate n" "\<forall>p n l f. e \<noteq> Receive p n l f"
  shows "hushed (j\<lparr>j_control := control_step py (j_control j) e\<rparr>)"
  using assms input_step [of "j_control j" e py] ready_step [of "j_control j" e py] takeover.step_inv [of "j_control j" py e]
  by (auto simp: hushed_def cleaned_def)

lemma resume_cleanup_hushed:
  assumes "hushed j"
  shows "hushed (resume_cleanup j)"
proof -
  have c: "cleaned j" if "j_cleanup j = Some x" for x using that by (simp add: cleaned_def)
  have "control_inv (cancel_announcement (j_control j))" "h_input (cancel_announcement (j_control j)) = h_input (j_control j)"
    "\<not> h_ready (j_control j) \<Longrightarrow> \<not> h_ready (cancel_announcement (j_control j))"
    using assms ready_step [of "j_control j" Close undefined] takeover.step_inv [of "j_control j" undefined Close] by (simp_all add: hushed_def)
  with assms c show ?thesis
    by (auto simp: resume_cleanup_def hushed_def close_resource_def end_cleanup_def Let_def cleaned_def
        split: option.split cleanup_phase.split list.split resource.split)
qed

lemma entry_hushed: "hushed j \<Longrightarrow> hushed (resume_entry cfg cn fails j)"
proof -
  have e: "hushed (j\<lparr>j_entry := x\<rparr>)" if "hushed j" for j x
    using that by (rule hushed_same) (simp_all add: cleaned_def)
  have f: "hushed (entry_finally cfg fails j)" if "hushed j" for j
    using that e [OF that] begin_cleanup_hushed [OF e [OF that]]
    by (simp add: entry_finally_def) (auto simp: hushed_def)
  have s: "hushed (startup_failed cfg cn r j)" if "hushed j" for j r
    using that by (auto simp: startup_failed_def split: startup_outcome.split elim: hushed_same)
  assume "hushed j"
  then show ?thesis
    using f s by (auto simp: resume_entry_def split: startup_phase.split)
qed

lemma on_data_hushed:
  assumes "hushed j"
  shows "hushed (on_data py packet now loop fails j)"
proof (cases "cleaned j \<or> j_aborted j")
  case False
  have "hushed (j\<lparr>j_control := fst (receive py packet now loop fails (j_control j))\<rparr>)"
    using False assms takeover.step_inv [of "j_control j" py "Receive packet now loop fails"]
    by (simp add: hushed_def cleaned_def)
  with False show ?thesis by (auto simp: on_data_def Let_def)
qed (simp add: on_data_def assms)

lemma callbacks_hushed:
  assumes "hushed j"
  shows "hushed (on_caller cfg fails fr rf body fin j)" "hushed (on_item cfg fails fr item j)"
    "hushed (history_task py h j)" "hushed (on_error cfg b j)" "hushed (room_event fails a j)"
    "hushed (publisher_task fails p j)" "hushed (control_task py e j)"
proof -
  have s: "hushed (j'\<lparr>j_stream := x\<rparr>)" "hushed (j'\<lparr>j_history := y\<rparr>)" if "hushed j'" for j' x y
    using that by (auto elim: hushed_same simp: cleaned_def)
  have q: "hushed (enqueue_transcript fails v j')" if "hushed j'" for v j'
    using that by (simp add: enqueue_transcript_def put_hushed)
  have "hushed (count_speech cfg fin j)"
    using assms by (rule hushed_same) (simp_all add: count_speech_def cleaned_def Let_def)
  then show "hushed (on_caller cfg fails fr rf body fin j)"
    by (auto simp: on_caller_def send_caller_def Let_def s q split: prod.split sum.split)
  have m: "hushed (remember_item item j)" using assms s by (simp add: remember_item_def)
  then have "hushed (count_item cfg (remember_item item j))"
    by (rule hushed_same) (simp_all add: count_item_def cleaned_def Let_def)
  with m show "hushed (on_item cfg fails fr item j)"
    by (auto simp: on_item_def send_item_def Let_def s q split: prod.split sum.split)
  show "hushed (control_task py e j)"
    using assms control_step_hushed [OF assms, of e py] by (cases e) (simp_all add: control_task_def)
  show "hushed (on_error cfg b j)" using assms by (rule hushed_same) (simp_all add: on_error_def)
qed (use assms in \<open>auto simp: history_task_def room_event_def publisher_task_def put_hushed cleaned_def
    elim: hushed_same split: history_event.split publisher_event.split\<close>)

lemma recheck_hushed:
  assumes "hushed j" "\<not> j_aborted j \<Longrightarrow> hushed (k j)"
  shows "hushed (recheck room k j)"
proof -
  have "hushed (finish r j)" for r using assms(1) by (rule hushed_same) simp_all
  with assms(2) show ?thesis by (simp add: recheck_def split: sum.split)
qed

lemma admission_pass_hushed: "hushed j \<Longrightarrow> hushed (admission_pass cfg r j)"
  by (erule hushed_same)
     (simp_all add: admission_pass_def Let_def cleaned_def split: prod.split pass.split)

lemma open_session_hushed:
  assumes "hushed j"
  shows "hushed (open_session py cfg r leg call j)"
proof -
  let ?e = "Attach (c_transfer_statement call) (c_failed_transfer_statement call)"
  have "hushed (j\<lparr>j_control := control_step undefined (j_control j) ?e\<rparr>)"
    using assms by (rule control_step_hushed) simp_all
  then show ?thesis
    using assms by (auto simp: open_session_def hushed_def cleaned_def split: option.split)
qed

lemma authorized_hushed: "hushed j \<Longrightarrow> hushed (authorized py cfg r leg j)"
proof -
  assume h: "hushed j"
  have o: "hushed (observe cfg v x j)" "hushed (finish q j)" for v x q
    using h by (auto elim: hushed_same)
  then show ?thesis
    by (auto simp: authorized_def split: sum.split intro!: recheck_hushed open_session_hushed)
qed

lemma subscription_pass_hushed:
  assumes "hushed j"
  shows "hushed (subscription_pass cfg fails r p j)"
proof -
  have o: "hushed (observe cfg v x k)" "hushed (finish q k)" "hushed (k\<lparr>j_phase := ph\<rparr>)" if "hushed k" for v x k q ph
    using that by (auto elim: hushed_same simp: cleaned_def)
  have "hushed (publish_readiness cfg r k)" if "hushed k" for k
    using that by (rule hushed_same) (simp_all add: publish_readiness_def cleaned_def)
  then show ?thesis
    using o assms put_hushed(1) [OF assms]
    by (auto simp: subscription_pass_def Let_def split: prod.split pass.split intro!: recheck_hushed)
qed

lemma open_conversation_hushed:
  assumes "hushed j" "\<not> j_aborted j" "\<not> cleaned j"
  shows "hushed (open_conversation cfg r j)"
  using assms takeover.step_inv [of "j_control j" undefined "Activate (in_now r)"]
  by (simp add: hushed_def open_conversation_def Let_def cleaned_def)

lemma resume_startup_hushed:
  assumes "hushed j" "base_inv py cfg j"
  shows "hushed (resume_startup py cfg fails r j)"
proof (cases "\<not> startup_running j \<or> j_cancel j \<or> j_expired j \<or> in_error r \<noteq> None")
  case True
  have "hushed (finish q j)" for q using assms(1) by (rule hushed_same) simp_all
  with True assms(1) show ?thesis by (auto simp: resume_startup_def)
next
  case False
  then have f: "\<not> j_aborted j" "\<not> cleaned j" using assms(2) by (auto simp: base_inv_def)
  have o: "hushed (observe cfg v x k)" "hushed (k\<lparr>j_stage := t\<rparr>)" if "hushed k" for v x k t
    using that by (auto elim: hushed_same simp: cleaned_def)
  have p: "hushed (recheck (in_room r) (open_conversation cfg r) (observe cfg ''readiness-published'' [] j))"
    using assms(1) f o by (intro recheck_hushed open_conversation_hushed) simp_all
  have b: "hushed (call_sdk ConnectRoom (j\<lparr>j_phase := AtConnect\<rparr>))"
    using assms(1) by (rule hushed_same) (simp_all add: cleaned_def)
  show ?thesis
    using False assms(1) p b
    by (cases "j_phase j")
       (simp_all add: resume_startup_def o admission_pass_hushed authorized_hushed subscription_pass_hushed)
qed

lemma job_step_hushed:
  assumes "job_inv py cfg j" "hushed j"
  shows "hushed (job_step py cfg j e)"
proof -
  obtain fails v where e: "e = (fails, v)" by (cases e)
  have c: "hushed (cancel_startup k)" "hushed (deadline_passed k)" if "hushed k" for k
    using that by (auto simp: deadline_passed_def elim: hushed_same simp: cleaned_def)
  have "base_inv py cfg j" using assms(1) by (simp add: job_inv_def)
  with assms(2) show ?thesis
    by (cases v)
       (simp_all add: e resume_startup_hushed c entry_hushed resume_cleanup_hushed begin_cleanup_hushed
         on_data_hushed callbacks_hushed abort_hushed)
qed

lemma new_job_hushed: "hushed (new_job cfg)"
  using new_handler_inv [of "d_call_id (jc_dispatch cfg)"]
  by (simp add: hushed_def new_job_def cleaned_def)

section \<open>The cleanup\<close>

text \<open>What a step leaves alone when it is neither the startup's, the entry's nor the cleanup's.\<close>

definition aside :: "job \<Rightarrow> job \<Rightarrow> bool" where
  "aside j j' \<longleftrightarrow>
     j_cleanup j' = j_cleanup j \<and> j_entry j' = j_entry j
     \<and> (adm_closed (j_admission j) \<longrightarrow> adm_closed (j_admission j'))"

lemma aside_same:
  "j_cleanup j' = j_cleanup j \<Longrightarrow> j_entry j' = j_entry j \<Longrightarrow> j_admission j' = j_admission j \<Longrightarrow> aside j j'"
  by (simp add: aside_def)

lemma put_publisher_entry [simp]: "j_entry (put_publisher fails p j) = j_entry j"
  by (simp add: put_publisher_def Let_def)

lemma enqueue_fields [simp]:
  "j_cleanup (enqueue_transcript fails v j) = j_cleanup j" "j_entry (enqueue_transcript fails v j) = j_entry j"
  "j_admission (enqueue_transcript fails v j) = j_admission j"
  by (simp_all add: enqueue_transcript_def)

lemma callbacks_aside:
  "aside j (on_data py packet now loop fails j)" "aside j (on_caller cfg fails fr rf body fin j)"
  "aside j (on_item cfg fails fr item j)" "aside j (on_error cfg b j)" "aside j (room_event fails a j)"
  "aside j (publisher_task fails p j)" "aside j (control_task py e j)" "aside j (history_task py h j)"
  "aside j (abort fails j)" "aside j (cancel_startup j)" "aside j (deadline_passed j)"
proof -
  show "aside j (on_caller cfg fails fr rf body fin j)"
    by (rule aside_same)
       (simp_all add: on_caller_def send_caller_def count_speech_def Let_def split: prod.split sum.split)
  show "aside j (on_item cfg fails fr item j)"
    by (rule aside_same)
       (simp_all add: on_item_def send_item_def remember_item_def count_item_def Let_def split: prod.split sum.split)
  show "aside j (control_task py e j)"
    by (cases e) (simp_all add: control_task_def aside_def)
  show "aside j (on_data py packet now loop fails j)"
    by (rule aside_same) (simp_all add: on_data_def Let_def)
  show "aside j (room_event fails a j)" by (simp add: room_event_def aside_def)
  show "aside j (publisher_task fails p j)"
    by (rule aside_same) (cases p; simp add: publisher_task_def)+
  show "aside j (history_task py h j)" by (rule aside_same) (cases h; simp add: history_task_def)+
qed (simp_all add: aside_def on_error_def deadline_passed_def)

definition closed :: "resource list \<Rightarrow> job \<Rightarrow> bool" where
  "closed rs j \<longleftrightarrow>
     \<not> startup_running j \<and> adm_closed (j_admission j) \<and> length rs \<le> 4
     \<and> (\<forall>r \<in> set (open_resources j). r \<in> set rs \<or> CloseResource r \<in> set (j_effects j))"

definition closing_inv :: "job \<Rightarrow> bool" where
  "closing_inv j \<longleftrightarrow>
     (case j_cleanup j of
        None \<Rightarrow> j_entry j \<noteq> InCleanup
      | Some AwaitingStartup \<Rightarrow> adm_closed (j_admission j)
      | Some (Closing rs) \<Rightarrow> closed rs j
      | Some CleanedUp \<Rightarrow> closed [] j \<and> j_entry j \<noteq> InCleanup)"

lemma closing_aside:
  assumes "closing_inv j" "aside j j'" "keeps j j'"
  shows "closing_inv j'"
proof -
  have r: "startup_running j' = startup_running j" "open_resources j' = open_resources j"
    "set (j_effects j) \<subseteq> set (j_effects j')"
    using assms(3) by (simp_all add: keeps_def startup_running_def open_resources_def)
  have a: "j_cleanup j' = j_cleanup j" "j_entry j' = j_entry j"
      "adm_closed (j_admission j) \<Longrightarrow> adm_closed (j_admission j')"
    using assms(2) by (simp_all add: aside_def)
  have c: "closed rs j'" if "closed rs j" for rs
    unfolding closed_def r(1,2)
  proof (intro conjI ballI)
    show "\<not> startup_running j" "adm_closed (j_admission j')" "length rs \<le> 4"
      using that a(3) by (simp_all add: closed_def)
    fix x assume "x \<in> set (open_resources j)"
    then show "x \<in> set rs \<or> CloseResource x \<in> set (j_effects j')"
      using that subsetD [OF r(3)] unfolding closed_def by metis
  qed
  show ?thesis
  proof (cases "j_cleanup j")
    case (Some x)
    then show ?thesis using assms(1) a c by (cases x) (simp_all add: closing_inv_def)
  qed (use assms(1) a in \<open>simp add: closing_inv_def\<close>)
qed

lemma close_admission_closed [simp]: "adm_closed (close_admission a)"
  by (simp add: close_admission_def)

lemma begin_cleanup_closing:
  assumes "closing_inv j \<or> \<not> cleaned j"
  shows "closing_inv (begin_cleanup cfg fails j) \<and> cleaned (begin_cleanup cfg fails j)"
proof (cases "cleaned j")
  case False
  then show ?thesis
    by (auto simp: begin_cleanup_def closing_inv_def closed_def Let_def silence_job_def cleaned_def
        cancel_startup_def startup_running_def open_resources_def split: startup_phase.splits)
qed (use assms in \<open>simp add: begin_cleanup_def\<close>)

lemma close_resource_fields [simp]:
  "startup_running (close_resource r j) = startup_running j" "j_admission (close_resource r j) = j_admission j"
  "j_grant (close_resource r j) = j_grant j" "j_effects (close_resource r j) = j_effects j @ [CloseResource r]"
  "j_cleanup (close_resource r j) = j_cleanup j" "j_entry (close_resource r j) = j_entry j"
  by (cases r; simp add: close_resource_def startup_running_def)+

lemma resume_cleanup_closing:
  assumes "closing_inv j"
  shows "closing_inv (resume_cleanup j)"
proof (cases "j_cleanup j")
  case None
  with assms show ?thesis by (simp add: resume_cleanup_def)
next
  case (Some c)
  then consider "c = AwaitingStartup" | "c = Closing []" | r rs where "c = Closing (r # rs)" | "c = CleanedUp"
    by (metis cleanup_phase.exhaust neq_Nil_conv)
  then show ?thesis
  proof cases
    case 1
    with Some assms show ?thesis
      by (auto simp: resume_cleanup_def closing_inv_def closed_def startup_running_def open_resources_def
          split: startup_phase.splits)
  next
    case 2
    with Some assms show ?thesis
      by (auto simp: resume_cleanup_def end_cleanup_def closing_inv_def closed_def startup_running_def
          open_resources_def call_sdk_def Let_def)
  next
    case (3 r rs)
    with Some assms show ?thesis
      by (auto simp: resume_cleanup_def closing_inv_def closed_def open_resources_def)
         (auto simp: startup_running_def)
  next
    case 4
    with Some assms show ?thesis by (simp add: resume_cleanup_def)
  qed
qed

lemma entry_finally_closing:
  assumes "closing_inv j" "j_entry j = AwaitStartup"
  shows "closing_inv (entry_finally cfg fails j)"
proof -
  have e: "closing_inv (call_sdk LeaveRoom (j\<lparr>j_entry := EntryDone\<rparr>))" "closing_inv (j\<lparr>j_entry := EntryDone\<rparr>)"
    using assms(1)
    by (auto simp: closing_inv_def closed_def startup_running_def open_resources_def
        split: option.splits cleanup_phase.splits)
  have "\<not> cleaned (j\<lparr>j_entry := InCleanup\<rparr>)" if "\<not> cleaned j" using that by (simp add: cleaned_def)
  with e begin_cleanup_closing [of "j\<lparr>j_entry := InCleanup\<rparr>" cfg fails] show ?thesis
    by (simp add: entry_finally_def)
qed

lemma startup_failed_fields [simp]:
  "j_entry (startup_failed cfg cn r j) = j_entry j" "keeps j (startup_failed cfg cn r j)"
  "aside j (startup_failed cfg cn r j)" "cleaned (startup_failed cfg cn r j) = cleaned j"
  "startup_running (startup_failed cfg cn r j) = startup_running j"
  by (simp_all add: startup_failed_def aside_def split: startup_outcome.split)

lemma resume_entry_closing:
  assumes "closing_inv j"
  shows "closing_inv (resume_entry cfg cn fails j)"
proof -
  have "closing_inv (abort fails (startup_failed cfg cn r j))" for r
    using assms closing_aside [OF closing_aside [OF assms, of "startup_failed cfg cn r j"] callbacks_aside(9)] by simp
  with assms show ?thesis
    by (simp add: resume_entry_def entry_finally_closing split: startup_phase.split)
qed

lemma recheck_entry:
  assumes "j_cleanup (k j) = j_cleanup j" "j_entry (k j) = j_entry j"
  shows "j_cleanup (recheck room k j) = j_cleanup j" "j_entry (recheck room k j) = j_entry j"
  using assms by (simp_all add: recheck_def split: sum.split)

lemma pieces_entry:
  "j_cleanup (admission_pass cfg r j) = j_cleanup j" "j_entry (admission_pass cfg r j) = j_entry j"
  "j_cleanup (open_session py cfg r leg call j) = j_cleanup j" "j_entry (open_session py cfg r leg call j) = j_entry j"
  "j_cleanup (publish_readiness cfg r j) = j_cleanup j" "j_entry (publish_readiness cfg r j) = j_entry j"
  "j_cleanup (open_conversation cfg r j) = j_cleanup j" "j_entry (open_conversation cfg r j) = j_entry j"
  by (simp_all add: admission_pass_def open_session_def publish_readiness_def open_conversation_def Let_def
      split: prod.split pass.split option.split)

lemma authorized_entry:
  "j_cleanup (authorized py cfg r leg j) = j_cleanup j" "j_entry (authorized py cfg r leg j) = j_entry j"
  by (simp_all add: authorized_def recheck_entry pieces_entry split: sum.split)

lemma subscription_pass_entry:
  "j_cleanup (subscription_pass cfg fails r p j) = j_cleanup j" "j_entry (subscription_pass cfg fails r p j) = j_entry j"
  by (simp_all add: subscription_pass_def recheck_entry pieces_entry Let_def split: prod.split pass.split)

lemma resume_startup_entry:
  "j_cleanup (resume_startup py cfg fails r j) = j_cleanup j" "j_entry (resume_startup py cfg fails r j) = j_entry j"
  by (simp_all add: resume_startup_def authorized_entry subscription_pass_entry recheck_entry pieces_entry
      split: option.split startup_phase.split)

lemma resume_startup_cleaned:
  assumes "base_inv py cfg j" "cleaned j"
  shows "resume_startup py cfg fails r j = (if startup_running j then finish StartupCancelled j else j)"
  using assms by (simp add: resume_startup_def base_inv_def)

lemma resume_startup_closing:
  assumes "base_inv py cfg j" "closing_inv j"
  shows "closing_inv (resume_startup py cfg fails r j)"
proof (cases "cleaned j")
  case True
  have "closing_inv (finish StartupCancelled j)" if "startup_running j"
    using assms(2) that by (auto simp: closing_inv_def closed_def split: option.splits cleanup_phase.splits)
  with True assms show ?thesis by (simp add: resume_startup_cleaned)
next
  case False
  with assms(2) show ?thesis by (simp add: closing_inv_def resume_startup_entry cleaned_def)
qed

fun ends_job :: "job_event \<Rightarrow> bool" where
  "ends_job (ResumeStartup r) = True"
| "ends_job (ResumeEntry c) = True"
| "ends_job ResumeCleanup = True"
| "ends_job ShutdownCallback = True"
| "ends_job e = False"

lemma job_step_aside: "\<not> ends_job v \<Longrightarrow> aside j (job_step py cfg j (fails, v))"
  by (cases v) (simp_all add: callbacks_aside aside_same)

lemma job_step_closing:
  assumes "job_inv py cfg j" "closing_inv j"
  shows "closing_inv (job_step py cfg j e)"
proof -
  obtain fails v where e: "e = (fails, v)" by (cases e)
  have b: "base_inv py cfg j" using assms(1) by (simp add: job_inv_def)
  show ?thesis
  proof (cases "ends_job v")
    case True
    with b assms(2) begin_cleanup_closing [of j cfg fails] show ?thesis
      by (cases v) (simp_all add: e resume_startup_closing resume_entry_closing resume_cleanup_closing)
  next
    case False
    then have "\<not> is_startup v" by (cases v) simp_all
    then show ?thesis
      unfolding e using closing_aside [OF assms(2) job_step_aside [OF False] job_step_keeps] by blast
  qed
qed

interpretation shutdown: event_machine "job_step py cfg" "\<lambda>j. job_inv py cfg j \<and> hushed j \<and> closing_inv j" for py cfg
  by unfold_locales (simp add: job_step_inv job_step_hushed job_step_closing)

lemma reachable_job:
  "job_inv py cfg (run (job_step py cfg) (new_job cfg) es)"
  "hushed (run (job_step py cfg) (new_job cfg) es)" "closing_inv (run (job_step py cfg) (new_job cfg) es)"
proof -
  have "closing_inv (new_job cfg)" by (simp add: closing_inv_def new_job_def)
  then show "job_inv py cfg (run (job_step py cfg) (new_job cfg) es)"
      "hushed (run (job_step py cfg) (new_job cfg) es)" "closing_inv (run (job_step py cfg) (new_job cfg) es)"
    using shutdown.run_inv [of py cfg "new_job cfg" es] new_job_inv new_job_hushed by simp_all
qed

section \<open>The cleanup ends\<close>

text \<open>How many resumptions a cleanup needs once the startup has ended.\<close>

definition left :: "job \<Rightarrow> nat" where
  "left j =
     (case j_cleanup j of
        Some AwaitingStartup \<Rightarrow> 6
      | Some (Closing rs) \<Rightarrow> Suc (length rs)
      | _ \<Rightarrow> 0)"

definition is_cleanup :: "(effect \<Rightarrow> bool) \<times> job_event \<Rightarrow> bool" where
  "is_cleanup e \<longleftrightarrow> snd e = ResumeCleanup"

definition ending :: "job \<Rightarrow> bool" where
  "ending j \<longleftrightarrow> cleaned j \<and> \<not> startup_running j"

lemma resume_cleanup_left:
  "\<not> startup_running j \<Longrightarrow> left (resume_cleanup j) \<le> left j - 1"
  by (simp add: left_def resume_cleanup_def end_cleanup_def open_resources_def Let_def
      split: option.split cleanup_phase.split list.split)

lemma resume_entry_left:
  assumes "cleaned j"
  shows "j_cleanup (resume_entry cfg cn fails j) = j_cleanup j"
proof -
  have f: "j_cleanup (entry_finally cfg fails k) = j_cleanup k" if "cleaned k" for k
    using that by (simp add: entry_finally_def begin_cleanup_def cleaned_def)
  have "j_cleanup (startup_failed cfg cn r j) = j_cleanup j" for r
    using startup_failed_fields(3) [of j cfg cn r] by (simp add: aside_def)
  with f assms show ?thesis by (simp add: resume_entry_def split: startup_phase.split)
qed

lemma ending_step:
  assumes "ending j"
  shows "ending (job_step py cfg j e) \<and> left (job_step py cfg j e) \<le> left j - (if is_cleanup e then 1 else 0)"
proof -
  obtain fails v where e: "e = (fails, v)" by (cases e)
  have j: "cleaned j" "\<not> startup_running j" using assms by (simp_all add: ending_def)
  show ?thesis
  proof (cases "is_startup v")
    case True
    with j assms show ?thesis by (cases v) (simp_all add: e resume_startup_def is_cleanup_def)
  next
    case False
    have k: "keeps j (job_step py cfg j e)" unfolding e using False by (rule job_step_keeps)
    then have r: "startup_running (job_step py cfg j e) = startup_running j"
      by (simp add: keeps_def startup_running_def)
    have "j_cleanup (job_step py cfg j e) = j_cleanup j" if "\<not> is_cleanup e"
    proof (cases "ends_job v")
      case True
      with that False j show ?thesis
        by (cases v) (simp_all add: e is_cleanup_def resume_entry_left begin_cleanup_def)
    next
      case False
      then show ?thesis using job_step_aside [OF False] by (simp add: e aside_def)
    qed
    moreover have "cleaned (resume_cleanup j)"
      using j by (simp add: resume_cleanup_def end_cleanup_def cleaned_def Let_def
          split: option.split cleanup_phase.split list.split)
    ultimately show ?thesis
      using j r resume_cleanup_left [OF j(2)]
      by (cases "is_cleanup e") (auto simp: ending_def cleaned_def left_def is_cleanup_def e)
  qed
qed

lemma ending_run:
  "ending j \<Longrightarrow> ending (run (job_step py cfg) j es)
     \<and> left (run (job_step py cfg) j es) \<le> left j - length (filter is_cleanup es)"
proof (induction es arbitrary: j)
  case (Cons e es)
  show ?case
    using Cons.IH [of "job_step py cfg j e"] ending_step [OF Cons.prems, of py cfg e]
    by (cases "is_cleanup e") auto
qed simp

lemma left_le: "closing_inv j \<Longrightarrow> left j \<le> 6"
  by (simp add: closing_inv_def left_def closed_def split: option.splits cleanup_phase.splits)

lemma ending_done:
  assumes "cleaned j" "left j = 0" "closing_inv j"
  shows "j_cleanup j = Some CleanedUp \<and> closed [] j"
  using assms by (auto simp: left_def cleaned_def closing_inv_def split: option.splits cleanup_phase.splits)

end
