(* ===== verification/Job_Parts.thy ===== *)
theory Job_Parts
  imports Job_Shutdown
begin

text \<open>
  A job changes its components only by their own operations: its handler, its admission, its
  publisher and its history are at every moment states of their own machines, so whatever
  holds of the runs of a component holds of it inside a job.
\<close>

abbreviation anything :: "'e \<Rightarrow> bool" where
  "anything e \<equiv> True"

lemmas by_step [intro] = reaches_step [of anything, OF TrueI]

lemma any_trans:
  "reaches step anything s t \<Longrightarrow> reaches step anything t u \<Longrightarrow> reaches step anything s u"
  by (rule reaches_trans)

text \<open>The publisher and the history are made anew when the session is.\<close>

definition evolves :: "python \<Rightarrow> job \<Rightarrow> job \<Rightarrow> bool" where
  "evolves py j j' \<longleftrightarrow>
     reaches admission_step anything (j_admission j) (j_admission j')
     \<and> (reaches publisher_step anything (j_publisher j) (j_publisher j')
        \<or> reaches publisher_step anything new_publisher (j_publisher j'))
     \<and> (reaches (history_step py) anything (j_history j) (j_history j')
        \<or> (\<exists>c r. reaches (history_step py) anything (new_history c r) (j_history j')))"

lemma evolves_same:
  "j_admission j' = j_admission j \<Longrightarrow> j_publisher j' = j_publisher j \<Longrightarrow> j_history j' = j_history j \<Longrightarrow> evolves py j j'"
  by (simp add: evolves_def)

lemma evolves_refl [simp]: "evolves py j j"
  by (rule evolves_same) simp_all

lemma evolves_trans: "evolves py j k \<Longrightarrow> evolves py k l \<Longrightarrow> evolves py j l"
  unfolding evolves_def by (blast intro: any_trans)

lemma evolves_admission:
  assumes "reaches admission_step anything (j_admission j) a"
  shows "evolves py j (j\<lparr>j_admission := a\<rparr>)" "evolves py j (put_admission fails a j)"
  using assms by (simp_all add: evolves_def)

lemma evolves_publisher:
  assumes "reaches publisher_step anything (j_publisher j) p"
  shows "evolves py j (j\<lparr>j_publisher := p\<rparr>)" "evolves py j (put_publisher fails p j)"
  using assms by (simp_all add: evolves_def)

lemma evolves_history:
  "reaches (history_step py) anything (j_history j) h \<Longrightarrow> evolves py j (j\<lparr>j_history := h\<rparr>)"
  by (simp add: evolves_def)

lemma evolves_abort [simp]: "evolves py j (abort fails j)"
  by (rule evolves_same) simp_all

lemma evolves_silence: "evolves py j (silence_job fails j)" "evolves py j (cancel_startup j)"
  by (rule evolves_same; simp add: silence_job_def cancel_startup_def)+

text \<open>The operations of the components that a job calls are steps of their machines.\<close>

lemma admission_runs:
  "reaches admission_step anything a (close_admission a)"
  "adm_leg a = None \<Longrightarrow> reaches admission_step anything a (fst (wait_pass room a))"
  "reaches admission_step anything a (fst (subscribe_start fl room a))"
  "adm_authorized a \<Longrightarrow> reaches admission_step anything a (fst (subscribe_pass fl room a))"
  using by_step [of admission_step a CloseAdmission] by_step [of admission_step a "WaitPass room"]
    by_step [of admission_step a "SubscribeStart fl room"] by_step [of admission_step a "SubscribePass fl room"]
  by simp_all

lemma room_handler_runs: "\<not> adm_closed a \<Longrightarrow> reaches admission_step anything a (room_handler a e)"
  using by_step [of admission_step a e] by (cases e) simp_all

lemma publisher_runs:
  "reaches publisher_step anything p (enqueue_event v p)" "reaches publisher_step anything p (start_publisher p)"
  "reaches publisher_step anything p (take_event p)" "reaches publisher_step anything p (publication_ended ok p)"
  "reaches publisher_step anything p (close_publisher p)"
  using by_step [of publisher_step p "Enqueue v"] by_step [of publisher_step p StartSender]
    by_step [of publisher_step p TakeEvent] by_step [of publisher_step p "PublicationEnded ok"]
    by_step [of publisher_step p ClosePublisher]
  by simp_all

lemma history_runs:
  "reaches (history_step py) anything h (caller_row fr text fin h)" "reaches (history_step py) anything h (item_row item h)"
  "reaches (history_step py) anything h (start_history h)" "reaches (history_step py) anything h (take_row h)"
  "reaches (history_step py) anything h (delivery_ended h)" "reaches (history_step py) anything h (close_history h)"
  "reaches (history_step py) anything h (fst (get_transcript py rpc h))"
  using by_step [of "history_step py" h "CallerRow fr text fin"] by_step [of "history_step py" h "ItemRow item"]
    by_step [of "history_step py" h StartHistory] by_step [of "history_step py" h TakeRow]
    by_step [of "history_step py" h DeliveryEnded] by_step [of "history_step py" h CloseHistory]
    by_step [of "history_step py" h "Rpc rpc"]
  by simp_all

section \<open>The callbacks\<close>

lemma evolves_enqueue: "evolves py j (enqueue_transcript fails v j)"
  unfolding enqueue_transcript_def by (rule evolves_publisher) (rule publisher_runs)

lemma evolves_stream: "evolves py j (j\<lparr>j_stream := s\<rparr>)"
  by (rule evolves_same) simp_all

lemma evolves_sent: "evolves py j (enqueue_transcript fails v (j\<lparr>j_stream := s\<rparr>))"
  by (rule evolves_trans [OF evolves_stream evolves_enqueue])

lemma evolves_callers:
  "evolves py j (send_caller fails fr rf body fin j)" "evolves py j (send_item fails fr item j)"
  "evolves py j (count_speech cfg fin j)" "evolves py j (remember_item item j)" "evolves py j (count_item cfg j)"
proof -
  have h: "evolves py k (k\<lparr>j_history := caller_row rf body fin (j_history k)\<rparr>)" for k
    by (rule evolves_history) (rule history_runs)
  show "evolves py j (send_caller fails fr rf body fin j)"
    using evolves_trans [OF evolves_sent h] by (auto simp: send_caller_def Let_def evolves_stream split: prod.split sum.split)
  show "evolves py j (send_item fails fr item j)"
    by (auto simp: send_item_def evolves_stream evolves_sent split: prod.split sum.split)
  show "evolves py j (remember_item item j)"
    by (simp add: remember_item_def evolves_history history_runs)
  show "evolves py j (count_speech cfg fin j)" "evolves py j (count_item cfg j)"
    by (rule evolves_same; simp add: count_speech_def count_item_def Let_def)+
qed

lemma evolves_callbacks:
  "evolves py j (on_caller cfg fails fr rf body fin j)" "evolves py j (on_item cfg fails fr item j)"
  "evolves py j (on_error cfg b j)" "evolves py j (on_data py packet now loop fails j)"
  "evolves py j (room_event fails a j)" "evolves py j (publisher_task fails p j)"
  "evolves py j (history_task py h j)" "evolves py j (control_task py e j)" "evolves py j (deadline_passed j)"
proof -
  show "evolves py j (on_caller cfg fails fr rf body fin j)"
    using evolves_trans [OF evolves_callers(3) evolves_callers(1)]
    by (simp add: on_caller_def Let_def evolves_callers)
  show "evolves py j (on_item cfg fails fr item j)"
    using evolves_trans [OF evolves_callers(4) evolves_trans [OF evolves_callers(5) evolves_callers(2)]]
    by (simp add: on_item_def Let_def evolves_callers)
  show "evolves py j (on_data py packet now loop fails j)" "evolves py j (on_error cfg b j)"
    "evolves py j (deadline_passed j)"
    by (rule evolves_same; simp add: on_data_def on_error_def deadline_passed_def Let_def)+
  show "evolves py j (room_event fails a j)"
    by (simp add: room_event_def evolves_admission room_handler_runs)
  show "evolves py j (publisher_task fails p j)"
    by (cases p) (simp_all add: publisher_task_def evolves_publisher publisher_runs)
  show "evolves py j (history_task py h j)"
    by (cases h) (simp_all add: history_task_def evolves_history history_runs)
  show "evolves py j (control_task py e j)"
    by (rule evolves_same; cases e; simp add: control_task_def)
qed

section \<open>The cleanup and the entry\<close>

lemma evolves_begin_cleanup: "evolves py j (begin_cleanup cfg fails j)"
proof -
  have "j_admission (begin_cleanup cfg fails j) = (if cleaned j then j_admission j else close_admission (j_admission j))"
    "j_publisher (begin_cleanup cfg fails j) = j_publisher j" "j_history (begin_cleanup cfg fails j) = j_history j"
    by (simp_all add: begin_cleanup_def silence_job_def cancel_startup_def Let_def)
  then show ?thesis by (simp add: evolves_def admission_runs)
qed

lemma evolves_resume_cleanup: "evolves py j (resume_cleanup j)"
proof -
  have c: "evolves py k (close_resource r k)" for r k
    by (cases r) (simp_all add: close_resource_def evolves_def publisher_runs history_runs)
  have k: "evolves py j (close_resource r (j\<lparr>j_cleanup := x\<rparr>))" for r x
    by (rule evolves_trans [OF evolves_same c]) simp_all
  have e: "evolves py j (end_cleanup j)" by (rule evolves_same) (simp_all add: end_cleanup_def Let_def)
  show ?thesis
    using k e by (auto simp: resume_cleanup_def evolves_same split: option.split cleanup_phase.split list.split)
qed

lemma evolves_entry: "evolves py j (resume_entry cfg cn fails j)"
proof -
  have "evolves py k (k\<lparr>j_entry := x\<rparr>)" for k x by (rule evolves_same) simp_all
  then have f: "evolves py k (entry_finally cfg fails k)" for k
    using evolves_trans [OF _ evolves_begin_cleanup] evolves_same
    by (simp add: entry_finally_def evolves_same)
  have s: "evolves py j (startup_failed cfg cn r j)" for r
    by (rule evolves_same; simp add: startup_failed_def split: startup_outcome.split)
  show ?thesis
    using f evolves_trans [OF s evolves_trans [OF evolves_abort f]]
    by (simp add: resume_entry_def split: startup_phase.split)
qed

section \<open>The startup\<close>

lemma evolves_observed:
  "evolves py (observe cfg v x j) k = evolves py j k" "evolves py (j\<lparr>j_stage := t\<rparr>) k = evolves py j k"
  by (simp_all add: evolves_def)

lemma evolves_finish [simp]: "evolves py j (finish r j)"
  by (rule evolves_same) simp_all

lemma evolves_recheck: "evolves py j (k j) \<Longrightarrow> evolves py j (recheck room k j)"
  by (simp add: recheck_def split: sum.split)

lemma evolves_admission_pass:
  assumes "adm_leg (j_admission j) = None"
  shows "evolves py j (admission_pass cfg r j)"
proof -
  have "j_admission (admission_pass cfg r j) = fst (wait_pass (in_room r) (j_admission j))"
    "j_publisher (admission_pass cfg r j) = j_publisher j" "j_history (admission_pass cfg r j) = j_history j"
    by (simp_all add: admission_pass_def Let_def split: prod.split pass.split)
  then show ?thesis by (simp add: evolves_def admission_runs assms)
qed

lemma evolves_open_session: "evolves py j (open_session py cfg r leg call j)"
proof -
  have "\<exists>c q. reaches (history_step py) anything (new_history c q) (new_history (c_call_id call) (jc_room_name cfg))"
    using reaches_refl by blast
  then show ?thesis by (simp add: open_session_def evolves_def split: option.split)
qed

lemma evolves_authorized: "evolves py j (authorized py cfg r leg j)"
proof -
  let ?o = "observe cfg ''bootstrap-authorized'' [] j"
  have "evolves py j (recheck (in_room r) (open_session py cfg r leg call) ?o)" for call
    using evolves_recheck [of py ?o "open_session py cfg r leg call" "in_room r", OF evolves_open_session] by (simp add: evolves_observed)
  then show ?thesis by (simp add: authorized_def split: sum.split)
qed

lemma evolves_subscription:
  assumes "reaches admission_step anything (j_admission j) (fst p)"
  shows "evolves py j (subscription_pass cfg fails r p j)"
proof -
  let ?j = "put_admission fails (fst p) j"
  let ?o = "observe cfg ''sip-audio-subscribed'' [] ?j"
  have a: "evolves py j ?j" using assms by (rule evolves_admission)
  have r: "evolves py ?j (recheck (in_room r) (publish_readiness cfg r) ?o)"
    using evolves_recheck [of py ?o "publish_readiness cfg r" "in_room r"]
    by (simp add: evolves_observed publish_readiness_def evolves_same)
  have "evolves py ?j (?j\<lparr>j_phase := q\<rparr>)" for q by (rule evolves_same) simp_all
  with a r evolves_trans [OF a] show ?thesis
    by (auto simp: subscription_pass_def Let_def split: prod.split pass.split)
qed

lemma evolves_open_conversation: "evolves py j (open_conversation cfg r j)"
proof -
  have "j_admission (open_conversation cfg r j) = j_admission j"
    "j_publisher (open_conversation cfg r j) = start_publisher (j_publisher j)"
    "j_history (open_conversation cfg r j) = start_history (j_history j)"
    by (simp_all add: open_conversation_def Let_def)
  then show ?thesis by (simp add: evolves_def publisher_runs history_runs)
qed

lemma evolves_startup:
  assumes "phase_inv j"
  shows "evolves py j (resume_startup py cfg fails r j)"
proof (cases "\<not> startup_running j \<or> j_cancel j \<or> j_expired j \<or> in_error r \<noteq> None")
  case True
  then show ?thesis by (auto simp: resume_startup_def)
next
  case False
  have n: "evolves py j (call_sdk ConnectRoom (j\<lparr>j_phase := AtConnect\<rparr>))" by (rule evolves_same) simp_all
  have c: "adm_leg (j_admission j) = None \<Longrightarrow> evolves py j (admission_pass cfg r (j\<lparr>j_stage := ''sip-admission''\<rparr>))"
    using evolves_admission_pass [of "j\<lparr>j_stage := ''sip-admission''\<rparr>" py cfg r] by (simp add: evolves_observed)
  let ?s = "observe cfg ''session-started'' [] (j\<lparr>j_stage := ''sip-audio-subscription''\<rparr>)"
  have s: "evolves py j (subscription_pass cfg fails r (subscribe_start (in_subscribe_fails r) (in_room r) (j_admission j)) ?s)"
    using evolves_subscription [of ?s "subscribe_start (in_subscribe_fails r) (in_room r) (j_admission j)" py cfg fails r]
    by (simp add: evolves_observed admission_runs)
  have o: "evolves py j (recheck (in_room r) (open_conversation cfg r) (observe cfg ''readiness-published'' [] j))"
    using evolves_recheck [of py "observe cfg ''readiness-published'' [] j" "open_conversation cfg r" "in_room r",
        OF evolves_open_conversation]
    by (simp add: evolves_observed)
  show ?thesis
    using False assms n c s o
    by (cases "j_phase j")
       (simp_all add: resume_startup_def phase_inv_def evolves_admission_pass evolves_authorized
         evolves_subscription admission_runs)
qed

lemma evolves_step:
  assumes "job_inv py cfg j"
  shows "evolves py j (job_step py cfg j e)"
proof -
  obtain fails v where e: "e = (fails, v)" by (cases e)
  have "phase_inv j" using assms by (simp add: job_inv_def)
  then show ?thesis
    by (cases v)
       (simp_all add: e evolves_startup evolves_callbacks evolves_entry evolves_resume_cleanup evolves_begin_cleanup
         evolves_silence)
qed

lemma evolves_run:
  "job_inv py cfg j \<Longrightarrow> evolves py j (run (job_step py cfg) j es)
     \<and> reaches (control_step py) anything (j_control j) (j_control (run (job_step py cfg) j es))"
proof (induction es arbitrary: j)
  case (Cons e es)
  have "reaches (control_step py) anything (j_control j) (j_control (job_step py cfg j e))"
    using job_step_control [of py "snd e" j cfg "fst e"] reaches_mono [of "control_step py" _ _ _ anything] by simp
  with Cons.IH [OF job_step_inv [OF Cons.prems, of e]] evolves_step [OF Cons.prems, of e] show ?case
    by (auto intro: evolves_trans any_trans)
qed simp

end
