(* ===== verification/Job_Calls.thy ===== *)
theory Job_Calls
  imports Job_Invariant
begin

text \<open>
  The calls of the startup: in every run they are a prefix of one sequence, fixed by the
  dispatch, the deployment and the profile the bootstrap service authorized for the leg.
\<close>

definition startup_core ::
  "python \<Rightarrow> job_config \<Rightarrow> sip_leg \<Rightarrow> call_configuration \<Rightarrow> resumption \<Rightarrow> job_effect list"
where
  "startup_core py cfg leg call r =
     [ConnectRoom,
      PostAuthorization (authorize_request (jc_bootstrap cfg) (jc_dispatch cfg) (jc_room_name cfg) leg),
      CreateSession (create_session py (jc_deployment cfg) call),
      StartSession (leg_room_options leg) (instructions call),
      PublishReady (ready_payload cfg r),
      if c_opening_statement call \<noteq> [] then SayOpening (c_opening_statement call) else GenerateGreeting]"

definition made ::
  "python \<Rightarrow> job_config \<Rightarrow> job \<Rightarrow> sip_leg \<Rightarrow> call_configuration \<Rightarrow> resumption \<Rightarrow> nat \<Rightarrow> bool"
where
  "made py cfg j leg call r n \<longleftrightarrow>
     core j = take n (startup_core py cfg leg call r)
     \<and> (1 < n \<longrightarrow> adm_leg (j_admission j) = Some leg) \<and> (2 < n \<longrightarrow> j_grant j = Some (leg, call))"

fun calls_before :: "startup_phase \<Rightarrow> nat option" where
  "calls_before NotBegun = Some 0"
| "calls_before AtConnect = Some 1"
| "calls_before AtAdmission = Some 1"
| "calls_before (AtBootstrap leg) = Some 2"
| "calls_before AtSessionStart = Some 4"
| "calls_before AtSubscription = Some 4"
| "calls_before AtPublish = Some 5"
| "calls_before (StartupDone r) = None"

definition calls_inv :: "python \<Rightarrow> job_config \<Rightarrow> job \<Rightarrow> bool" where
  "calls_inv py cfg j \<longleftrightarrow>
     (\<exists>leg call r n. made py cfg j leg call r n \<and> (case calls_before (j_phase j) of None \<Rightarrow> True | Some m \<Rightarrow> n = m))"

lemma made_frame:
  "core j' = core j \<Longrightarrow> j_grant j' = j_grant j \<Longrightarrow> adm_leg (j_admission j') = adm_leg (j_admission j) \<Longrightarrow>
     made py cfg j' = made py cfg j"
  by (intro ext) (simp add: made_def)

lemma calls_frame:
  assumes "core j' = core j" "j_grant j' = j_grant j" "adm_leg (j_admission j') = adm_leg (j_admission j)"
    and "calls_before (j_phase j') = None \<or> calls_before (j_phase j') = calls_before (j_phase j)"
    and "calls_inv py cfg j"
  shows "calls_inv py cfg j'"
proof -
  obtain leg call r n where "made py cfg j leg call r n"
    "case calls_before (j_phase j) of None \<Rightarrow> True | Some m \<Rightarrow> n = m"
    using assms(5) unfolding calls_inv_def by blast
  then show ?thesis
    using assms(4) made_frame [OF assms(1-3)] unfolding calls_inv_def
    by (intro exI [of _ leg] exI [of _ call] exI [of _ r] exI [of _ n]) auto
qed

lemma calls_reached:
  "calls_inv py cfg j \<Longrightarrow> calls_before (j_phase j) = Some m \<Longrightarrow> \<exists>leg call r. made py cfg j leg call r m"
  by (auto simp: calls_inv_def)

lemma calls_next:
  "made py cfg j leg call r n \<Longrightarrow> calls_before (j_phase j) = Some n \<or> calls_before (j_phase j) = None \<Longrightarrow> calls_inv py cfg j"
  unfolding calls_inv_def
  by (intro exI [of _ leg] exI [of _ call] exI [of _ r] exI [of _ n]) auto

lemma core_updates [simp]:
  "core (j\<lparr>j_phase := a\<rparr>) = core j" "core (j\<lparr>j_stage := b\<rparr>) = core j" "core (j\<lparr>j_admission := c\<rparr>) = core j"
  "core (j\<lparr>j_control := d\<rparr>) = core j" "core (j\<lparr>j_grant := e\<rparr>) = core j" "core (j\<lparr>j_stream := f\<rparr>) = core j"
  "core (j\<lparr>j_publisher := g\<rparr>) = core j" "core (j\<lparr>j_history := h\<rparr>) = core j"
  by (simp_all add: core_def)

lemma other_step_calls:
  assumes "calls_inv py cfg j" "\<not> is_startup e"
  shows "calls_inv py cfg (job_step py cfg j (fails, e))"
  using job_step_keeps [OF assms(2), of j py cfg fails] assms(1) unfolding keeps_def by (metis calls_frame)

lemma finish_calls: "calls_inv py cfg j \<Longrightarrow> calls_inv py cfg (finish x j)"
  by (rule calls_frame [of _ j]) (simp_all, simp add: finish_def)

lemma recheck_calls:
  "calls_inv py cfg j \<Longrightarrow> calls_inv py cfg (k j) \<Longrightarrow> calls_inv py cfg (recheck room k j)"
  by (simp add: recheck_def finish_calls split: sum.split)

lemma observe_calls [simp]: "calls_inv py cfg (observe cfg v x j) = calls_inv py cfg j"
  by (simp add: calls_inv_def made_def)

lemma stage_calls [simp]: "calls_inv py cfg (j\<lparr>j_stage := t\<rparr>) = calls_inv py cfg j"
  by (simp add: calls_inv_def made_def)

section \<open>The pieces of the startup\<close>

lemma admission_pass_calls:
  assumes "calls_inv py cfg j" "calls_before (j_phase j) = Some 1"
  shows "calls_inv py cfg (admission_pass cfg r j)"
proof -
  obtain leg call s where m: "made py cfg j leg call s 1" using calls_reached [OF assms] by blast
  obtain a p where w: "wait_pass (in_room r) (j_admission j) = (a, p)" by fastforce
  have one: "made py cfg k leg call s 1" if "core k = core j" for k
    using m that by (simp add: made_def)
  show ?thesis
  proof (cases p)
    case (Returned leg')
    then have "adm_leg a = Some leg'"
      using w by (auto simp: wait_pass_def Let_def split: list.splits option.splits sum.splits)
    with m w Returned have "made py cfg (admission_pass cfg r j) leg' call s 2"
      by (simp add: made_def admission_pass_def startup_core_def)
    with w Returned show ?thesis by (intro calls_next) (simp_all add: admission_pass_def)
  qed (use w one in \<open>auto intro!: calls_next [OF one] simp: admission_pass_def finish_def\<close>)
qed

lemma open_session_calls:
  assumes "calls_inv py cfg j" "j_phase j = AtBootstrap leg" "adm_leg (j_admission j) = Some leg"
  shows "calls_inv py cfg (open_session py cfg r leg call j)"
proof (cases "in_session_error r")
  case None
  obtain leg' call' s where "made py cfg j leg' call' s 2" using calls_reached [OF assms(1)] assms(2) by auto
  with None assms(3) have "made py cfg (open_session py cfg r leg call j) leg call s 4"
    by (simp add: made_def open_session_def startup_core_def)
  with None show ?thesis by (intro calls_next) (simp_all add: open_session_def)
qed (use assms in \<open>simp add: open_session_def finish_calls\<close>)

lemma publish_readiness_calls:
  assumes "made py cfg j leg call s 4" "calls_inv py cfg j"
  shows "calls_inv py cfg (publish_readiness cfg r j)"
proof (cases "in_identity r = [] \<or> in_sid r = []")
  case False
  with assms have "made py cfg (publish_readiness cfg r j) leg call r 5"
    by (simp add: made_def publish_readiness_def startup_core_def)
  with False show ?thesis by (intro calls_next) (simp_all add: publish_readiness_def)
qed (use assms in \<open>simp add: publish_readiness_def finish_calls\<close>)

lemma open_conversation_calls:
  assumes "calls_inv py cfg j" "j_phase j = AtPublish"
  shows "calls_inv py cfg (open_conversation cfg r j)"
proof -
  obtain leg call s where m: "made py cfg j leg call s 5" using calls_reached [OF assms(1)] assms(2) by auto
  have "made py cfg (open_conversation cfg r j) leg call s (if snd (activate (in_now r) (j_control j)) then 6 else 5)"
    using m by (simp add: made_def open_conversation_def startup_core_def Let_def)
  then show ?thesis by (rule calls_next) (simp add: open_conversation_def finish_def Let_def)
qed

lemma subscription_pass_calls:
  assumes "calls_inv py cfg j" "calls_before (j_phase j) = Some 4" "adm_leg (fst p) = adm_leg (j_admission j)"
  shows "calls_inv py cfg (subscription_pass cfg fails r p j)"
proof -
  obtain a q where p: "p = (a, q)" by (cases p)
  let ?j = "put_admission fails a j"
  obtain leg call s where m: "made py cfg j leg call s 4" using calls_reached [OF assms(1,2)] by blast
  have "keeps (j\<lparr>j_admission := a\<rparr>) ?j" by (simp add: put_admission_def Let_def)
  then have c: "core ?j = core j" "j_grant ?j = j_grant j" by (simp_all add: keeps_def)
  have m': "made py cfg k leg call s 4" if "core k = core j" "j_grant k = j_grant j" "j_admission k = a" for k
    using m that assms(3) p by (simp add: made_def)
  have i: "calls_inv py cfg k"
    if "core k = core j" "j_grant k = j_grant j" "j_admission k = a" "calls_before (j_phase k) = Some 4" for k
    using calls_next [OF m' [OF that(1-3)]] that(4) by simp
  let ?o = "observe cfg ''sip-audio-subscribed'' [] ?j"
  have "calls_inv py cfg (recheck (in_room r) (publish_readiness cfg r) ?o)"
    by (rule recheck_calls; (rule publish_readiness_calls [OF m'])?; (intro i)?; simp add: c assms(2))
  moreover have "calls_inv py cfg (?j\<lparr>j_phase := AtSubscription\<rparr>)" "calls_inv py cfg ?j"
    by (intro i; simp add: c assms(2))+
  ultimately show ?thesis
    by (auto simp: p subscription_pass_def Let_def finish_calls split: pass.split)
qed

lemma resume_startup_calls:
  assumes "calls_inv py cfg j" "phase_inv j"
  shows "calls_inv py cfg (resume_startup py cfg fails r j)"
proof (cases "\<not> startup_running j \<or> j_cancel j \<or> j_expired j \<or> in_error r \<noteq> None")
  case True
  then show ?thesis using assms finish_calls by (auto simp: resume_startup_def)
next
  case False
  show ?thesis
  proof (cases "j_phase j")
    case NotBegun
    then obtain leg call s where "made py cfg j leg call s 0" using calls_reached [OF assms(1)] by auto
    then have "made py cfg (call_sdk ConnectRoom (j\<lparr>j_phase := AtConnect\<rparr>)) leg call s 1"
      by (simp add: made_def startup_core_def)
    then have "calls_inv py cfg (call_sdk ConnectRoom (j\<lparr>j_phase := AtConnect\<rparr>))" by (rule calls_next) simp
    with NotBegun False show ?thesis by (simp add: resume_startup_def)
  next
    case (AtBootstrap leg)
    then have "adm_leg (j_admission j) = Some leg" using assms(2) by (simp add: phase_inv_def)
    then have "calls_inv py cfg (authorized py cfg r leg j)"
      using assms(1) AtBootstrap
      by (auto simp: authorized_def finish_calls split: sum.split intro!: recheck_calls open_session_calls)
    with AtBootstrap False show ?thesis by (simp add: resume_startup_def)
  next
    case AtSessionStart
    let ?p = "subscribe_start (in_subscribe_fails r) (in_room r) (j_admission j)"
    obtain a x where q: "?p = (a, x)" by (cases ?p)
    with AtSessionStart False assms(1) subscribe_start_leg [OF q] show ?thesis
      by (simp add: resume_startup_def) (rule subscription_pass_calls; simp add: q)
  next
    case AtSubscription
    let ?p = "subscribe_pass (in_subscribe_fails r) (in_room r) (j_admission j)"
    obtain a x where q: "?p = (a, x)" by (cases ?p)
    with AtSubscription False assms(1) subscribe_leg [OF q] show ?thesis
      by (simp add: resume_startup_def) (rule subscription_pass_calls; simp add: q)
  next
    case AtPublish
    let ?j = "observe cfg ''readiness-published'' [] j"
    have "calls_inv py cfg (recheck (in_room r) (open_conversation cfg r) ?j)"
      using assms(1) AtPublish by (intro recheck_calls open_conversation_calls) simp_all
    with AtPublish False show ?thesis by (simp add: resume_startup_def)
  qed (use assms False in \<open>simp_all add: resume_startup_def admission_pass_calls\<close>)
qed

lemma job_step_calls:
  assumes "job_inv py cfg j" "calls_inv py cfg j"
  shows "calls_inv py cfg (job_step py cfg j e)"
proof -
  obtain fails v where e: "e = (fails, v)" by (cases e)
  show ?thesis
  proof (cases "is_startup v")
    case True
    then obtain r where "v = ResumeStartup r" by (cases v) simp_all
    with assms show ?thesis by (simp add: e resume_startup_calls job_inv_def)
  qed (simp add: e other_step_calls assms(2))
qed

lemma new_job_calls: "calls_inv py cfg (new_job cfg)"
proof -
  have "made py cfg (new_job cfg) leg call r 0" for leg call r
    by (simp add: made_def new_job_def core_def)
  then show ?thesis by (rule calls_next) (simp add: new_job_def)
qed

interpretation startup_order: event_machine "job_step py cfg" "\<lambda>j. job_inv py cfg j \<and> calls_inv py cfg j" for py cfg
  by unfold_locales (simp add: job_step_inv job_step_calls)

lemma reachable_calls: "calls_inv py cfg (run (job_step py cfg) (new_job cfg) es)"
  using startup_order.run_inv [of py cfg "new_job cfg" es] by (simp add: new_job_inv new_job_calls)

lemma session_options_made:
  assumes "CreateSession options \<in> set (j_effects (run (job_step py cfg) (new_job cfg) es))"
  shows "\<exists>call. options = create_session py (jc_deployment cfg) call"
proof -
  let ?j = "run (job_step py cfg) (new_job cfg) es"
  obtain leg call r n where "made py cfg ?j leg call r n"
    using reachable_calls [of py cfg es] unfolding calls_inv_def by blast
  moreover have "CreateSession options \<in> set (core ?j)" using assms by (simp add: core_def)
  ultimately have "CreateSession options \<in> set (startup_core py cfg leg call r)"
    by (metis made_def in_set_takeD)
  then show ?thesis by (auto simp: startup_core_def split: if_splits)
qed

end
