(* ===== verification/Job_Properties.thy ===== *)
theory Job_Properties
  imports Job_Parts Job_Calls
begin

text \<open>
  What a job promises: an unusable job is shut down and nothing else; nobody is heard or
  spoken to before the call is admitted, authorized and announced; an abort is final; a
  cleanup closes everything; and a startup with nothing in its way opens the conversation.
\<close>

section \<open>Accepting the job\<close>

text \<open>The job, or the one call on the context that refuses it; another exception escapes.\<close>

definition accept_job :: "python \<Rightarrow> pystr \<Rightarrow> pystr \<Rightarrow> environ \<Rightarrow> (job_effect + job) result" where
  "accept_job py metadata room_name env =
     (case load_job py metadata room_name env of
        Inr cfg \<Rightarrow> Inr (Inr (new_job cfg))
      | Inl e \<Rightarrow>
          if is_invalid_configuration e then Inr (Inl (ShutdownContext ''invalid configuration'')) else Inl e)"

lemma load_job_InrD:
  assumes "load_job py metadata room env = Inr cfg"
  shows "parse_dispatch py metadata room = Inr (jc_dispatch cfg)" "deployment_from_env env = Inr (jc_deployment cfg)"
    "bootstrap_from_env py env = Inr (jc_bootstrap cfg)" "jc_room_name cfg = room"
  using assms by (auto simp: load_job_def bind_res_eq_Inr)

lemma load_job_only: "only_invalid (load_job py metadata room env)"
  unfolding load_job_def
  by (intro only_invalid_bind) (simp_all add: deployment_from_env_only bootstrap_from_env_only parse_dispatch_only)

text \<open>The configurations depend on the variables they read.\<close>

lemma deployment_same:
  assumes "\<And>n. n \<in> {''AIDA_STT_MODEL'', ''AIDA_LLM_MODEL'', ''AIDA_TTS_MODEL'', ''AIDA_TTS_VOICE''} \<Longrightarrow>
    env' (str n) = env (str n)"
  shows "deployment_from_env env' = deployment_from_env env"
  using assms by (simp add: deployment_from_env_def deployment_setting_def env_get_def)

lemma bootstrap_same:
  assumes "\<And>n. n \<in> {''OFFICEPULSE_API_BASE_URL'', ''AIDA_ROUTE_TOKEN_ATTRIBUTE'', ''AIDA_BOOTSTRAP_TIMEOUT_SECONDS''} \<Longrightarrow>
    env' (str n) = env (str n)"
  shows "bootstrap_from_env py env' = bootstrap_from_env py env"
proof -
  have "base_of_env env' = base_of_env env"
    "env_get env' (str ''AIDA_ROUTE_TOKEN_ATTRIBUTE'') d = env_get env (str ''AIDA_ROUTE_TOKEN_ATTRIBUTE'') d"
    "env_get env' (str ''AIDA_BOOTSTRAP_TIMEOUT_SECONDS'') d = env_get env (str ''AIDA_BOOTSTRAP_TIMEOUT_SECONDS'') d"
    for d using assms by (simp_all add: base_of_env_def env_get_def)
  then show ?thesis by (simp only: bootstrap_from_env_def)
qed

lemma granted_binds:
  assumes "load_job py metadata room env = Inr cfg" "granted py cfg leg call"
  shows "wf_call call \<and> binds (jc_dispatch cfg) call"
proof -
  note cfg = load_job_InrD [OF assms(1)]
  obtain post where "snd (authorize py post (jc_bootstrap cfg) (jc_dispatch cfg) room leg) = Inr call"
    using assms(2) cfg(4) by (auto simp: granted_def)
  then obtain raw where "authorized_profile py raw (jc_dispatch cfg) room leg = Inr call"
    by (auto simp: authorize_def Let_def bind_res_eq_Inr split: http_outcome.splits if_splits)
  then obtain snapshot where a: "parse_call py (json_dumps default_dump snapshot) room = Inr call"
    "c_pbx_instance_id call = d_pbx_instance_id (jc_dispatch cfg)" "c_context call = d_context (jc_dispatch cfg)"
    by (rule authorized_profile_InrD)
  with parse_call_InrD [OF a(1)] parse_dispatch_InrD [OF cfg(1)] show ?thesis
    by (auto simp: binds_def)
qed

lemma job_admission_inv: "admission_inv (j_admission (run (job_step py cfg) (new_job cfg) es))"
proof -
  have "reaches admission_step anything (j_admission (new_job cfg)) (j_admission (run (job_step py cfg) (new_job cfg) es))"
    using evolves_run [OF new_job_inv, of py cfg es] by (simp add: evolves_def)
  then show ?thesis
    by (rule reaches_inv [where ok = admission_inv])
       (simp_all add: admission_step_inv new_job_def new_admission_inv)
qed

section \<open>What is final\<close>

lemma abort_aborted [simp]: "j_aborted (abort fails j) = (j_aborted j \<or> \<not> cleaned j)"
  by (simp add: abort_def cancel_startup_def silence_job_def)

lemma put_aborted:
  "j_aborted j \<Longrightarrow> j_aborted (put_admission fails a j)" "j_aborted j \<Longrightarrow> j_aborted (put_publisher fails p j)"
  by (simp_all add: put_admission_def put_publisher_def Let_def)

lemma begin_cleanup_aborted [simp]: "j_aborted (begin_cleanup cfg fails j) = j_aborted j"
  by (simp add: begin_cleanup_def silence_job_def cancel_startup_def Let_def)

lemma resume_cleanup_aborted [simp]: "j_aborted (resume_cleanup j) = j_aborted j"
  by (simp add: resume_cleanup_def end_cleanup_def close_resource_def Let_def
      split: option.split cleanup_phase.split list.split resource.split)

lemma entry_aborted: "j_aborted j \<Longrightarrow> j_aborted (resume_entry cfg cn fails j)"
  by (simp add: resume_entry_def entry_finally_def startup_failed_def split: startup_phase.split startup_outcome.split)

lemma not_conversing: "j_aborted j \<Longrightarrow> \<not> conversing j"
  by (simp add: conversing_def)

lemma callbacks_aborted:
  assumes "j_aborted j"
  shows "j_aborted (on_data py packet now loop fails j)" "j_aborted (on_caller cfg fails fr rf body fin j)"
    "j_aborted (on_item cfg fails fr item j)" "j_aborted (on_error cfg b j)" "j_aborted (room_event fails a j)"
    "j_aborted (publisher_task fails p j)" "j_aborted (control_task py e j)" "j_aborted (history_task py h j)"
    "j_aborted (deadline_passed j)"
proof -
  show "j_aborted (on_caller cfg fails fr rf body fin j)"
    using assms by (simp add: on_caller_def count_speech_def Let_def conversing_def)
  show "j_aborted (on_item cfg fails fr item j)"
    using assms by (simp add: on_item_def remember_item_def Let_def conversing_def)
  show "j_aborted (publisher_task fails p j)"
    using assms by (cases p) (simp_all add: publisher_task_def put_aborted)
  show "j_aborted (control_task py e j)" using assms by (cases e) (simp_all add: control_task_def)
  show "j_aborted (history_task py h j)" using assms by (cases h) (simp_all add: history_task_def)
qed (use assms in \<open>simp_all add: on_data_def on_error_def room_event_def deadline_passed_def put_aborted\<close>)

lemma startup_aborted:
  assumes "base_inv py cfg j" "j_aborted j"
  shows "resume_startup py cfg fails r j = (if startup_running j then finish StartupCancelled j else j)"
  using assms by (simp add: resume_startup_def base_inv_def)

lemma aborted_step:
  assumes "job_inv py cfg j" "j_aborted j"
  shows "j_aborted (job_step py cfg j e)"
proof -
  obtain fails v where e: "e = (fails, v)" by (cases e)
  have b: "base_inv py cfg j" using assms(1) by (simp add: job_inv_def)
  show ?thesis
    using assms(2) b
    by (cases v) (simp_all add: e startup_aborted entry_aborted callbacks_aborted)
qed

interpretation aborting: latched_machine "job_step py cfg" "job_inv py cfg" j_aborted for py cfg
  by unfold_locales (rule aborted_step)

lemma cleaned_step:
  assumes "cleaned j"
  shows "cleaned (job_step py cfg j e)"
proof -
  obtain fails v where e: "e = (fails, v)" by (cases e)
  have k: "cleaned k = (j_cleanup k \<noteq> None)" for k by (simp add: cleaned_def)
  show ?thesis
  proof (cases "ends_job v")
    case True
    have "cleaned (resume_cleanup j)"
      using assms by (simp add: resume_cleanup_def end_cleanup_def cleaned_def Let_def
          split: option.split cleanup_phase.split list.split)
    with True assms show ?thesis
      by (cases v) (simp_all add: e begin_cleanup_def k resume_startup_entry resume_entry_left)
  next
    case False
    then show ?thesis using assms job_step_aside [OF False] by (simp add: e aside_def k)
  qed
qed

interpretation cleaning: latched_machine "job_step py cfg" "job_inv py cfg" cleaned for py cfg
  by unfold_locales (rule cleaned_step)

section \<open>Properties\<close>

text \<open>C2. Nothing is heard or said before the call is admitted: if at any moment of any run the
  session's audio was switched on, an announcement was spoken or the opening was said, then
  the SIP leg is bound and well formed, the bootstrap service authorized a well-formed
  profile for this dispatch, room and leg, with the dispatch's PBX instance and context, and
  the agent's readiness had been published.\<close>

theorem heard_only_when_admitted:
  assumes "load_job py metadata room env = Inr cfg"
    and "audible (j_control (run (job_step py cfg) (new_job cfg) es)) \<noteq> []
         \<or> speaks (run (job_step py cfg) (new_job cfg) es)"
  shows "published (run (job_step py cfg) (new_job cfg) es)
    \<and> (\<exists>leg call. j_grant (run (job_step py cfg) (new_job cfg) es) = Some (leg, call)
         \<and> adm_leg (j_admission (run (job_step py cfg) (new_job cfg) es)) = Some leg \<and> wf_leg leg
         \<and> granted py cfg leg call \<and> wf_call call \<and> binds (jc_dispatch cfg) call)"
proof -
  let ?j = "run (job_step py cfg) (new_job cfg) es"
  have b: "base_inv py cfg ?j" using reachable_job(1) [of py cfg es] by (simp add: job_inv_def)
  with assms(2) have p: "published ?j" by (auto simp: base_inv_def mute_def)
  with b obtain leg call where g: "j_grant ?j = Some (leg, call)"
    by (auto simp: base_inv_def)
  with b have l: "adm_leg (j_admission ?j) = Some leg" "granted py cfg leg call"
    by (simp_all add: base_inv_def)
  moreover have "wf_leg leg" using job_admission_inv [of py cfg es] l(1) by (simp add: admission_inv_def)
  ultimately show ?thesis using p g granted_binds [OF assms(1) l(2)] by blast
qed

text \<open>C3. The startup happens once and in one order: in every run the calls it makes on the SDK are
  a prefix of connecting, one authorization request for the admitted leg, one session with the
  deployment's models and the authorized profile's instructions, one readiness announcement
  and the opening. A session is made only under a profile authorized for that leg.\<close>

theorem startup_in_order:
  "\<exists>leg call r n. let j = run (job_step py cfg) (new_job cfg) es in
     filter startup_call (j_effects j) = take n (startup_core py cfg leg call r)
     \<and> (1 < n \<longrightarrow> adm_leg (j_admission j) = Some leg)
     \<and> (2 < n \<longrightarrow> j_grant j = Some (leg, call) \<and> granted py cfg leg call)"
proof -
  let ?j = "run (job_step py cfg) (new_job cfg) es"
  obtain leg call r n where m: "made py cfg ?j leg call r n"
    using reachable_calls [of py cfg es] unfolding calls_inv_def by blast
  moreover have "granted py cfg leg call" if "2 < n"
    using m that reachable_job(1) [of py cfg es] by (simp add: made_def job_inv_def base_inv_def)
  ultimately show ?thesis unfolding made_def core_def Let_def by blast
qed




text \<open>C14. A job drives its components only by their own operations: in every run the handler, the
  admission, the publisher and the history are states their own machines reach, so what is
  proved of every run of a component holds of it in every job.\<close>

theorem job_refines_components:
  "(\<exists>cs. j_control (run (job_step py cfg) (new_job cfg) es)
       = run (control_step py) (new_handler (d_call_id (jc_dispatch cfg))) cs)
   \<and> (\<exists>as. j_admission (run (job_step py cfg) (new_job cfg) es)
       = run admission_step (new_admission (b_route_token_attribute (jc_bootstrap cfg))) as)
   \<and> (\<exists>ps. j_publisher (run (job_step py cfg) (new_job cfg) es) = run publisher_step new_publisher ps)
   \<and> (\<exists>c r hs. j_history (run (job_step py cfg) (new_job cfg) es) = run (history_step py) (new_history c r) hs)"
proof -
  have n: "j_control (new_job cfg) = new_handler (d_call_id (jc_dispatch cfg))"
    "j_admission (new_job cfg) = new_admission (b_route_token_attribute (jc_bootstrap cfg))"
    "j_publisher (new_job cfg) = new_publisher" "j_history (new_job cfg) = new_history [] []"
    by (simp_all add: new_job_def)
  have "evolves py (new_job cfg) (run (job_step py cfg) (new_job cfg) es)"
    "reaches (control_step py) anything (j_control (new_job cfg)) (j_control (run (job_step py cfg) (new_job cfg) es))"
    using evolves_run [OF new_job_inv, of py cfg es] by simp_all
  then show ?thesis unfolding evolves_def n reaches_def by blast
qed

text \<open>C28. A job that cannot be used is refused and nothing more: the only exception of the
  configuration is the one that is caught, a job is accepted exactly when the metadata and
  the environment are valid, and otherwise the one call made is the shutdown of the job.\<close>

theorem job_accepted_or_shut_down:
  "accept_job py metadata room env =
     (case load_job py metadata room env of
        Inr cfg \<Rightarrow> Inr (Inr (new_job cfg)) | Inl e \<Rightarrow> Inr (Inl (ShutdownContext ''invalid configuration'')))
   \<and> ((\<exists>j. accept_job py metadata room env = Inr (Inr j)) \<longleftrightarrow>
       (\<exists>d. parse_dispatch py metadata room = Inr d) \<and> (\<exists>c. deployment_from_env env = Inr c)
       \<and> (\<exists>b. bootstrap_from_env py env = Inr b))"
proof -
  have "is_invalid_configuration e" if "load_job py metadata room env = Inl e" for e
    using load_job_only that by (rule only_invalidD)
  then have a: "accept_job py metadata room env =
     (case load_job py metadata room env of
        Inr cfg \<Rightarrow> Inr (Inr (new_job cfg)) | Inl e \<Rightarrow> Inr (Inl (ShutdownContext ''invalid configuration'')))"
    by (simp add: accept_job_def split: sum.split)
  then show ?thesis
    by (auto simp: load_job_def split: sum.splits)
       (auto simp: bind_res_eq_Inr)
qed

section \<open>A startup that nothing disturbs\<close>

text \<open>A room with one SIP participant whose first publication is a subscribed microphone.\<close>

definition calling :: "pystr \<Rightarrow> sip_leg \<Rightarrow> participant \<Rightarrow> publication \<Rightarrow> room \<Rightarrow> bool" where
  "calling attribute leg p pub room \<longleftrightarrow>
     sip_participants room = [p] \<and> find_participant (leg_identity leg) room = Some p
     \<and> part_identity p = leg_identity leg \<and> part_sid p = leg_sid leg
     \<and> part_attributes p attribute = Some (leg_route_token leg) \<and> wf_leg leg
     \<and> part_publications p = [pub] \<and> pub_audio pub \<and> pub_microphone pub \<and> pub_track pub"

text \<open>A resumption in which nothing the startup awaits fails.\<close>

definition undisturbed ::
  "python \<Rightarrow> job_config \<Rightarrow> sip_leg \<Rightarrow> call_configuration \<Rightarrow> participant \<Rightarrow> publication \<Rightarrow> resumption \<Rightarrow> bool"
where
  "undisturbed py cfg leg call p pub r \<longleftrightarrow>
     in_error r = None \<and> in_session_error r = None \<and> in_identity r \<noteq> [] \<and> in_sid r \<noteq> []
     \<and> \<not> in_subscribe_fails r (pub_sid pub)
     \<and> calling (b_route_token_attribute (jc_bootstrap cfg)) leg p pub (in_room r)
     \<and> snd (authorize py (in_post r) (jc_bootstrap cfg) (jc_dispatch cfg) (jc_room_name cfg) leg) = Inr call"

definition startup_calls ::
  "python \<Rightarrow> job_config \<Rightarrow> sip_leg \<Rightarrow> call_configuration \<Rightarrow> resumption \<Rightarrow> job_effect list"
where
  "startup_calls py cfg leg call r =
     [ConnectRoom,
      PostAuthorization (authorize_request (jc_bootstrap cfg) (jc_dispatch cfg) (jc_room_name cfg) leg),
      Observe (lifecycle cfg ''bootstrap-authorized'' []),
      CreateSession (create_session py (jc_deployment cfg) call),
      StartSession (leg_room_options leg) (instructions call),
      Observe (lifecycle cfg ''session-started'' []), Observe (lifecycle cfg ''sip-audio-subscribed'' []),
      PublishReady (ready_payload cfg r), Observe (lifecycle cfg ''readiness-published'' []),
      Observe (lifecycle cfg ''conversation-enabled'' []),
      if c_opening_statement call \<noteq> [] then SayOpening (c_opening_statement call) else GenerateGreeting]"

lemma calling_wait:
  assumes "calling (adm_attribute a) leg p pub room"
  shows "wait_pass room a = (a\<lparr>adm_changed := False, adm_leg := Some leg\<rparr>, pass.Returned leg)"
proof -
  have "new_leg (part_identity p) (part_sid p) (leg_route_token leg) = Inr leg"
    using assms by (simp add: new_leg_iff calling_def)
  with assms show ?thesis by (simp add: wait_pass_def calling_def Let_def)
qed

lemma calling_valid:
  "calling (adm_attribute a) leg p pub room \<Longrightarrow> adm_leg a = Some leg \<Longrightarrow> \<not> adm_closed a \<Longrightarrow> validate room a = Inr ()"
  by (simp add: validate_iff leg_present_def calling_def)

lemma calling_subscribe:
  assumes "calling (adm_attribute a) leg p pub room" "adm_leg a = Some leg" "\<not> adm_closed a"
    and "\<not> fails (pub_sid pub)" "adm_requested a = []"
  shows "subscribe_start fails room a =
    (a\<lparr>adm_authorized := True, adm_requested := [pub_sid pub],
        adm_effects := adm_effects a @ [Subscribe (pub_sid pub)], adm_changed := True, adm_connected := True\<rparr>,
     pass.Returned ())"
proof -
  let ?b = "a\<lparr>adm_authorized := True, adm_changed := False\<rparr>"
  have v: "validate room a = Inr ()" "validate room ?b = Inr ()"
    using assms calling_valid [of a leg p pub room] calling_valid [of ?b leg p pub room] by simp_all
  then show ?thesis
    using assms
    by (simp add: subscribe_start_def subscribe_pass_def track_published_def bound_audio_def perform_def
        calling_def Let_def)
qed

lemma observe_effects [simp]: "j_effects (observe cfg v x j) = j_effects j @ [Observe (lifecycle cfg v x)]"
  by (simp add: observe_def)

text \<open>The five pieces of the startup, each from where the one before leaves it.\<close>

lemma piece_connect:
  "in_error r = None \<Longrightarrow>
     resume_startup py cfg fails r (new_job cfg) = call_sdk ConnectRoom ((new_job cfg)\<lparr>j_phase := AtConnect\<rparr>)"
  by (simp add: resume_startup_def new_job_def startup_running_def)

lemma piece_admission:
  assumes "in_error r = None" "calling (adm_attribute (j_admission j)) leg p pub (in_room r)"
    and "j_phase j = AtConnect" "\<not> j_cancel j" "\<not> j_expired j"
  shows "resume_startup py cfg fails r j =
    call_sdk (PostAuthorization (authorize_request (jc_bootstrap cfg) (jc_dispatch cfg) (jc_room_name cfg) leg))
      (j\<lparr>j_admission := (j_admission j)\<lparr>adm_changed := False, adm_leg := Some leg\<rparr>,
         j_stage := ''bootstrap'', j_phase := AtBootstrap leg\<rparr>)"
  using assms calling_wait [of "j_admission j" leg p pub "in_room r"]
  by (simp add: resume_startup_def startup_running_def admission_pass_def Let_def)

lemma piece_authorized:
  assumes "in_error r = None" "in_session_error r = None"
    and "calling (adm_attribute (j_admission j)) leg p pub (in_room r)"
    and "adm_leg (j_admission j) = Some leg" "\<not> adm_closed (j_admission j)"
    and "snd (authorize py (in_post r) (jc_bootstrap cfg) (jc_dispatch cfg) (jc_room_name cfg) leg) = Inr call"
    and "j_phase j = AtBootstrap leg" "\<not> j_cancel j" "\<not> j_expired j" "\<not> j_aborted j" "\<not> h_stopping (j_control j)"
  shows "resume_startup py cfg fails r j =
    open_session py cfg r leg call (observe cfg ''bootstrap-authorized'' [] j)"
  using assms calling_valid [of "j_admission j" leg p pub "in_room r"]
  by (simp add: resume_startup_def startup_running_def authorized_def recheck_def)

lemma piece_subscribed:
  assumes "in_error r = None" "in_identity r \<noteq> []" "in_sid r \<noteq> []" "\<not> in_subscribe_fails r (pub_sid pub)"
    and "calling (adm_attribute (j_admission j)) leg p pub (in_room r)"
    and "adm_leg (j_admission j) = Some leg" "\<not> adm_closed (j_admission j)" "adm_requested (j_admission j) = []"
    and "j_phase j = AtSessionStart" "\<not> j_cancel j" "\<not> j_expired j" "\<not> j_aborted j" "\<not> h_stopping (j_control j)"
  shows "resume_startup py cfg fails r j =
    publish_readiness cfg r (observe cfg ''sip-audio-subscribed'' []
      ((observe cfg ''session-started'' [] (j\<lparr>j_stage := ''sip-audio-subscription''\<rparr>))
         \<lparr>j_admission := (j_admission j)\<lparr>adm_authorized := True, adm_requested := [pub_sid pub],
            adm_effects := adm_effects (j_admission j) @ [Subscribe (pub_sid pub)],
            adm_changed := True, adm_connected := True\<rparr>\<rparr>))"
proof -
  let ?a = "(j_admission j)\<lparr>adm_authorized := True, adm_requested := [pub_sid pub],
    adm_effects := adm_effects (j_admission j) @ [Subscribe (pub_sid pub)], adm_changed := True, adm_connected := True\<rparr>"
  have "validate (in_room r) ?a = Inr ()"
    using assms calling_valid [of ?a leg p pub "in_room r"] by simp
  then show ?thesis
    using assms calling_subscribe [of "j_admission j" leg p pub "in_room r" "in_subscribe_fails r"]
    by (simp add: resume_startup_def startup_running_def subscription_pass_def put_admission_def recheck_def Let_def)
qed

lemma piece_published:
  assumes "in_error r = None" "calling (adm_attribute (j_admission j)) leg p pub (in_room r)"
    and "adm_leg (j_admission j) = Some leg" "\<not> adm_closed (j_admission j)"
    and "j_phase j = AtPublish" "\<not> j_cancel j" "\<not> j_expired j" "\<not> j_aborted j" "\<not> h_stopping (j_control j)"
  shows "resume_startup py cfg fails r j =
    open_conversation cfg r (observe cfg ''readiness-published'' [] j)"
  using assms calling_valid [of "j_admission j" leg p pub "in_room r"]
  by (simp add: resume_startup_def startup_running_def recheck_def)

lemma undisturbed_run:
  assumes "undisturbed py cfg leg call p pub r"
  shows "case run (job_step py cfg) (new_job cfg) (replicate 5 (fails, ResumeStartup r)) of j \<Rightarrow>
    j_phase j = StartupDone StartupReturned \<and> j_effects j = startup_calls py cfg leg call r
    \<and> j_grant j = Some (leg, call) \<and> conversing j \<and> h_input (j_control j) \<and> h_output (j_control j)
    \<and> adm_requested (j_admission j) = [pub_sid pub]"
proof -
  note u = assms [unfolded undisturbed_def]
  define j1 where "j1 = call_sdk ConnectRoom ((new_job cfg)\<lparr>j_phase := AtConnect\<rparr>)"
  have 1: "resume_startup py cfg fails r (new_job cfg) = j1" using u piece_connect j1_def by simp
  define j2 where "j2 = resume_startup py cfg fails r j1"
  have 2: "j2 = call_sdk (PostAuthorization (authorize_request (jc_bootstrap cfg) (jc_dispatch cfg) (jc_room_name cfg) leg))
      (j1\<lparr>j_admission := (j_admission j1)\<lparr>adm_changed := False, adm_leg := Some leg\<rparr>,
         j_stage := ''bootstrap'', j_phase := AtBootstrap leg\<rparr>)"
    using u unfolding j2_def
    by (intro piece_admission [where p = p and pub = pub]) (simp_all add: j1_def new_job_def new_admission_def)
  define j3 where "j3 = resume_startup py cfg fails r j2"
  have 3: "j3 = open_session py cfg r leg call (observe cfg ''bootstrap-authorized'' [] j2)"
    using u unfolding j3_def
    by (intro piece_authorized [where p = p and pub = pub]) (simp_all add: 2 j1_def new_job_def new_admission_def new_handler_def)
  have c3: "h_session (j_control j3)" "\<not> h_stopping (j_control j3)" "\<not> h_transferring (j_control j3)"
    using u by (simp_all add: 3 open_session_def attach_def handler_simps 2 j1_def new_job_def new_handler_def)
  have a3: "j_admission j3 = (new_admission (b_route_token_attribute (jc_bootstrap cfg)))\<lparr>adm_leg := Some leg\<rparr>"
    "j_phase j3 = AtSessionStart" "\<not> j_cancel j3" "\<not> j_expired j3" "\<not> j_aborted j3" "j_grant j3 = Some (leg, call)"
    "j_effects j3 = take 5 (startup_calls py cfg leg call r)"
    using u by (simp_all add: 3 open_session_def 2 j1_def new_job_def new_admission_def startup_calls_def)
  define j4 where "j4 = resume_startup py cfg fails r j3"
  have 4: "j4 = publish_readiness cfg r (observe cfg ''sip-audio-subscribed'' []
      ((observe cfg ''session-started'' [] (j3\<lparr>j_stage := ''sip-audio-subscription''\<rparr>))
         \<lparr>j_admission := (j_admission j3)\<lparr>adm_authorized := True, adm_requested := [pub_sid pub],
            adm_effects := adm_effects (j_admission j3) @ [Subscribe (pub_sid pub)],
            adm_changed := True, adm_connected := True\<rparr>\<rparr>))"
    using u a3 c3 unfolding j4_def
    by (intro piece_subscribed [where p = p and pub = pub and leg = leg]) (simp_all add: new_admission_def)
  have a4: "j_control j4 = j_control j3" "adm_leg (j_admission j4) = Some leg" "\<not> adm_closed (j_admission j4)"
    "adm_attribute (j_admission j4) = b_route_token_attribute (jc_bootstrap cfg)" "adm_requested (j_admission j4) = [pub_sid pub]"
    "j_phase j4 = AtPublish" "\<not> j_cancel j4" "\<not> j_expired j4" "\<not> j_aborted j4" "j_grant j4 = Some (leg, call)"
    "j_effects j4 = take 8 (startup_calls py cfg leg call r)"
    using u by (simp_all add: 4 publish_readiness_def a3 new_admission_def startup_calls_def)
  define j5 where "j5 = resume_startup py cfg fails r j4"
  have 5: "j5 = open_conversation cfg r (observe cfg ''readiness-published'' [] j4)"
    using u a4 c3 unfolding j5_def
    by (intro piece_published [where p = p and pub = pub and leg = leg]) simp_all
  have live: "snd (activate (in_now r) (j_control j4))" using a4 c3 by (simp add: activate_def)
  have g: "h_ready (go_live n (j_control j4))" "h_input (go_live n (j_control j4))" "h_output (go_live n (j_control j4))"
    "\<not> h_stopping (go_live n (j_control j4))" for n
    using a4(1) c3 by (simp_all add: go_live_def activate_def handler_simps)
  have "run (job_step py cfg) (new_job cfg) (replicate 5 (fails, ResumeStartup r)) = j5"
    by (simp add: numeral_eq_Suc 1 j2_def [symmetric] j3_def [symmetric] j4_def [symmetric] j5_def [symmetric])
  then show ?thesis
    using live g a4 by (simp add: 5 open_conversation_def conversing_def startup_calls_def Let_def finish_def)
qed

text \<open>C13. A startup that nothing disturbs opens the conversation: with the SIP caller in the room,
  an authorizing service and nothing failing, five resumptions make exactly these calls, in
  this order, and leave the caller and the agent heard, the microphone subscribed and the
  conversation open.\<close>

theorem undisturbed_startup_opens:
  assumes "undisturbed py cfg leg call p pub r"
  shows "case run (job_step py cfg) (new_job cfg) (replicate 5 (fails, ResumeStartup r)) of j \<Rightarrow>
    j_phase j = StartupDone StartupReturned \<and> j_effects j = startup_calls py cfg leg call r
    \<and> conversing j \<and> h_input (j_control j) \<and> h_output (j_control j)
    \<and> adm_requested (j_admission j) = [pub_sid pub]"
  using undisturbed_run [OF assms, of fails] by simp

text \<open>A concrete job.\<close>

definition sample_publication :: publication where
  "sample_publication = \<lparr>pub_sid = str ''TR_1'', pub_audio = True, pub_microphone = True, pub_track = True\<rparr>"

definition sample_participant :: participant where
  "sample_participant =
     \<lparr>part_identity = leg_identity sample_leg, part_sid = leg_sid sample_leg, part_sip = True,
      part_attributes = (\<lambda>_. Some (leg_route_token sample_leg)), part_publications = [sample_publication]\<rparr>"

definition sample_resumption :: resumption where
  "sample_resumption =
     \<lparr>in_error = None, in_room = [sample_participant],
      in_post = (\<lambda>_. Response \<lparr>res_status = 200, res_content_type = str ''application/json'',
        res_content_encoding = None,
        res_chunks = [Some (server_response sample_dispatch sample_leg sample_call)]\<rparr>),
      in_subscribe_fails = (\<lambda>_. False), in_session_error = None, in_identity = str ''agent'',
      in_sid = str ''PA_agent'', in_stream_id = str ''s1'', in_now = 0\<rparr>"

definition sample_config :: job_config where
  "sample_config =
     \<lparr>jc_dispatch = sample_dispatch,
      jc_deployment = \<lparr>stt_model = str ''stt'', llm_model = str ''llm'', tts_model = str ''tts'', tts_voice = str ''v''\<rparr>,
      jc_bootstrap = \<lparr>b_base_url = str ''https://api.acme.test'', b_route_token_attribute = str ''sip.aidaRouteToken'',
        b_timeout_seconds = Fin 30\<rparr>,
      jc_room_name = room_of (d_call_id sample_dispatch)\<rparr>"

abbreviation sample_events :: "((effect \<Rightarrow> bool) \<times> job_event) list" where
  "sample_events \<equiv> replicate 5 (\<lambda>_. False, ResumeStartup sample_resumption)"

lemma sample_undisturbed:
  assumes "jc_dispatch cfg = sample_dispatch" "jc_room_name cfg = room_of (d_call_id sample_dispatch)"
  shows "undisturbed plain_python cfg sample_leg sample_call sample_participant sample_publication sample_resumption"
proof -
  have "snd (authorize plain_python (in_post sample_resumption) b sample_dispatch
      (room_of (d_call_id sample_dispatch)) sample_leg) = Inr sample_call" for b
    using sample_response_length sample_authorized by (simp add: authorize_def sample_resumption_def)
  then show ?thesis
    using assms sample_leg_wf
    by (simp add: undisturbed_def calling_def sip_participants_def find_participant_def)
       (simp add: sample_resumption_def sample_participant_def sample_publication_def str_def)
qed

definition job_env :: environ where
  "job_env k =
     (if k \<in> str ` {''AIDA_STT_MODEL'', ''AIDA_LLM_MODEL'', ''AIDA_TTS_MODEL'', ''AIDA_TTS_VOICE''}
      then Some (str ''m'') else sample_env k)"

lemma job_env_settings:
  "\<exists>c. deployment_from_env job_env = Inr c"
  "bootstrap_from_env plain_python job_env = bootstrap_from_env plain_python sample_env"
proof -
  have "strip (str ''m'') = str ''m''" by (simp add: strip_def strip_by_def lstrip_by_def rstrip_by_def str_def py_isspace_def)
  moreover have "\<not> list_ex py_isspace (str ''m'')" by (simp add: str_def py_isspace_def)
  ultimately have "deployment_setting job_env name = Inr (str ''m'')"
    if "name \<in> {''AIDA_STT_MODEL'', ''AIDA_LLM_MODEL'', ''AIDA_TTS_MODEL'', ''AIDA_TTS_VOICE''}" for name
    using that by (auto simp: deployment_setting_def env_get_def job_env_def Let_def)
  then show "\<exists>c. deployment_from_env job_env = Inr c" by (simp add: deployment_from_env_def)
  show "bootstrap_from_env plain_python job_env = bootstrap_from_env plain_python sample_env"
    by (rule bootstrap_same) (auto simp: job_env_def)
qed

lemma sample_loads:
  "\<exists>cfg. load_job plain_python (json_dumps default_dump (JObj (dispatch_fields sample_dispatch)))
     (room_of (d_call_id sample_dispatch)) job_env = Inr cfg
     \<and> jc_dispatch cfg = sample_dispatch \<and> jc_room_name cfg = room_of (d_call_id sample_dispatch)"
proof -
  obtain c b where "deployment_from_env job_env = Inr c" "bootstrap_from_env plain_python job_env = Inr b"
    using job_env_settings sample_bootstrap by auto
  then show ?thesis unfolding load_job_def sample_dispatch_parsed by simp
qed

theorem heard_only_when_admitted_witness:
  "\<exists>cfg. speaks (run (job_step plain_python cfg) (new_job cfg) sample_events)
     \<and> published (run (job_step plain_python cfg) (new_job cfg) sample_events)"
proof -
  obtain cfg where l: "load_job plain_python (json_dumps default_dump (JObj (dispatch_fields sample_dispatch)))
     (room_of (d_call_id sample_dispatch)) job_env = Inr cfg"
    "jc_dispatch cfg = sample_dispatch" "jc_room_name cfg = room_of (d_call_id sample_dispatch)"
    using sample_loads by blast
  have "speaks (run (job_step plain_python cfg) (new_job cfg) sample_events)"
    using undisturbed_run [OF sample_undisturbed [OF l(2,3)], of "\<lambda>_. False"]
    by (simp add: speaks_def startup_calls_def split: if_splits)
  with heard_only_when_admitted [OF l(1)] show ?thesis by blast
qed

theorem startup_in_order_witness:
  "\<exists>leg call r. filter startup_call (j_effects (run (job_step plain_python sample_config) (new_job sample_config) sample_events))
       = startup_core plain_python sample_config leg call r
     \<and> adm_leg (j_admission (run (job_step plain_python sample_config) (new_job sample_config) sample_events)) = Some leg
     \<and> granted plain_python sample_config leg call"
proof -
  let ?j = "run (job_step plain_python sample_config) (new_job sample_config) sample_events"
  obtain leg call r n where c: "filter startup_call (j_effects ?j) = take n (startup_core plain_python sample_config leg call r)"
    "1 < n \<longrightarrow> adm_leg (j_admission ?j) = Some leg" "2 < n \<longrightarrow> granted plain_python sample_config leg call"
    using startup_in_order [of plain_python sample_config sample_events] unfolding Let_def by blast
  have "undisturbed plain_python sample_config sample_leg sample_call sample_participant sample_publication sample_resumption"
    by (rule sample_undisturbed) (simp_all add: sample_config_def)
  from undisturbed_run [OF this, of "\<lambda>_. False"]
  have "length (filter startup_call (j_effects ?j)) = 6" by (simp add: startup_calls_def)
  with c(1) have "6 \<le> n" by (simp add: min_def split: if_splits)
  moreover have "length (startup_core plain_python sample_config leg call r) = 6" by (simp add: startup_core_def)
  ultimately show ?thesis using c by auto
qed



abbreviation failing_events :: "((effect \<Rightarrow> bool) \<times> job_event) list" where
  "failing_events \<equiv> [(\<lambda>_. False, ResumeStartup sample_resumption),
     (\<lambda>_. False, ResumeStartup (sample_resumption\<lparr>in_error := Some ProviderError\<rparr>))]"


theorem undisturbed_startup_opens_witness:
  "conversing (run (job_step plain_python sample_config) (new_job sample_config) sample_events)"
proof -
  have "undisturbed plain_python sample_config sample_leg sample_call sample_participant sample_publication sample_resumption"
    by (rule sample_undisturbed) (simp_all add: sample_config_def)
  from undisturbed_startup_opens [OF this] show ?thesis by blast
qed

end
