(* ===== verification/Platform.thy ===== *)
theory Platform
  imports Config Dictionary "HOL-Library.Multiset" "HOL-Library.List_Lexorder"
begin

text \<open>
  platform_config.py: the deployment's settings are read from the store page by page,
  resolved over the scopes and applied to the environment. The store is a parameter: what
  the \<open>k\<close>-th request of the start-up gets. The page loop has no bound in the code, so it
  is a partial function: \<open>None\<close> is a loop that never ends.
\<close>

section \<open>Constants\<close>

definition BASE_NAME :: pystr where
  "BASE_NAME = str ''PlatformConfig''"

definition TABLE_NAME :: pystr where
  "TABLE_NAME = str ''cfg_tbl_Setting''"

definition SCOPES :: "pystr list" where
  "SCOPES = map str [''*'', ''aida'', ''aida-agent'']"

definition SETTING_KEYS :: "pystr list" where
  "SETTING_KEYS = map str
     [''LIVEKIT_URL'', ''LIVEKIT_API_KEY'', ''LIVEKIT_API_SECRET'', ''LIVEKIT_AGENT_NAME'',
      ''LIVEKIT_INFERENCE_API_KEY'', ''LIVEKIT_INFERENCE_API_SECRET'',
      ''OFFICEPULSE_API_BASE_URL'', ''AIDA_ROUTE_TOKEN_ATTRIBUTE'', ''AIDA_BOOTSTRAP_TIMEOUT_SECONDS'',
      ''AIDA_STT_MODEL'', ''AIDA_LLM_MODEL'', ''AIDA_TTS_MODEL'', ''AIDA_TTS_VOICE'',
      ''LOGSTORE_ENABLED'', ''LOGSTORE_KEY_JSON'', ''LIVEKIT_TELEMETRY_ALLOW_PII'']"

definition PAGE_SIZE :: nat where
  "PAGE_SIZE = 200"

section \<open>Values of the language\<close>

text \<open>\<open>value.get(k)\<close>: an absent field and a null are both \<open>None\<close>.\<close>

definition row_get :: "json \<Rightarrow> string \<Rightarrow> json result" where
  "row_get row k =
     (case row of
        JObj f \<Rightarrow> Inr (case get f k of None \<Rightarrow> JNull | Some v \<Rightarrow> v)
      | _ \<Rightarrow> Inl AttributeError)"

text \<open>\<open>str(value)\<close>; of a list or an object it is the parameter's.\<close>

definition float_str :: "pystr \<Rightarrow> pystr" where
  "float_str r =
     (if r = str ''NaN'' then str ''nan'' else if r = str ''Infinity'' then str ''inf''
      else if r = str ''-Infinity'' then str ''-inf'' else r)"

fun py_str :: "(json \<Rightarrow> pystr) \<Rightarrow> json \<Rightarrow> pystr" where
  "py_str py_repr (JStr s) = s"
| "py_str py_repr (JInt i) = show_int i"
| "py_str py_repr (JFloat r) = float_str r"
| "py_str py_repr (JBool b) = (if b then str ''True'' else str ''False'')"
| "py_str py_repr JNull = str ''None''"
| "py_str py_repr v = py_repr v"

fun truthy :: "json \<Rightarrow> bool" where
  "truthy JNull = False"
| "truthy (JBool b) = b"
| "truthy (JInt i) = (i \<noteq> 0)"
| "truthy (JFloat r) = (r \<noteq> str ''0.0'' \<and> r \<noteq> str ''-0.0'')"
| "truthy (JStr s) = (s \<noteq> [])"
| "truthy (JArr vs) = (vs \<noteq> [])"
| "truthy (JObj f) = (f \<noteq> [])"

section \<open>The store's API\<close>

record store_request =
  sr_url :: pystr
  sr_token :: pystr

text \<open>What \<open>urlopen\<close> reports: an HTTP error status, one of the failures that are
  caught, any other exception, or the body.\<close>

datatype store_reply = StoreStatus nat | StoreUnreachable | StoreRaised exn | StoreBody pybytes

text \<open>\<open>urllib.request.Request(url)\<close> raises for a URL without a scheme.\<close>

definition unwrap_url :: "pystr \<Rightarrow> pystr" where
  "unwrap_url url =
     (let u = strip url;
          u = (if u \<noteq> [] \<and> hd u = 60 \<and> last u = 62 then strip (butlast (tl u)) else u)
      in if prefix (str ''URL:'') u then strip (drop 4 u) else u)"

definition has_url_type :: "pystr \<Rightarrow> bool" where
  "has_url_type url =
     (let u = unwrap_url url;
          u = (case rpartition_at 35 u of (path, found, _) \<Rightarrow> if found then path else u);
          pre = takeWhile (\<lambda>c. c \<noteq> 47 \<and> c \<noteq> 58) u
      in pre \<noteq> [] \<and> length pre < length u \<and> u ! length pre = 58)"

definition unavailable :: "pystr \<Rightarrow> 'a result" where
  "unavailable m = Inl (SettingsUnavailable m)"

definition api :: "python \<Rightarrow> (store_request \<Rightarrow> store_reply) \<Rightarrow> pystr \<Rightarrow> pystr \<Rightarrow> pystr \<Rightarrow> fields result" where
  "api py serve base_url token path =
     (if \<not> has_url_type (base_url @ path) then Inl ValueError
      else case serve \<lparr>sr_url = base_url @ path, sr_token = token\<rparr> of
        StoreStatus n \<Rightarrow> unavailable (str ''NocoDB request failed ('' @ show_nat n @ str '')'')
      | StoreUnreachable \<Rightarrow> unavailable (str ''NocoDB could not be reached'')
      | StoreRaised e \<Rightarrow> Inl e
      | StoreBody body \<Rightarrow>
          (case json_loads (plain_opts (repr_float py)) (rec_limit py) (RawBytes body) of
             Inl e \<Rightarrow> if is_value_error e then unavailable (str ''NocoDB could not be reached'') else Inl e
           | Inr (JObj payload) \<Rightarrow>
               (case get payload ''list'' of
                  Some (JArr rows) \<Rightarrow> Inr payload
                | _ \<Rightarrow> unavailable (str ''NocoDB returned an invalid record list''))
           | Inr _ \<Rightarrow> unavailable (str ''NocoDB returned an invalid record list'')))"

definition page_list :: "fields \<Rightarrow> json list" where
  "page_list payload = (case get payload ''list'' of Some (JArr rows) \<Rightarrow> rows | _ \<Rightarrow> [])"

fun titled :: "pystr \<Rightarrow> json list \<Rightarrow> json list result" where
  "titled name [] = Inr []"
| "titled name (b # bs) =
     bind_res (row_get b ''title'') (\<lambda>t. bind_res (titled name bs) (\<lambda>rest.
       Inr (if t = JStr name then b # rest else rest)))"

definition bases_path :: pystr where
  "bases_path = str ''/api/v2/meta/bases''"

definition tables_path :: "pystr \<Rightarrow> pystr" where
  "tables_path base_id = str ''/api/v2/meta/bases/'' @ base_id @ str ''/tables''"

definition records_path :: "pystr \<Rightarrow> nat \<Rightarrow> pystr" where
  "records_path table offset =
     str ''/api/v2/tables/'' @ table @ str ''/records?limit='' @ show_nat PAGE_SIZE
       @ str ''&offset='' @ show_nat offset"

text \<open>\<open>found[0]["id"]\<close> when there is exactly one.\<close>

definition only_id :: "pystr \<Rightarrow> json list \<Rightarrow> json result" where
  "only_id complaint found =
     (case found of
        [JObj f] \<Rightarrow> index f ''id''
      | _ \<Rightarrow> unavailable (complaint @ show_nat (length found)))"

definition table_id ::
  "python \<Rightarrow> (json \<Rightarrow> pystr) \<Rightarrow> (nat \<Rightarrow> store_request \<Rightarrow> store_reply) \<Rightarrow> pystr \<Rightarrow> pystr \<Rightarrow> json result"
where
  "table_id py py_repr serve base_url token =
     bind_res (api py (serve 0) base_url token bases_path) (\<lambda>p.
     bind_res (titled BASE_NAME (page_list p)) (\<lambda>bases.
     bind_res (only_id (str ''Expected one NocoDB base named PlatformConfig, found '') bases) (\<lambda>base.
     bind_res (api py (serve 1) base_url token (tables_path (py_str py_repr base))) (\<lambda>p.
     bind_res (titled TABLE_NAME (page_list p)) (\<lambda>tables.
     only_id (str ''Expected one cfg_tbl_Setting table in PlatformConfig, found '') tables)))))"

section \<open>Resolution\<close>

text \<open>First pass: a scope and key may occur once.\<close>

fun scan_rows :: "(pystr \<times> pystr) list \<Rightarrow> json list \<Rightarrow> unit result" where
  "scan_rows seen [] = Inr ()"
| "scan_rows seen (row # rows) =
     bind_res (row_get row ''app'') (\<lambda>app. bind_res (row_get row ''settingKey'') (\<lambda>key.
       case (app, key) of
         (JStr a, JStr k) \<Rightarrow>
           if a \<notin> set SCOPES \<or> strip k = [] then scan_rows seen rows
           else if (a, k) \<in> set seen
           then unavailable (str ''duplicate PlatformConfig setting '' @ a @ [47] @ k)
           else scan_rows ((a, k) # seen) rows
       | _ \<Rightarrow> scan_rows seen rows))"

text \<open>Second pass: what one row assigns when its scope is visited.\<close>

definition row_assignment :: "(json \<Rightarrow> pystr) \<Rightarrow> pystr \<Rightarrow> json \<Rightarrow> (pystr \<times> pystr) list" where
  "row_assignment py_repr scope row =
     (case row of
        JObj f \<Rightarrow>
          if get f ''app'' \<noteq> Some (JStr scope) then []
          else (case get f ''settingKey'' of
                  Some (JStr key) \<Rightarrow>
                    if key \<notin> set SETTING_KEYS then []
                    else (case get f ''settingValue'' of
                            None \<Rightarrow> []
                          | Some raw \<Rightarrow>
                              if raw = JNull \<or> strip (py_str py_repr raw) = [] then []
                              else [(key, strip (py_str py_repr raw))])
                | _ \<Rightarrow> [])
      | _ \<Rightarrow> [])"

definition assignments :: "(json \<Rightarrow> pystr) \<Rightarrow> json list \<Rightarrow> (pystr \<times> pystr) list" where
  "assignments py_repr rows =
     concat (map (\<lambda>scope. concat (map (row_assignment py_repr scope) rows)) SCOPES)"

definition resolve :: "(json \<Rightarrow> pystr) \<Rightarrow> json list \<Rightarrow> (pystr \<times> pystr) list result" where
  "resolve py_repr rows =
     bind_res (scan_rows [] rows) (\<lambda>_. Inr (update_all (assignments py_repr rows) []))"

section \<open>Reading the table\<close>

definition is_last_page :: "fields \<Rightarrow> bool result" where
  "is_last_page payload =
     (case get payload ''pageInfo'' of
        None \<Rightarrow> Inr False
      | Some info \<Rightarrow>
          if \<not> truthy info then Inr False
          else (case info of
                  JObj f \<Rightarrow> Inr (get f ''isLastPage'' = Some (JBool True))
                | _ \<Rightarrow> Inl AttributeError))"

partial_function (option) fetch_rows ::
  "python \<Rightarrow> (nat \<Rightarrow> store_request \<Rightarrow> store_reply) \<Rightarrow> pystr \<Rightarrow> pystr \<Rightarrow> pystr \<Rightarrow> nat \<Rightarrow> nat \<Rightarrow> json list
     \<Rightarrow> json list result option"
where
  "fetch_rows py serve base_url token table k offset rows =
     (case api py (serve k) base_url token (records_path table offset) of
        Inl e \<Rightarrow> Some (Inl e)
      | Inr p \<Rightarrow>
          if length (page_list p) < PAGE_SIZE then Some (Inr (rows @ page_list p))
          else case is_last_page p of
            Inl e \<Rightarrow> Some (Inl e)
          | Inr stop \<Rightarrow>
              if stop then Some (Inr (rows @ page_list p))
              else fetch_rows py serve base_url token table (Suc k) (offset + PAGE_SIZE) (rows @ page_list p))"

definition store_base :: "environ \<Rightarrow> pystr" where
  "store_base env = rstrip_by (\<lambda>c. c = 47) (strip (env_get env (str ''NOCODB_BASE_URL'') []))"

definition store_token :: "environ \<Rightarrow> pystr" where
  "store_token env = strip (env_get env (str ''NOCODB_API_TOKEN'') [])"

definition fetch ::
  "python \<Rightarrow> (json \<Rightarrow> pystr) \<Rightarrow> (nat \<Rightarrow> store_request \<Rightarrow> store_reply) \<Rightarrow> environ
     \<Rightarrow> (pystr \<times> pystr) list result option"
where
  "fetch py py_repr serve env =
     (if store_base env = [] \<or> store_token env = []
      then Some (unavailable (str ''NOCODB_BASE_URL and NOCODB_API_TOKEN are required''))
      else case table_id py py_repr serve (store_base env) (store_token env) of
        Inl e \<Rightarrow> Some (Inl e)
      | Inr table \<Rightarrow>
          map_option (\<lambda>rows. bind_res rows (resolve py_repr))
            (fetch_rows py serve (store_base env) (store_token env) (py_str py_repr table) 2 0 []))"

section \<open>Applying the settings\<close>

text \<open>\<open>os.environ[k] = v\<close> encodes the value (a lone surrogate fails unless it stands
  for a byte) and refuses a NUL.\<close>

definition env_value :: "pystr \<Rightarrow> unit result" where
  "env_value v =
     (if list_ex (\<lambda>c. is_surrogate c \<and> \<not> (56448 \<le> c \<and> c \<le> 56575)) v then Inl UnicodeError
      else if 0 \<in> set v then Inl ValueError else Inr ())"

fun export_all :: "(pystr \<times> pystr) list \<Rightarrow> environ \<Rightarrow> environ \<times> unit result" where
  "export_all [] env = (env, Inr ())"
| "export_all ((k, v) # ps) env =
     (case env_value v of Inl e \<Rightarrow> (env, Inl e) | Inr _ \<Rightarrow> export_all ps (env(k \<mapsto> v)))"

definition clear_settings :: "environ \<Rightarrow> environ" where
  "clear_settings env = foldl (\<lambda>e k. e(k := None)) env SETTING_KEYS"

definition apply_values :: "(pystr \<times> pystr) list \<Rightarrow> environ \<Rightarrow> environ \<times> pystr list result" where
  "apply_values ps env =
     (case export_all ps (clear_settings env) of
        (env', r) \<Rightarrow> (env', bind_res r (\<lambda>_. Inr (sort (map fst ps)))))"

definition apply_settings ::
  "python \<Rightarrow> (json \<Rightarrow> pystr) \<Rightarrow> (nat \<Rightarrow> store_request \<Rightarrow> store_reply) \<Rightarrow> environ
     \<Rightarrow> (environ \<times> pystr list result) option"
where
  "apply_settings py py_repr serve env =
     map_option (\<lambda>r. case r of Inl e \<Rightarrow> (env, Inl e) | Inr ps \<Rightarrow> apply_values ps env)
       (fetch py py_repr serve env)"

section \<open>What resolution promises\<close>

text \<open>
  The specification, with no order in it: a scope stores a value for a key when one of its
  rows has a value that is not blank, and the innermost scope that stores one wins.
\<close>

definition stored :: "(json \<Rightarrow> pystr) \<Rightarrow> json list \<Rightarrow> string \<Rightarrow> pystr \<Rightarrow> pystr \<Rightarrow> bool" where
  "stored py_repr rows scope key v \<longleftrightarrow>
     (\<exists>f raw. JObj f \<in> set rows \<and> get f ''app'' = Some (JStr (str scope))
        \<and> get f ''settingKey'' = Some (JStr key) \<and> get f ''settingValue'' = Some raw \<and> raw \<noteq> JNull
        \<and> v = strip (py_str py_repr raw) \<and> v \<noteq> [])"

definition effective :: "(json \<Rightarrow> pystr) \<Rightarrow> json list \<Rightarrow> pystr \<Rightarrow> pystr \<Rightarrow> bool" where
  "effective py_repr rows key v \<longleftrightarrow>
     stored py_repr rows ''aida-agent'' key v
     \<or> (\<nexists>w. stored py_repr rows ''aida-agent'' key w)
       \<and> (stored py_repr rows ''aida'' key v
           \<or> (\<nexists>w. stored py_repr rows ''aida'' key w) \<and> stored py_repr rows ''*'' key v)"

text \<open>The scope and key a row takes.\<close>

definition row_slot :: "json \<Rightarrow> (pystr \<times> pystr) list" where
  "row_slot row =
     (case row of
        JObj f \<Rightarrow>
          (case (get f ''app'', get f ''settingKey'') of
             (Some (JStr a), Some (JStr k)) \<Rightarrow> if a \<notin> set SCOPES \<or> strip k = [] then [] else [(a, k)]
           | _ \<Rightarrow> [])
      | _ \<Rightarrow> [])"

definition row_slots :: "json list \<Rightarrow> (pystr \<times> pystr) list" where
  "row_slots rows = concat (map row_slot rows)"

lemma scan_rows_step:
  "scan_rows seen (row # rows) =
     (if \<not> is_jobj row then Inl AttributeError
      else case row_slot row of
        [] \<Rightarrow> scan_rows seen rows
      | (a, k) # _ \<Rightarrow>
          if (a, k) \<in> set seen
          then unavailable (str ''duplicate PlatformConfig setting '' @ a @ [47] @ k)
          else scan_rows ((a, k) # seen) rows)"
  by (cases row) (auto simp: row_get_def row_slot_def split: option.split json.split)

lemma row_slot_cases: "row_slot row = [] \<or> (\<exists>a k. row_slot row = [(a, k)])"
  by (auto simp: row_slot_def split: json.split option.split)

lemma scan_rows_iff:
  "scan_rows seen rows = Inr u \<longleftrightarrow>
     list_all is_jobj rows \<and> distinct (row_slots rows) \<and> set (row_slots rows) \<inter> set seen = {}"
proof (induction rows arbitrary: seen)
  case Nil
  show ?case by (simp add: row_slots_def)
next
  case (Cons row rows)
  consider "\<not> is_jobj row" | "is_jobj row" "row_slot row = []"
    | a k where "is_jobj row" "row_slot row = [(a, k)]"
    using row_slot_cases [of row] by blast
  then show ?case
  proof cases
    case 2
    then show ?thesis
      unfolding scan_rows_step using Cons.IH [of seen] by (simp add: row_slots_def)
  next
    case 3
    then show ?thesis
      unfolding scan_rows_step
      using Cons.IH [of "(a, k) # seen"] by (auto simp: row_slots_def unavailable_def)
  qed (simp_all add: scan_rows_step row_slots_def Cons.IH del: scan_rows.simps)
qed

text \<open>A row that assigns takes its slot, so at most one row of a scope assigns a key.\<close>

lemma setting_keys_nonblank: "key \<in> set SETTING_KEYS \<Longrightarrow> strip key \<noteq> []"
  by (auto simp: SETTING_KEYS_def strip_Nil str_def py_isspace_def)

lemma row_assignment_slot:
  assumes "scope \<in> set SCOPES" "row_assignment py_repr scope row \<noteq> []"
  obtains key v where "row_assignment py_repr scope row = [(key, v)]" "row_slot row = [(scope, key)]"
  using assms setting_keys_nonblank
  by (auto simp: row_assignment_def row_slot_def split: json.splits option.splits if_splits)

lemma scope_assignments_distinct:
  assumes "scope \<in> set SCOPES"
  shows "distinct (row_slots rows) \<Longrightarrow>
    distinct (map fst (concat (map (row_assignment py_repr scope) rows)))
    \<and> (\<forall>key \<in> fst ` set (concat (map (row_assignment py_repr scope) rows)). (scope, key) \<in> set (row_slots rows))"
proof (induction rows)
  case (Cons row rows)
  have IH: "distinct (map fst (concat (map (row_assignment py_repr scope) rows)))"
    "\<forall>key \<in> fst ` set (concat (map (row_assignment py_repr scope) rows)). (scope, key) \<in> set (row_slots rows)"
    and d: "set (row_slot row) \<inter> set (row_slots rows) = {}"
    using Cons by (auto simp: row_slots_def)
  show ?case
  proof (cases "row_assignment py_repr scope row = []")
    case True
    with IH show ?thesis by (auto simp: row_slots_def)
  next
    case False
    from row_assignment_slot [OF assms this] obtain key v
      where "row_assignment py_repr scope row = [(key, v)]" "row_slot row = [(scope, key)]" .
    with IH d show ?thesis by (auto simp: row_slots_def)
  qed
qed (simp add: row_slots_def)

lemma row_assignment_iff:
  "(key, v) \<in> set (concat (map (row_assignment py_repr (str scope)) rows)) \<longleftrightarrow>
     key \<in> set SETTING_KEYS \<and> stored py_repr rows scope key v"
proof -
  have "(key, v) \<in> set (row_assignment py_repr (str scope) row) \<longleftrightarrow>
    key \<in> set SETTING_KEYS \<and> stored py_repr [row] scope key v" for row
  proof (cases row)
    case (JObj f)
    then show ?thesis
      by (cases "get f ''settingKey''"; cases "get f ''settingValue''")
         (auto simp: row_assignment_def stored_def split: json.split)
  qed (simp_all add: row_assignment_def stored_def)
  then show ?thesis by (auto simp: stored_def)
qed

lemma scope_lookup:
  assumes "str scope \<in> set SCOPES" "distinct (row_slots rows)"
  shows "map_of (rev (concat (map (row_assignment py_repr (str scope)) rows))) key = Some v
    \<longleftrightarrow> key \<in> set SETTING_KEYS \<and> stored py_repr rows scope key v"
proof -
  let ?a = "concat (map (row_assignment py_repr (str scope)) rows)"
  have "distinct (map fst (rev ?a))"
    using scope_assignments_distinct [OF assms, of py_repr] by (simp flip: rev_map)
  then have "map_of (rev ?a) key = Some v \<longleftrightarrow> (key, v) \<in> set (rev ?a)" by simp
  then show ?thesis using row_assignment_iff [of key v py_repr scope rows] by simp
qed

lemma resolve_iff:
  "resolve py_repr rows = Inr values \<longleftrightarrow>
     list_all is_jobj rows \<and> distinct (row_slots rows) \<and> values = update_all (assignments py_repr rows) []"
  using scan_rows_iff [of "[]" rows] by (auto simp: resolve_def bind_res_eq_Inr)

lemma assignments_scopes:
  "map_of (rev (assignments py_repr rows)) =
     map_of (rev (concat (map (row_assignment py_repr (str ''*'')) rows)))
     ++ map_of (rev (concat (map (row_assignment py_repr (str ''aida'')) rows)))
     ++ map_of (rev (concat (map (row_assignment py_repr (str ''aida-agent'')) rows)))"
  by (simp add: assignments_def SCOPES_def)

lemma resolve_lookup:
  assumes "resolve py_repr rows = Inr values"
  shows "lookup key values = Some v \<longleftrightarrow> key \<in> set SETTING_KEYS \<and> effective py_repr rows key v"
proof -
  let ?m = "\<lambda>scope. map_of (rev (concat (map (row_assignment py_repr (str scope)) rows))) key"
  have d: "distinct (row_slots rows)" and vals: "values = update_all (assignments py_repr rows) []"
    using assms by (simp_all add: resolve_iff)
  have m: "?m scope = Some w \<longleftrightarrow> key \<in> set SETTING_KEYS \<and> stored py_repr rows scope key w"
    if "str scope \<in> set SCOPES" for scope w
    using scope_lookup [OF that d] .
  have s: "str ''*'' \<in> set SCOPES" "str ''aida'' \<in> set SCOPES" "str ''aida-agent'' \<in> set SCOPES"
    by (simp_all add: SCOPES_def)
  have n: "?m scope = None \<longleftrightarrow> \<not> (key \<in> set SETTING_KEYS \<and> (\<exists>w. stored py_repr rows scope key w))"
    if "str scope \<in> set SCOPES" for scope
    using m [OF that] by (cases "?m scope") auto
  have "lookup key values = map_of (rev (assignments py_repr rows)) key"
    unfolding vals by (simp add: lookup_update_all split: option.split)
  then have "lookup key values = Some v \<longleftrightarrow>
      ?m ''aida-agent'' = Some v
      \<or> ?m ''aida-agent'' = None \<and> (?m ''aida'' = Some v \<or> ?m ''aida'' = None \<and> ?m ''*'' = Some v)"
    unfolding assignments_scopes by (simp add: map_add_def split: option.split)
  then show ?thesis
    unfolding m [OF s(1)] m [OF s(2)] m [OF s(3)] n [OF s(2)] n [OF s(3)] effective_def
    by (cases "key \<in> set SETTING_KEYS") auto
qed

text \<open>C35.
  The two passes of \<open>resolve\<close> compute what the scopes promise: the values are those of
  the keys in \<open>SETTING_KEYS\<close>, each the stripped value of the innermost scope
  (\<open>*\<close>, then \<open>aida\<close>, then \<open>aida-agent\<close>) with a row for it that is not blank.
\<close>

theorem resolve_refines:
  assumes "resolve py_repr rows = Inr values"
  shows "lookup key values = Some v \<longleftrightarrow> key \<in> set SETTING_KEYS \<and> effective py_repr rows key v"
  using assms by (rule resolve_lookup)

lemma effective_order: "set rows = set rows' \<Longrightarrow> effective py_repr rows = effective py_repr rows'"
  by (intro ext) (simp add: effective_def stored_def)

lemma row_slots_order:
  assumes "mset rows = mset rows'"
  shows "mset (row_slots rows) = mset (row_slots rows')"
proof -
  have "mset (row_slots rows) = (\<Sum>row \<in># mset rows. mset (row_slot row))" for rows
    by (induction rows) (simp_all add: row_slots_def)
  with assms show ?thesis by simp
qed

text \<open>C36.
  The order in which the store lists the rows decides nothing: any permutation of accepted
  rows is accepted and gives every key the same value.
\<close>

theorem resolve_order:
  assumes "resolve py_repr rows = Inr values" "mset rows = mset rows'"
  shows "\<exists>values'. resolve py_repr rows' = Inr values' \<and> (\<forall>key. lookup key values' = lookup key values)"
proof -
  have "distinct (row_slots rows')"
    using assms(1) mset_eq_imp_distinct_iff [OF row_slots_order [OF assms(2)]] by (simp add: resolve_iff)
  moreover have set: "set rows' = set rows" using assms(2) by (metis set_mset_mset)
  moreover have "list_all is_jobj rows'"
    using assms set by (simp add: resolve_iff list_all_iff)
  ultimately obtain values' where v: "resolve py_repr rows' = Inr values'" by (simp add: resolve_iff)
  have "lookup key values' = Some w \<longleftrightarrow> lookup key values = Some w" for key w
    using resolve_lookup [OF v] resolve_lookup [OF assms(1)] effective_order [OF set] by simp
  then have "lookup key values' = lookup key values" for key
    by (metis not_None_eq)
  with v show ?thesis by blast
qed

section \<open>The page loop\<close>

text \<open>A store that holds a finite table and serves it by offset and limit.\<close>

definition serves_table ::
  "python \<Rightarrow> (nat \<Rightarrow> store_request \<Rightarrow> store_reply) \<Rightarrow> pystr \<Rightarrow> pystr \<Rightarrow> pystr \<Rightarrow> json list \<Rightarrow> bool"
where
  "serves_table py serve base_url token table rows \<longleftrightarrow>
     (\<forall>k \<ge> 2. \<forall>offset. \<exists>p stop.
        api py (serve k) base_url token (records_path table offset) = Inr p
        \<and> page_list p = take PAGE_SIZE (drop offset rows)
        \<and> is_last_page p = Inr stop \<and> (stop \<longrightarrow> length rows \<le> offset + PAGE_SIZE))"

lemma fetch_rows_complete:
  assumes "serves_table py serve base_url token table rows"
  shows "2 \<le> k \<Longrightarrow> offset \<le> length rows \<Longrightarrow>
    fetch_rows py serve base_url token table k offset (take offset rows) = Some (Inr rows)"
proof (induction "length rows - offset" arbitrary: k offset rule: less_induct)
  case less
  obtain p stop where p: "api py (serve k) base_url token (records_path table offset) = Inr p"
    "page_list p = take PAGE_SIZE (drop offset rows)"
    "is_last_page p = Inr stop" "stop \<longrightarrow> length rows \<le> offset + PAGE_SIZE"
    using assms less.prems(1) unfolding serves_table_def by blast
  have rows: "take offset rows @ page_list p = take (offset + PAGE_SIZE) rows"
    by (simp add: p(2) take_add)
  show ?case
  proof (cases "length (page_list p) < PAGE_SIZE \<or> stop")
    case True
    then have "length rows \<le> offset + PAGE_SIZE" using p less.prems by auto
    with True p(1,3) rows show ?thesis by (auto simp: fetch_rows.simps)
  next
    case False
    then have l: "offset + PAGE_SIZE \<le> length rows" using p(2) less.prems by (simp add: not_less) linarith
    then have "fetch_rows py serve base_url token table (Suc k) (offset + PAGE_SIZE)
        (take (offset + PAGE_SIZE) rows) = Some (Inr rows)"
      using less.prems(1) by (intro less.hyps) (simp_all add: PAGE_SIZE_def)
    with False p(1,3) rows show ?thesis by (simp add: fetch_rows.simps [of _ _ _ _ _ k])
  qed
qed

text \<open>C37.
  Reading the settings ends and misses nothing: from a store that serves a finite table by
  offset, \<open>fetch\<close> returns, with exactly the resolution of all its rows in order.
\<close>

theorem fetch_reads_table:
  assumes "store_base env \<noteq> []" "store_token env \<noteq> []"
    and "table_id py py_repr serve (store_base env) (store_token env) = Inr table"
    and "serves_table py serve (store_base env) (store_token env) (py_str py_repr table) rows"
  shows "fetch py py_repr serve env = Some (resolve py_repr rows)"
  using assms fetch_rows_complete [OF assms(4), of 2 0] by (simp add: fetch_def)

text \<open>Nothing bounds the loop: a store that ignores the offset is read for ever.\<close>

definition serves_full_pages ::
  "python \<Rightarrow> (nat \<Rightarrow> store_request \<Rightarrow> store_reply) \<Rightarrow> pystr \<Rightarrow> pystr \<Rightarrow> pystr \<Rightarrow> bool"
where
  "serves_full_pages py serve base_url token table \<longleftrightarrow>
     (\<forall>k offset. \<exists>p. api py (serve k) base_url token (records_path table offset) = Inr p
        \<and> PAGE_SIZE \<le> length (page_list p) \<and> is_last_page p = Inr False)"

lemma fetch_rows_returned:
  assumes "fetch_rows py serve base_url token table k offset rows = Some r"
  shows "\<not> serves_full_pages py serve base_url token table"
proof (rule fetch_rows.raw_induct
    [where P = "\<lambda>a b c d e k offset rows r. \<not> serves_full_pages a b c d e", OF _ assms])
  fix f py serve base_url token table k offset rows r
  assume IH: "\<And>a b c d e k offset rows r. f a b c d e k offset rows = Some r \<Longrightarrow> \<not> serves_full_pages a b c d e"
    and eq: "(case api py (serve k) base_url token (records_path table offset) of
        Inl e \<Rightarrow> Some (Inl e)
      | Inr p \<Rightarrow>
          if length (page_list p) < PAGE_SIZE then Some (Inr (rows @ page_list p))
          else case is_last_page p of
            Inl e \<Rightarrow> Some (Inl e)
          | Inr stop \<Rightarrow>
              if stop then Some (Inr (rows @ page_list p))
              else f py serve base_url token table (Suc k) (offset + PAGE_SIZE) (rows @ page_list p)) = Some r"
  show "\<not> serves_full_pages py serve base_url token table"
  proof
    assume full: "serves_full_pages py serve base_url token table"
    then obtain p where "api py (serve k) base_url token (records_path table offset) = Inr p"
      "PAGE_SIZE \<le> length (page_list p)" "is_last_page p = Inr False"
      unfolding serves_full_pages_def by blast
    with eq have "f py serve base_url token table (Suc k) (offset + PAGE_SIZE) (rows @ page_list p) = Some r"
      by simp
    with IH full show False by blast
  qed
qed

lemma endless_pages:
  "serves_full_pages py serve base_url token table \<Longrightarrow>
     fetch_rows py serve base_url token table k offset rows = None"
  using fetch_rows_returned by fastforce

section \<open>Applying\<close>

lemma clear_settings_eq: "clear_settings env k = (if k \<in> set SETTING_KEYS then None else env k)"
proof -
  have "foldl (\<lambda>e k. e(k := None)) env ks k = (if k \<in> set ks then None else env k)" for ks
    by (induction ks arbitrary: env) auto
  then show ?thesis by (simp add: clear_settings_def)
qed

lemma export_all_eq:
  "export_all ps env = (env', Inr u) \<Longrightarrow> distinct (map fst ps) \<Longrightarrow>
     env' k = (case lookup k ps of None \<Rightarrow> env k | Some v \<Rightarrow> Some v)"
proof (induction ps arbitrary: env)
  case (Cons p ps)
  obtain k' v where p: "p = (k', v)" by (cases p)
  from Cons.prems have e: "export_all ps (env(k' \<mapsto> v)) = (env', Inr u)" "k' \<notin> fst ` set ps"
    by (auto simp: p split: sum.splits)
  then have "lookup k' ps = None" by (simp add: lookup_def map_of_eq_None_iff)
  with Cons.IH [OF e(1)] Cons.prems(2) show ?case
    by (auto simp: p lookup_def split: option.split)
qed (simp add: lookup_def)

text \<open>What is known of the environment after a start-up that applied the store.\<close>

definition store_applied :: "(pystr \<times> pystr) list \<Rightarrow> environ \<Rightarrow> environ \<Rightarrow> bool" where
  "store_applied ps env env' \<longleftrightarrow>
     (\<forall>k. env' k = (if k \<in> set SETTING_KEYS then lookup k ps else env k))"

lemma resolve_keys:
  assumes "resolve py_repr rows = Inr ps"
  shows "distinct (map fst ps)" "fst ` set ps \<subseteq> set SETTING_KEYS"
proof -
  show d: "distinct (map fst ps)"
    using assms by (simp add: resolve_iff update_all_distinct)
  show "fst ` set ps \<subseteq> set SETTING_KEYS"
  proof clarify
    fix k v assume "(k, v) \<in> set ps"
    then have "lookup k ps = Some v" using d by (simp add: lookup_def)
    with resolve_lookup [OF assms, of k v] show "fst (k, v) \<in> set SETTING_KEYS" by simp
  qed
qed

lemma fetch_resolved:
  assumes "fetch py py_repr serve env = Some (Inr ps)"
  obtains rows where "resolve py_repr rows = Inr ps"
  using assms
  by (auto simp: fetch_def unavailable_def bind_res_eq_Inr split: if_splits sum.splits)

lemma apply_settings_cases:
  assumes "apply_settings py py_repr serve env = Some (env', q)"
  obtains (unread) e where "fetch py py_repr serve env = Some (Inl e)" "env' = env" "q = Inl e"
  | (read) ps where "fetch py py_repr serve env = Some (Inr ps)" "apply_values ps env = (env', q)"
proof (cases "fetch py py_repr serve env")
  case (Some r)
  show thesis
  proof (cases r)
    case (Inl e)
    with Some assms have "env' = env" "q = Inl e" by (simp_all add: apply_settings_def)
    with unread Some Inl show thesis by simp
  next
    case (Inr ps)
    with Some assms have "apply_values ps env = (env', q)" by (simp add: apply_settings_def)
    with read Some Inr show thesis by simp
  qed
qed (use assms in \<open>simp add: apply_settings_def\<close>)

lemma apply_values_error: "apply_values ps env = (env', Inl e) \<Longrightarrow> e = ValueError \<or> e = UnicodeError"
proof -
  have "export_all ps e0 = (env', Inl e) \<Longrightarrow> e = ValueError \<or> e = UnicodeError" for e0
    by (induction ps e0 rule: export_all.induct) (auto simp: env_value_def split: sum.splits if_splits)
  then show "apply_values ps env = (env', Inl e) \<Longrightarrow> ?thesis"
    by (auto simp: apply_values_def bind_res_eq_Inl split: prod.splits)
qed

lemma apply_values_success:
  assumes "resolve py_repr rows = Inr ps" "apply_values ps env = (env', Inr ks)"
  shows "store_applied ps env env' \<and> ks = sort (map fst ps)"
proof -
  obtain u where e: "export_all ps (clear_settings env) = (env', Inr u)" and ks: "ks = sort (map fst ps)"
    using assms(2) by (auto simp: apply_values_def bind_res_eq_Inr split: prod.splits)
  have "env' k = (if k \<in> set SETTING_KEYS then lookup k ps else env k)" for k
  proof (cases "lookup k ps")
    case None
    then show ?thesis
      using export_all_eq [OF e resolve_keys(1) [OF assms(1)], of k] by (simp add: clear_settings_eq)
  next
    case (Some v)
    then have "k \<in> set SETTING_KEYS" using resolve_lookup [OF assms(1), of k v] by simp
    with Some show ?thesis using export_all_eq [OF e resolve_keys(1) [OF assms(1)], of k] by simp
  qed
  with ks show ?thesis by (simp add: store_applied_def)
qed

text \<open>A same-named environment variable never survives: after the settings were applied, each
  key of \<open>SETTING_KEYS\<close> has the store's value or none, every other variable is as it was,
  and the keys returned are the sorted keys of the store's values. When reading the store
  failed, the environment is untouched.
\<close>

theorem settings_applied:
  "case apply_settings py py_repr serve env of
     None \<Rightarrow> fetch py py_repr serve env = None
   | Some (env', Inl e) \<Rightarrow>
       fetch py py_repr serve env = Some (Inl e) \<and> env' = env
       \<or> (\<exists>ps. fetch py py_repr serve env = Some (Inr ps)) \<and> (e = ValueError \<or> e = UnicodeError)
   | Some (env', Inr ks) \<Rightarrow>
       (\<exists>ps. fetch py py_repr serve env = Some (Inr ps) \<and> store_applied ps env env'
          \<and> ks = sort (map fst ps))"
proof (cases "apply_settings py py_repr serve env")
  case None
  then show ?thesis by (simp add: apply_settings_def)
next
  case (Some r)
  obtain env' q where r: "r = (env', q)" by (cases r)
  with Some have "apply_settings py py_repr serve env = Some (env', q)" by simp
  then show ?thesis
  proof (cases rule: apply_settings_cases)
    case (read ps)
    obtain rows where "resolve py_repr rows = Inr ps" using read(1) by (rule fetch_resolved)
    with read Some r show ?thesis
      using apply_values_success apply_values_error by (fastforce split: sum.split)
  qed (simp add: Some r)
qed

text \<open>A NOCODB_BASE_URL without a scheme is not reported as unavailable settings: the request
  is built outside the \<open>try\<close>, so a plain ValueError leaves \<open>fetch\<close>, whatever the store.
\<close>

theorem url_without_scheme:
  assumes "store_base env \<noteq> []" "store_token env \<noteq> []" "\<not> has_url_type (store_base env @ bases_path)"
  shows "apply_settings py py_repr serve env = Some (env, Inl ValueError)"
  using assms by (simp add: apply_settings_def fetch_def table_id_def api_def)

section \<open>A store\<close>

lemma strip_no_space: "list_all (\<lambda>c. 32 < c \<and> c < 127) s \<Longrightarrow> strip s = s"
proof -
  assume a: "list_all (\<lambda>c. 32 < c \<and> c < 127) s"
  then have n: "\<forall>c \<in> set s. \<not> py_isspace c" by (auto simp: list_all_iff py_isspace_def)
  have d: "dropWhile py_isspace t = t" if "\<forall>c \<in> set t. \<not> py_isspace c" for t
    using that by (cases t) simp_all
  show ?thesis
    using d [of s] d [of "rev s"] n by (simp add: strip_def strip_by_def lstrip_by_def rstrip_by_def)
qed

definition setting_row :: "string \<Rightarrow> string \<Rightarrow> string \<Rightarrow> json" where
  "setting_row app key v =
     JObj [(str ''app'', JStr (str app)), (str ''settingKey'', JStr (str key)),
       (str ''settingValue'', JStr (str v))]"

definition sample_rows :: "json list" where
  "sample_rows = [setting_row ''*'' ''AIDA_LLM_MODEL'' ''gpt-a'',
     setting_row ''aida-agent'' ''AIDA_LLM_MODEL'' ''gpt-b'', setting_row ''aida'' ''AIDA_STT_MODEL'' '' '']"

lemma setting_row_get [simp]:
  "get [(str ''app'', a), (str ''settingKey'', k), (str ''settingValue'', v)] ''app'' = Some a"
  "get [(str ''app'', a), (str ''settingKey'', k), (str ''settingValue'', v)] ''settingKey'' = Some k"
  "get [(str ''app'', a), (str ''settingKey'', k), (str ''settingValue'', v)] ''settingValue'' = Some v"
  by (simp_all add: get_def)

lemma setting_row_slot:
  "str app \<in> set SCOPES \<Longrightarrow> str key \<in> set SETTING_KEYS \<Longrightarrow>
     row_slot (setting_row app key v) = [(str app, str key)]"
  using setting_keys_nonblank by (simp add: row_slot_def setting_row_def)

lemma sample_rows_resolve: "\<exists>ps. resolve (\<lambda>_. []) sample_rows = Inr ps"
proof -
  have "row_slots sample_rows = [(str ''*'', str ''AIDA_LLM_MODEL''), (str ''aida-agent'', str ''AIDA_LLM_MODEL''),
      (str ''aida'', str ''AIDA_STT_MODEL'')]"
    by (simp add: row_slots_def sample_rows_def setting_row_slot SCOPES_def SETTING_KEYS_def)
  moreover have "list_all is_jobj sample_rows" by (simp add: sample_rows_def setting_row_def)
  ultimately show ?thesis by (simp add: resolve_iff)
qed

lemma sample_stored: "stored (\<lambda>_. []) sample_rows ''aida-agent'' (str ''AIDA_LLM_MODEL'') (str ''gpt-b'')"
proof -
  have "strip (str ''gpt-b'') = str ''gpt-b''"
    by (rule strip_no_space) (simp add: str_def)
  moreover have "setting_row ''aida-agent'' ''AIDA_LLM_MODEL'' ''gpt-b'' \<in> set sample_rows"
    by (simp add: sample_rows_def)
  ultimately show ?thesis
    unfolding stored_def setting_row_def
    by (intro exI [of _ "[(str ''app'', JStr (str ''aida-agent'')),
        (str ''settingKey'', JStr (str ''AIDA_LLM_MODEL'')), (str ''settingValue'', JStr (str ''gpt-b''))]"]
        exI [of _ "JStr (str ''gpt-b'')"]) simp
qed

lemma resolve_refines_witness:
  "\<exists>ps. resolve (\<lambda>_. []) sample_rows = Inr ps \<and> lookup (str ''AIDA_LLM_MODEL'') ps = Some (str ''gpt-b'')"
proof -
  obtain ps where ps: "resolve (\<lambda>_. []) sample_rows = Inr ps" using sample_rows_resolve by blast
  from resolve_refines [OF this, of "str ''AIDA_LLM_MODEL''" "str ''gpt-b''"] sample_stored ps
  show ?thesis by (simp add: effective_def SETTING_KEYS_def)
qed

lemma resolve_order_witness:
  "\<exists>ps ps'. resolve (\<lambda>_. []) sample_rows = Inr ps \<and> resolve (\<lambda>_. []) (rev sample_rows) = Inr ps'
     \<and> (\<forall>key. lookup key ps' = lookup key ps)"
proof -
  obtain ps where ps: "resolve (\<lambda>_. []) sample_rows = Inr ps" using sample_rows_resolve by blast
  from resolve_order [OF this, of "rev sample_rows"] ps show ?thesis by auto
qed

text \<open>A store of a few rows, served by its paths, and one with a single row.\<close>

definition sample_origin :: pystr where
  "sample_origin = str ''https://store.test''"

definition sample_body :: "json list \<Rightarrow> store_reply" where
  "sample_body rows = StoreBody (json_dumps default_dump (JObj [(str ''list'', JArr rows)]))"

definition sample_entry :: "pystr \<Rightarrow> json" where
  "sample_entry name = JObj [(str ''title'', JStr name), (str ''id'', JStr (str ''x1''))]"

definition sample_row :: json where
  "sample_row = setting_row ''aida'' ''AIDA_LLM_MODEL'' ''gpt-a''"

text \<open>The rows from the offset that a URL of the table asks for.\<close>

definition served_rows :: "json list \<Rightarrow> pystr \<Rightarrow> json list" where
  "served_rows rows url =
     (case find (\<lambda>n. url = sample_origin @ records_path (str ''x1'') n) [0..<length rows] of
        None \<Rightarrow> [] | Some n \<Rightarrow> take PAGE_SIZE (drop n rows))"

definition serve_rows :: "json list \<Rightarrow> nat \<Rightarrow> store_request \<Rightarrow> store_reply" where
  "serve_rows rows k r =
     sample_body (if k = 0 then [sample_entry BASE_NAME] else if k = 1 then [sample_entry TABLE_NAME]
       else served_rows rows (sr_url r))"

abbreviation sample_store :: "nat \<Rightarrow> store_request \<Rightarrow> store_reply" where
  "sample_store \<equiv> serve_rows [sample_row]"

text \<open>Its URLs have a scheme, its answers are read as they were written.\<close>

lemma sample_origin_type:
  assumes "list_all (\<lambda>c. 35 < c \<and> c < 127) path"
  shows "has_url_type (sample_origin @ path)"
proof -
  have o: "sample_origin = str ''https'' @ 58 # str ''//store.test''"
    by (simp add: sample_origin_def str_def)
  have "list_all (\<lambda>c. 35 < c \<and> c < 127) (sample_origin @ path)"
    using assms by (simp add: sample_origin_def str_def)
  then have "list_all (\<lambda>c. 32 < c \<and> c < 127) (sample_origin @ path)"
    by (rule list.pred_mono_strong) auto
  from \<open>list_all (\<lambda>c. 35 < c \<and> c < 127) (sample_origin @ path)\<close> have n: "35 \<notin> set (sample_origin @ path)"
    by (auto simp: list_all_iff)
  have s: "strip (sample_origin @ path) = sample_origin @ path"
    by (rule strip_no_space) fact
  have u: "unwrap_url (sample_origin @ path) = sample_origin @ path"
    unfolding unwrap_url_def s by (simp add: sample_origin_def str_def)
  have "rpartition_at 35 (sample_origin @ path) = ([], False, sample_origin @ path)"
    using n by (simp add: rpartition_at_def partition_at_absent)
  moreover have "takeWhile (\<lambda>c. c \<noteq> 47 \<and> c \<noteq> 58) (sample_origin @ path) = str ''https''"
    unfolding o by (simp add: str_def)
  ultimately show ?thesis
    unfolding has_url_type_def u by (simp add: o nth_append)
qed

lemma show_nat_path: "list_all (\<lambda>c. 35 < c \<and> c < 127) (show_nat n)"
  using show_nat_digits [of n] by (auto simp: list_all_iff is_digit_def)

lemma sample_paths:
  "list_all (\<lambda>c. 35 < c \<and> c < 127) bases_path"
  "list_all (\<lambda>c. 35 < c \<and> c < 127) (tables_path (str ''x1''))"
  "list_all (\<lambda>c. 35 < c \<and> c < 127) (records_path (str ''x1'') n)"
  by (simp_all add: bases_path_def tables_path_def records_path_def show_nat_path)
     (simp_all add: str_def)

lemma sample_api:
  assumes "serve \<lparr>sr_url = sample_origin @ path, sr_token = token\<rparr> = sample_body rows"
    and "list_all (\<lambda>c. 35 < c \<and> c < 127) path" "\<forall>v \<in> set rows. wf_json v \<and> jdepth v \<le> 1"
  shows "api plain_python serve sample_origin token path = Inr [(str ''list'', JArr rows)]"
proof -
  have "foldr (\<lambda>v m. max (jdepth v) m) rows 0 \<le> 1" using assms(3) by (induction rows) auto
  then have "json_loads (plain_opts (repr_float plain_python)) (rec_limit plain_python)
      (RawBytes (json_dumps default_dump (JObj [(str ''list'', JArr rows)]))) = Inr (JObj [(str ''list'', JArr rows)])"
    using assms(3) by (intro json_body) (simp_all add: plain_python_def str_scalar)
  then show ?thesis
    using assms(1) sample_origin_type [OF assms(2)] by (simp add: api_def sample_body_def get_def)
qed

lemma sample_entries:
  "wf_json (sample_entry (str name)) \<and> jdepth (sample_entry (str name)) \<le> 1"
  "wf_json sample_row \<and> jdepth sample_row \<le> 1"
  by (simp_all add: sample_entry_def sample_row_def setting_row_def str_scalar)

lemma sample_table_id:
  "table_id plain_python (\<lambda>_. []) (serve_rows rows) sample_origin token = Inr (JStr (str ''x1''))"
proof -
  have "api plain_python (serve_rows rows 0) sample_origin token bases_path
      = Inr [(str ''list'', JArr [sample_entry BASE_NAME])]"
    using sample_entries(1) by (intro sample_api) (auto simp: serve_rows_def BASE_NAME_def sample_paths)
  moreover have "api plain_python (serve_rows rows 1) sample_origin token (tables_path (str ''x1''))
      = Inr [(str ''list'', JArr [sample_entry TABLE_NAME])]"
    using sample_entries(1) by (intro sample_api) (auto simp: serve_rows_def TABLE_NAME_def sample_paths)
  moreover have "titled n [sample_entry n] = Inr [sample_entry n]" for n
    by (simp add: row_get_def sample_entry_def get_def)
  moreover have "page_list [(str ''list'', JArr rows)] = rows" for rows
    by (simp add: page_list_def get_def)
  moreover have "only_id m [sample_entry n] = Inr (JStr (str ''x1''))" for m n
    by (simp add: only_id_def sample_entry_def index_def get_def)
  ultimately show ?thesis by (simp add: table_id_def)
qed

lemma records_path_inject: "records_path t m = records_path t n \<longleftrightarrow> m = n"
proof
  assume "records_path t m = records_path t n"
  then have "show_nat m = show_nat n" by (simp add: records_path_def)
  then show "m = n" by (metis digits_value_show_nat)
qed simp

lemma served_rows_offset:
  "served_rows rows (sample_origin @ records_path (str ''x1'') offset) = take PAGE_SIZE (drop offset rows)"
proof -
  have "find (\<lambda>n. offset = n) [0..<m] = (if offset < m then Some offset else None)" for m
  proof (cases "offset < m")
    case True
    then have "find (\<lambda>n. offset = n) [0..<m] = Some offset"
      unfolding find_Some_iff by (intro exI [of _ offset]) simp
    with True show ?thesis by simp
  qed (auto simp: find_None_iff)
  then show ?thesis by (simp add: served_rows_def records_path_inject)
qed

lemma rows_served:
  assumes "\<forall>v \<in> set rows. wf_json v \<and> jdepth v \<le> 1"
  shows "serves_table plain_python (serve_rows rows) sample_origin token (str ''x1'') rows"
proof -
  have "api plain_python (serve_rows rows k) sample_origin token (records_path (str ''x1'') offset)
      = Inr [(str ''list'', JArr (take PAGE_SIZE (drop offset rows)))]" if "2 \<le> k" for k offset
  proof (rule sample_api [OF _ sample_paths(3)])
    show "serve_rows rows k \<lparr>sr_url = sample_origin @ records_path (str ''x1'') offset, sr_token = token\<rparr>
        = sample_body (take PAGE_SIZE (drop offset rows))"
      using that by (simp add: serve_rows_def served_rows_offset)
    show "\<forall>v \<in> set (take PAGE_SIZE (drop offset rows)). wf_json v \<and> jdepth v \<le> 1"
      using assms by (meson in_set_dropD in_set_takeD)
  qed
  then show ?thesis
    by (auto simp: serves_table_def page_list_def get_def is_last_page_def)
qed

text \<open>Rows of the application's own scope, and the settings they give.\<close>

definition aida_rows :: "(string \<times> string) list \<Rightarrow> json list" where
  "aida_rows kvs = map (\<lambda>(k, v). setting_row ''aida'' k v) kvs"

definition setting_pairs :: "(string \<times> string) list \<Rightarrow> (pystr \<times> pystr) list" where
  "setting_pairs kvs = map (\<lambda>(k, v). (str k, str v)) kvs"

definition plain_settings :: "(string \<times> string) list \<Rightarrow> bool" where
  "plain_settings kvs \<longleftrightarrow> distinct (map fst kvs)
     \<and> list_all (\<lambda>(k, v). str k \<in> set SETTING_KEYS \<and> v \<noteq> [] \<and> list_all (\<lambda>c. 32 < c \<and> c < 127) (str v)) kvs"

lemma remember_new: "k \<notin> fst ` set d \<Longrightarrow> remember_as k v d = d @ [(k, v)]"
  by (induction d) auto

lemma update_all_new: "distinct (map fst (d @ ps)) \<Longrightarrow> update_all ps d = d @ ps"
proof (induction ps arbitrary: d)
  case (Cons p ps)
  then show ?case
    using Cons.IH [of "d @ [p]"] by (cases p) (simp add: update_all_def remember_new)
qed (simp add: update_all_def)

lemma aida_rows_facts:
  assumes "plain_settings kvs"
  shows "assignments (\<lambda>_. []) (aida_rows kvs) = setting_pairs kvs"
    and "row_slots (aida_rows kvs) = map (\<lambda>(k, v). (str ''aida'', str k)) kvs"
    and "list_all is_jobj (aida_rows kvs)" "\<forall>v \<in> set (aida_rows kvs). wf_json v \<and> jdepth v \<le> 1"
proof -
  have row: "row_assignment (\<lambda>_. []) (str sc) (setting_row ''aida'' k v) = (if sc = ''aida'' then [(str k, str v)] else [])"
    if "(k, v) \<in> set kvs" for sc k v
  proof -
    have "str k \<in> set SETTING_KEYS" "v \<noteq> []" "list_all (\<lambda>c. 32 < c \<and> c < 127) (str v)"
      using that assms unfolding plain_settings_def list_all_iff by blast+
    moreover from this have "strip (str v) = str v" by (intro strip_no_space)
    ultimately show ?thesis by (simp add: row_assignment_def setting_row_def)
  qed
  have "concat (map (row_assignment (\<lambda>_. []) (str sc)) (map (\<lambda>(k, v). setting_row ''aida'' k v) xs))
      = (if sc = ''aida'' then map (\<lambda>(k, v). (str k, str v)) xs else [])"
    if "set xs \<subseteq> set kvs" for sc xs
    using that by (induction xs) (auto simp: row)
  from this [of kvs] show "assignments (\<lambda>_. []) (aida_rows kvs) = setting_pairs kvs"
    by (simp add: assignments_def SCOPES_def aida_rows_def setting_pairs_def)
  have "concat (map row_slot (map (\<lambda>(k, v). setting_row ''aida'' k v) xs)) = map (\<lambda>(k, v). (str ''aida'', str k)) xs"
    if "set xs \<subseteq> set kvs" for xs
    using that
  proof (induction xs)
    case (Cons x xs)
    then have "str (fst x) \<in> set SETTING_KEYS" using assms by (auto simp: plain_settings_def list_all_iff)
    moreover have "str ''aida'' \<in> set SCOPES" by (simp add: SCOPES_def)
    ultimately show ?case using Cons setting_row_slot [of "''aida''" "fst x" "snd x"] by (cases x) simp
  qed simp
  from this [of kvs] show "row_slots (aida_rows kvs) = map (\<lambda>(k, v). (str ''aida'', str k)) kvs"
    by (simp add: row_slots_def aida_rows_def)
  have "is_jobj (setting_row a k v)" "wf_json (setting_row a k v) \<and> jdepth (setting_row a k v) \<le> 1" for a k v
    by (simp_all add: setting_row_def str_scalar)
  then show "list_all is_jobj (aida_rows kvs)" "\<forall>v \<in> set (aida_rows kvs). wf_json v \<and> jdepth v \<le> 1"
    by (auto simp: aida_rows_def list_all_iff)
qed

lemma aida_rows_resolve:
  assumes "plain_settings kvs"
  shows "resolve (\<lambda>_. []) (aida_rows kvs) = Inr (setting_pairs kvs)"
proof -
  have d: "distinct (map fst kvs)" using assms by (simp add: plain_settings_def)
  then have "distinct (map (\<lambda>(k, v). (str ''aida'', str k)) kvs)" "distinct (map fst (setting_pairs kvs))"
    by (auto simp: distinct_map setting_pairs_def inj_on_def case_prod_beta)
  with update_all_new [of "[]" "setting_pairs kvs"] show ?thesis
    by (simp add: resolve_iff aida_rows_facts [OF assms])
qed

lemma setting_pairs_exported: "plain_settings kvs \<Longrightarrow> \<exists>env'. export_all (setting_pairs kvs) env = (env', Inr ())"
proof (induction kvs arbitrary: env)
  case (Cons p kvs)
  obtain k v where p: "p = (k, v)" by (cases p)
  have "list_all (\<lambda>c. 32 < c \<and> c < 127) (str v)" using Cons.prems by (simp add: p plain_settings_def)
  then have "env_value (str v) = Inr ()" by (auto simp: env_value_def list_all_iff list_ex_iff surrogate_defs)
  moreover have "plain_settings kvs" using Cons.prems by (simp add: plain_settings_def)
  ultimately show ?case using Cons.IH by (simp add: p setting_pairs_def)
qed (simp add: setting_pairs_def)

lemma sample_serves:
  "serves_table plain_python sample_store sample_origin token (str ''x1'') [sample_row]"
  using sample_entries(2) by (intro rows_served) simp

definition sample_environ :: environ where
  "sample_environ = [str ''NOCODB_BASE_URL'' \<mapsto> str ''https://store.test/'', str ''NOCODB_API_TOKEN'' \<mapsto> str ''t'',
     str ''AIDA_LLM_MODEL'' \<mapsto> str ''stale'']"

lemma sample_environ_store: "store_base sample_environ = sample_origin" "store_token sample_environ = str ''t''"
proof -
  have "strip (str ''https://store.test/'') = str ''https://store.test/''" "strip (str ''t'') = str ''t''"
    by (intro strip_no_space; simp add: str_def)+
  then show "store_base sample_environ = sample_origin" "store_token sample_environ = str ''t''"
    by (simp_all add: store_base_def store_token_def env_get_def sample_environ_def)
       (simp add: sample_origin_def str_def rstrip_by_def)
qed

lemma fetch_reads_table_witness:
  "fetch plain_python (\<lambda>_. []) sample_store sample_environ = Some (resolve (\<lambda>_. []) [sample_row])"
proof (rule fetch_reads_table)
  show "table_id plain_python (\<lambda>_. []) sample_store (store_base sample_environ) (store_token sample_environ)
      = Inr (JStr (str ''x1''))"
    unfolding sample_environ_store by (rule sample_table_id)
  show "serves_table plain_python sample_store (store_base sample_environ) (store_token sample_environ)
      (py_str (\<lambda>_. []) (JStr (str ''x1''))) [sample_row]"
    unfolding sample_environ_store py_str.simps by (rule sample_serves)
qed (simp_all add: sample_environ_store, simp_all add: sample_origin_def)

definition bare_environ :: environ where
  "bare_environ = [str ''NOCODB_BASE_URL'' \<mapsto> str ''store.test'', str ''NOCODB_API_TOKEN'' \<mapsto> str ''t'']"

lemma url_without_scheme_witness:
  "apply_settings plain_python (\<lambda>_. []) sample_store bare_environ = Some (bare_environ, Inl ValueError)"
proof (rule url_without_scheme)
  have s: "strip (str ''store.test'') = str ''store.test''" "strip (str ''t'') = str ''t''"
    by (intro strip_no_space; simp add: str_def)+
  then show "store_token bare_environ \<noteq> []"
    by (simp add: store_token_def env_get_def bare_environ_def)
  have b: "store_base bare_environ = str ''store.test''"
    using s by (simp add: store_base_def env_get_def bare_environ_def) (simp add: str_def rstrip_by_def)
  then show "store_base bare_environ \<noteq> []" by simp
  have u: "strip (str ''store.test'' @ bases_path) = str ''store.test'' @ bases_path"
    by (rule strip_no_space) (simp add: bases_path_def str_def)
  show "\<not> has_url_type (store_base bare_environ @ bases_path)"
    unfolding b has_url_type_def unwrap_url_def u
    by (simp add: bases_path_def str_def rpartition_at_def)
qed

end
