(* ===== verification/Preview.thy ===== *)
theory Preview
  imports Config Dictionary
begin

text \<open>
  build_info.py and preview.py: the identity of the installed artifact, the status that the
  preview service reports and the reply to each request path. The HTTP server and the
  argument parser are the standard library's.
\<close>

section \<open>The build identity\<close>

definition unbuilt :: fields where
  "unbuilt =
     [(str ''version'', JStr (str ''unbuilt'')), (str ''revision'', JNull), (str ''sourceUpdatedAt'', JNull),
      (str ''timeZone'', JStr (str ''America/Los_Angeles'')), (str ''dirty'', JNull)]"

definition build_info :: "python \<Rightarrow> pystr option \<Rightarrow> json result" where
  "build_info py file =
     (case file of
        None \<Rightarrow> Inr (JObj unbuilt)
      | Some content \<Rightarrow> json_loads (plain_opts (repr_float py)) (rec_limit py) (RawStr content))"

section \<open>The status\<close>

definition VOICE_SETTINGS :: "pystr list" where
  "VOICE_SETTINGS = map str
     [''LIVEKIT_URL'', ''LIVEKIT_API_KEY'', ''LIVEKIT_API_SECRET'',
      ''OFFICEPULSE_API_BASE_URL'', ''AIDA_ROUTE_TOKEN_ATTRIBUTE'',
      ''AIDA_STT_MODEL'', ''AIDA_LLM_MODEL'', ''AIDA_TTS_MODEL'', ''AIDA_TTS_VOICE'']"

definition missing_settings :: "environ \<Rightarrow> pystr list" where
  "missing_settings env = filter (\<lambda>k. strip (env_get env k []) = []) VOICE_SETTINGS"

definition preview_status :: "fields \<Rightarrow> environ \<Rightarrow> fields" where
  "preview_status build env =
     update_all
       [(str ''mode'', JStr (str ''preview'')), (str ''voiceEnabled'', JBool False),
        (str ''status'', JStr (if missing_settings env \<noteq> [] then str ''waiting_for_voice_configuration''
           else str ''preview_mode'')),
        (str ''missingSettings'', JArr (map JStr (missing_settings env)))] build"

section \<open>Requests\<close>

datatype preview_reply =
    SendError nat
  | PreviewReply nat "(pystr \<times> pystr) list" pybytes

definition do_GET :: "fields \<Rightarrow> environ \<Rightarrow> pystr \<Rightarrow> preview_reply" where
  "do_GET build env target =
     (let path = fst (partition_at 63 target) in
      if path \<notin> {str ''/'', str ''/healthz'', str ''/readyz''} then SendError 404
      else
        (let body = utf8_bytes (json_dumps default_dump (JObj (preview_status build env))) in
         PreviewReply (if path = str ''/readyz'' then 503 else 200)
           [(str ''Content-Type'', str ''application/json''),
            (str ''Content-Length'', show_nat (length body)), (str ''Cache-Control'', str ''no-store'')]
           body))"

text \<open>\<open>main\<close> on the parsed options: a port out of range ends the program.\<close>

definition preview_main :: "int \<Rightarrow> unit result" where
  "preview_main port =
     (if \<not> (1 \<le> port \<and> port \<le> 65535) then Inl (SystemExit (str ''port must be between 1 and 65535''))
      else Inr ())"

section \<open>Properties\<close>

lemma update_all_Cons: "update_all ((k, v) # ps) d = update_all ps (remember_as k v d)"
  by (simp add: update_all_def)

lemma update_all_Nil [simp]: "update_all [] d = d"
  by (simp add: update_all_def)

lemma remember_as_wf:
  assumes "wf_json (JObj d)" "list_all is_scalar k" "wf_json v"
  shows "wf_json (JObj (remember_as k v d))"
proof -
  have "list_all (\<lambda>(k, v). list_all is_scalar k \<and> wf_json v) (remember_as k v d)"
    using assms by (intro remember_as_all) (auto simp: list_all_iff)
  then show ?thesis using assms(1) by (simp add: remember_as_distinct list_all_iff)
qed

lemma remember_as_depth:
  assumes "jdepth (JObj d) \<le> n" "Suc (jdepth v) \<le> n"
  shows "jdepth (JObj (remember_as k v d)) \<le> n"
proof -
  obtain m where m: "n = Suc m" using assms(2) by (cases n) auto
  have "foldr (\<lambda>(k, v) m. max (jdepth v) m) ps 0 \<le> m \<longleftrightarrow> (\<forall>(k, v) \<in> set ps. jdepth v \<le> m)" for ps :: fields
    by (induction ps) auto
  then have j: "jdepth (JObj ps) \<le> n \<longleftrightarrow> (\<forall>(k, v) \<in> set ps. Suc (jdepth v) \<le> n)" for ps :: fields
    by (simp add: m)
  have "list_all (\<lambda>(k, v). Suc (jdepth v) \<le> n) (remember_as k v d)"
    using assms(2) assms(1) [unfolded j] by (intro remember_as_all) (auto simp: list_all_iff)
  then show ?thesis unfolding j by (simp add: list_all_iff)
qed

lemma get_lookup: "get d k = lookup (str k) d"
  by (simp add: get_def lookup_def)

lemma preview_status_get:
  "get (preview_status build env) ''mode'' = Some (JStr (str ''preview''))"
  "get (preview_status build env) ''voiceEnabled'' = Some (JBool False)"
  "get (preview_status build env) ''missingSettings'' = Some (JArr (map JStr (missing_settings env)))"
  by (simp_all add: preview_status_def get_lookup update_all_Cons)

lemma preview_status_wf:
  assumes "wf_json (JObj build)" "jdepth (JObj build) \<le> n" "2 \<le> n"
  shows "wf_json (JObj (preview_status build env))" "jdepth (JObj (preview_status build env)) \<le> n"
proof -
  have m: "\<forall>k \<in> set (missing_settings env). list_all is_scalar k"
    by (auto simp: missing_settings_def VOICE_SETTINGS_def str_scalar)
  have "foldr (\<lambda>v m. max (jdepth v) m) (map JStr ks) 0 = 0" for ks by (induction ks) auto
  then show "wf_json (JObj (preview_status build env))" "jdepth (JObj (preview_status build env)) \<le> n"
    unfolding preview_status_def update_all_Cons update_all_Nil
    using assms m by (intro remember_as_wf remember_as_depth; simp add: str_scalar)+
qed

text \<open>The preview never claims to be ready: only /, /healthz and /readyz (with any query) are
  answered, /readyz with 503; the body has the announced length and decodes to the build
  identity with voice disabled and exactly the voice settings that are blank.
\<close>

theorem preview_replies:
  assumes "wf_json (JObj build)" "jdepth (JObj build) \<le> rec_limit py" "2 \<le> rec_limit py"
  shows "case do_GET build env target of
      SendError code \<Rightarrow> code = 404 \<and> fst (partition_at 63 target) \<notin> {str ''/'', str ''/healthz'', str ''/readyz''}
    | PreviewReply code headers body \<Rightarrow>
        code = (if fst (partition_at 63 target) = str ''/readyz'' then 503 else 200)
        \<and> map_of headers (str ''Content-Length'') = Some (show_nat (length body))
        \<and> (\<exists>f. json_loads (plain_opts (repr_float py)) (rec_limit py) (RawBytes body) = Inr (JObj f)
             \<and> f = preview_status build env \<and> get f ''voiceEnabled'' = Some (JBool False)
             \<and> get f ''missingSettings'' = Some (JArr (map JStr (missing_settings env))))"
proof -
  let ?f = "preview_status build env"
  note wf = preview_status_wf [OF assms]
  have ne: "?f \<noteq> []" using preview_status_get(1) [of build env] by (auto simp: get_def)
  have "list_all is_printable (json_dumps default_dump (JObj ?f))"
    using wf by (intro json_wire.enc_printable [of _ "rec_limit py"]) simp
  then have "utf8_bytes (json_dumps default_dump (JObj ?f)) = json_dumps default_dump (JObj ?f)"
    by (intro utf8_bytes_ascii printable_ascii)
  then show ?thesis
    using json_body [OF wf(1) wf(2) ne] preview_status_get by (simp add: do_GET_def Let_def)
qed

lemma preview_replies_witness:
  "\<exists>headers body. do_GET unbuilt (\<lambda>_. None) (str ''/readyz'') = PreviewReply 503 headers body
     \<and> map_of headers (str ''Content-Length'') = Some (show_nat (length body))"
proof -
  have w: "wf_json (JObj unbuilt)" "jdepth (JObj unbuilt) \<le> rec_limit plain_python" "2 \<le> rec_limit plain_python"
    by (simp_all add: unbuilt_def str_scalar plain_python_def)
  have "63 \<notin> set (str ''/readyz'')" by (simp add: str_def)
  then show ?thesis
    using preview_replies [OF w, of "str ''/readyz''" "\<lambda>_. None"]
    by (auto simp: partition_at_absent split: preview_reply.splits)
qed

end
