(* ===== verification/Cli.thy ===== *)
theory Cli
  imports Platform Preview
begin

text \<open>
  cli.py: the settings are applied before anything reads the environment, then the preview
  or the worker is started. \<open>None\<close> is a start-up that never ends (the page loop of
  platform_config.py); what is printed is the result of a step that goes on.
\<close>

definition asks_help :: "pystr list \<Rightarrow> bool" where
  "asks_help argv \<longleftrightarrow> str ''--help'' \<in> set argv \<or> str ''-h'' \<in> set argv"

definition settings_outcome :: "pystr list \<Rightarrow> pystr list result \<Rightarrow> pystr result" where
  "settings_outcome argv r =
     (case r of
        Inr ks \<Rightarrow>
          Inr (str ''[settings] PlatformConfig applied: ''
               @ (if join (str '', '') ks \<noteq> [] then join (str '', '') ks else str ''no rows''))
      | Inl (SettingsUnavailable m) \<Rightarrow>
          if take 1 argv = [str ''preview'']
          then Inr (str ''[settings] PlatformConfig unavailable, reporting the environment as is: '' @ m)
          else Inl (SystemExit (str ''[settings] Cannot start: '' @ m))
      | Inl e \<Rightarrow> Inl e)"

definition apply_platform_config ::
  "python \<Rightarrow> (json \<Rightarrow> pystr) \<Rightarrow> (nat \<Rightarrow> store_request \<Rightarrow> store_reply) \<Rightarrow> pystr list \<Rightarrow> environ
     \<Rightarrow> (environ \<times> pystr result) option"
where
  "apply_platform_config py py_repr serve argv env =
     (if asks_help argv then Some (env, Inr [])
      else map_option (\<lambda>(env', r). (env', settings_outcome argv r)) (apply_settings py py_repr serve env))"

datatype command = PrintVersion | RunPreview "pystr list" | RunWorker

definition time_zone :: "environ \<Rightarrow> environ" where
  "time_zone env =
     (if env_get env (str ''TZ'') [] = [] then env(str ''TZ'' \<mapsto> str ''America/Los_Angeles'') else env)"

definition cli_main ::
  "python \<Rightarrow> (json \<Rightarrow> pystr) \<Rightarrow> (nat \<Rightarrow> store_request \<Rightarrow> store_reply) \<Rightarrow> pystr list \<Rightarrow> environ
     \<Rightarrow> (environ \<times> command result) option"
where
  "cli_main py py_repr serve argv env =
     (let env = time_zone env in
      if argv = [str ''version''] \<or> argv = [str ''--version''] then Some (env, Inr PrintVersion)
      else map_option (\<lambda>(env', r). (env', bind_res r (\<lambda>_.
               Inr (if take 1 argv = [str ''preview''] then RunPreview (drop 1 argv) else RunWorker))))
             (apply_platform_config py py_repr serve argv env))"

section \<open>Properties\<close>

lemma run_worker_settings:
  assumes "cli_main py py_repr serve argv env = Some (env', Inr RunWorker)" "\<not> asks_help argv"
  shows "\<exists>ps. fetch py py_repr serve (time_zone env) = Some (Inr ps)
    \<and> store_applied ps (time_zone env) env'"
proof -
  obtain r where a: "apply_settings py py_repr serve (time_zone env) = Some (env', r)"
    and r: "take 1 argv \<noteq> [str ''preview'']" "\<exists>m. settings_outcome argv r = Inr m"
    using assms
    by (auto simp: cli_main_def apply_platform_config_def Let_def bind_res_eq_Inr split: if_splits)
  obtain ks where r: "r = Inr ks"
    using r by (auto simp: settings_outcome_def split: sum.splits exn.splits)
  with a show ?thesis
    using settings_applied [of py py_repr serve "time_zone env"] by auto
qed

text \<open>The worker only runs with the store's settings: when the worker is started (and no help
  was asked for), the store was read and each key of \<open>SETTING_KEYS\<close> has the store's value
  or none, whatever the environment held before.
\<close>

theorem worker_has_store_settings:
  assumes "cli_main py py_repr serve argv env = Some (env', Inr RunWorker)" "\<not> asks_help argv"
  shows "\<exists>ps. fetch py py_repr serve (time_zone env) = Some (Inr ps)
    \<and> store_applied ps (time_zone env) env'"
  using assms by (rule run_worker_settings)

text \<open>When the store cannot give the settings, the worker does not start and says why, and the
  preview runs on the environment as it is.
\<close>

theorem startup_without_settings:
  assumes "fetch py py_repr serve (time_zone env) = Some (Inl (SettingsUnavailable m))"
    and "\<not> asks_help argv" "argv \<noteq> [str ''version'']" "argv \<noteq> [str ''--version'']"
  shows "cli_main py py_repr serve argv env =
    Some (time_zone env,
      if take 1 argv = [str ''preview''] then Inr (RunPreview (drop 1 argv))
      else Inl (SystemExit (str ''[settings] Cannot start: '' @ m)))"
  using assms
  by (simp add: cli_main_def apply_platform_config_def apply_settings_def settings_outcome_def)

text \<open>Concrete start-ups.\<close>

lemma time_zone_store [simp]:
  "store_base (time_zone env) = store_base env" "store_token (time_zone env) = store_token env"
  by (simp_all add: store_base_def store_token_def env_get_def time_zone_def)

lemma rows_fetched:
  assumes "plain_settings kvs"
  shows "fetch plain_python (\<lambda>_. []) (serve_rows (aida_rows kvs)) (time_zone sample_environ)
    = Some (Inr (setting_pairs kvs))"
proof -
  have "serves_table plain_python (serve_rows (aida_rows kvs)) sample_origin (str ''t'') (str ''x1'') (aida_rows kvs)"
    by (intro rows_served aida_rows_facts assms)
  from fetch_rows_complete [OF this, of 2 0]
  have "fetch_rows plain_python (serve_rows (aida_rows kvs)) sample_origin (str ''t'') (str ''x1'') 2 0 []
      = Some (Inr (aida_rows kvs))"
    by simp
  moreover have "sample_origin \<noteq> []" by (simp add: sample_origin_def)
  ultimately show ?thesis
    by (simp add: fetch_def sample_environ_store sample_table_id aida_rows_resolve [OF assms])
qed

lemma worker_started_on_rows:
  assumes "plain_settings kvs"
  shows "\<exists>env'. cli_main plain_python (\<lambda>_. []) (serve_rows (aida_rows kvs)) [str ''start''] sample_environ
      = Some (env', Inr RunWorker)"
proof -
  obtain env' where "export_all (setting_pairs kvs) (clear_settings (time_zone sample_environ)) = (env', Inr ())"
    using setting_pairs_exported [OF assms] by blast
  then have "apply_settings plain_python (\<lambda>_. []) (serve_rows (aida_rows kvs)) (time_zone sample_environ)
      = Some (env', Inr (sort (map fst (setting_pairs kvs))))"
    by (simp add: apply_settings_def rows_fetched [OF assms] apply_values_def)
  then show ?thesis
    by (simp add: cli_main_def apply_platform_config_def settings_outcome_def asks_help_def)
qed

lemma worker_has_store_settings_witness:
  "\<exists>env' ps. cli_main plain_python (\<lambda>_. []) (serve_rows (aida_rows [(''AIDA_LLM_MODEL'', ''gpt-a'')])) [str ''start'']
       sample_environ = Some (env', Inr RunWorker)
     \<and> fetch plain_python (\<lambda>_. []) (serve_rows (aida_rows [(''AIDA_LLM_MODEL'', ''gpt-a'')])) (time_zone sample_environ)
       = Some (Inr ps)
     \<and> store_applied ps (time_zone sample_environ) env'"
proof -
  have p: "plain_settings [(''AIDA_LLM_MODEL'', ''gpt-a'')]"
    by (simp add: plain_settings_def SETTING_KEYS_def) (simp add: str_def)
  have h: "\<not> asks_help [str ''start'']" by (simp add: asks_help_def)
  from worker_started_on_rows [OF p] worker_has_store_settings [OF _ h] show ?thesis by meson
qed

lemma startup_without_settings_witness:
  "cli_main plain_python (\<lambda>_. []) sample_store [str ''start''] (\<lambda>_. None) =
     Some (time_zone (\<lambda>_. None), Inl (SystemExit (str ''[settings] Cannot start: ''
       @ str ''NOCODB_BASE_URL and NOCODB_API_TOKEN are required'')))"
proof -
  have "fetch plain_python (\<lambda>_. []) sample_store (time_zone (\<lambda>_. None))
      = Some (Inl (SettingsUnavailable (str ''NOCODB_BASE_URL and NOCODB_API_TOKEN are required'')))"
    by (simp add: fetch_def unavailable_def) (simp add: store_base_def env_get_def rstrip_by_def)
  from startup_without_settings [OF this, of "[str ''start'']"] show ?thesis
    by (simp add: asks_help_def)
qed

end
