(* ===== verification/Logstore.thy ===== *)
theory Logstore
  imports Config Dictionary
begin

text \<open>
  logstore.py: the one decision whether LiveKitLogstore is on, and its three users. Whether
  the library can be imported, the path of the temporary file (or the error of making it)
  and the library's own counters are parameters; the file written is part of the result.
\<close>

definition key_json_var :: pystr where "key_json_var = str ''LOGSTORE_KEY_JSON''"
definition key_file_var :: pystr where "key_file_var = str ''LOGSTORE_KEY_FILE''"
definition enabled_var :: pystr where "enabled_var = str ''LOGSTORE_ENABLED''"

text \<open>The environment, the key file with its text, and the decision.\<close>

type_synonym log_decision = "environ \<times> (pystr \<times> pystr) option \<times> bool result"

definition write_key :: "pystr result \<Rightarrow> fields \<Rightarrow> environ \<Rightarrow> log_decision" where
  "write_key temp_path key env =
     (case temp_path of
        Inl e \<Rightarrow> (env, None, Inl e)
      | Inr path \<Rightarrow>
          (env(key_file_var \<mapsto> path, enabled_var \<mapsto> str ''1''),
           Some (path, json_dumps default_dump (JObj key)), Inr True))"

definition configure :: "python \<Rightarrow> bool \<Rightarrow> pystr result \<Rightarrow> environ \<Rightarrow> log_decision" where
  "configure py installed temp_path env =
     (let key_json = strip (env_get env key_json_var []);
          env = env(key_json_var := None, key_file_var := None)
      in if strip (env_get env enabled_var []) \<noteq> str ''1''
         then (env(enabled_var \<mapsto> str ''0''), None, Inr False)
         else
           (let env = env(enabled_var \<mapsto> str ''0'') in
            if \<not> installed then (env, None, Inr False)
            else if key_json = [] then (env, None, Inr False)
            else (case json_loads (plain_opts (repr_float py)) (rec_limit py) (RawStr key_json) of
                    Inl e \<Rightarrow> (env, None, if is_value_error e then Inr False else Inl e)
                  | Inr (JObj key) \<Rightarrow>
                      if get key ''type'' \<noteq> Some (JStr (str ''service_account'')) then (env, None, Inr False)
                      else write_key temp_path key env
                  | Inr _ \<Rightarrow> (env, None, Inr False))))"

definition enabled :: "environ \<Rightarrow> bool" where
  "enabled env \<longleftrightarrow> env enabled_var = Some (str ''1'')"

text \<open>What the library is told: the server once, then each job; \<open>Off\<close> watches nothing.\<close>

datatype log_watch = Off | Watching

definition watch_server :: "environ \<Rightarrow> bool" where
  "watch_server env = enabled env"

definition watch :: "environ \<Rightarrow> log_watch" where
  "watch env = (if \<not> enabled env then Off else Watching)"

definition log_stats :: "fields \<Rightarrow> environ \<Rightarrow> fields" where
  "log_stats counters env =
     (if \<not> enabled env then [(str ''enabled'', JBool False)]
      else update_all [(str ''scope'', JStr (str ''worker_process''))]
             (update_all counters [(str ''enabled'', JBool True)]))"

section \<open>Properties\<close>

lemma log_vars [simp]:
  "key_json_var \<noteq> key_file_var" "key_json_var \<noteq> enabled_var" "key_file_var \<noteq> enabled_var"
  "key_file_var \<noteq> key_json_var" "enabled_var \<noteq> key_json_var" "enabled_var \<noteq> key_file_var"
  by (simp_all add: key_json_var_def key_file_var_def enabled_var_def)

text \<open>The four ways a decision can go.\<close>

lemma configure_cases:
  fixes env :: environ
  defines "cleared \<equiv> env(key_json_var := None, key_file_var := None, enabled_var \<mapsto> str ''0'')"
  shows "configure py installed temp_path env = (cleared, None, Inr False)
    \<or> configure py installed temp_path env = (cleared, None, Inl RecursionError)
    \<or> (\<exists>e. temp_path = Inl e \<and> configure py installed temp_path env = (cleared, None, Inl e))
    \<or> (\<exists>path key. temp_path = Inr path \<and> get key ''type'' = Some (JStr (str ''service_account''))
        \<and> json_loads (plain_opts (repr_float py)) (rec_limit py) (RawStr (strip (env_get env key_json_var [])))
          = Inr (JObj key)
        \<and> strip (env_get env enabled_var []) = str ''1'' \<and> installed
        \<and> configure py installed temp_path env
          = (cleared(key_file_var \<mapsto> path, enabled_var \<mapsto> str ''1''),
             Some (path, json_dumps default_dump (JObj key)), Inr True))"
proof -
  let ?r = "json_loads (plain_opts (repr_float py)) (rec_limit py) (RawStr (strip (env_get env key_json_var [])))"
  have env: "env_get (env(key_json_var := None, key_file_var := None)) enabled_var [] = env_get env enabled_var []"
    by (simp add: env_get_def)
  consider "strip (env_get env enabled_var []) \<noteq> str ''1'' \<or> \<not> installed \<or> strip (env_get env key_json_var []) = []"
    | (bad) e where "strip (env_get env enabled_var []) = str ''1''" "installed" "strip (env_get env key_json_var []) \<noteq> []"
        "?r = Inl e"
    | (loaded) v where "strip (env_get env enabled_var []) = str ''1''" "installed" "strip (env_get env key_json_var []) \<noteq> []"
        "?r = Inr v"
    by (cases ?r) auto
  then show ?thesis
  proof cases
    case 1
    then have "configure py installed temp_path env = (cleared, None, Inr False)"
      unfolding configure_def Let_def env cleared_def by auto
    then show ?thesis by blast
  next
    case (bad e)
    then have "configure py installed temp_path env = (cleared, None, if is_value_error e then Inr False else Inl e)"
      unfolding configure_def Let_def env cleared_def by simp
    with json_loads_error [OF bad(4)] show ?thesis by auto
  next
    case (loaded v)
    show ?thesis
    proof (cases "\<exists>key. v = JObj key \<and> get key ''type'' = Some (JStr (str ''service_account''))")
      case False
      with loaded have "configure py installed temp_path env = (cleared, None, Inr False)"
        unfolding configure_def Let_def env cleared_def by (auto split: json.split)
      then show ?thesis by blast
    next
      case True
      then obtain key where "v = JObj key" "get key ''type'' = Some (JStr (str ''service_account''))" by blast
      with loaded show ?thesis
        unfolding configure_def Let_def env cleared_def
        by (cases temp_path) (simp_all add: write_key_def)
    qed
  qed
qed

text \<open>C38.
  The log store fails closed: whatever happens, the key's JSON leaves the environment, only
  the three variables change, and logging is on exactly when the decision is True, which
  takes the setting, the library and a written service-account key whose path is all that
  stays. An error (of the temporary file, or a RecursionError on a deeply nested key, which
  is not a ValueError) leaves it off, but does leave \<open>configure\<close>.
\<close>

theorem logstore_fails_closed:
  "case configure py installed temp_path env of (env', key_file, decision) \<Rightarrow>
     env' key_json_var = None
     \<and> (\<forall>k. k \<in> {key_json_var, key_file_var, enabled_var} \<or> env' k = env k)
     \<and> (enabled env' \<longleftrightarrow> decision = Inr True)
     \<and> env' key_file_var = map_option fst key_file
     \<and> (case key_file of
          None \<Rightarrow> decision = Inr False \<or> decision = Inl RecursionError
            \<or> (\<exists>e. temp_path = Inl e \<and> decision = Inl e)
        | Some (path, body) \<Rightarrow> decision = Inr True \<and> temp_path = Inr path \<and> installed
            \<and> strip (env_get env enabled_var []) = str ''1''
            \<and> (\<exists>key. json_loads (plain_opts (repr_float py)) (rec_limit py)
                   (RawStr (strip (env_get env key_json_var []))) = Inr (JObj key)
                 \<and> get key ''type'' = Some (JStr (str ''service_account''))
                 \<and> body = json_dumps default_dump (JObj key)))"
  using configure_cases [of py installed temp_path env]
  by (elim disjE exE conjE) (simp_all add: enabled_def)

end
