(* ===== verification/Status.thy ===== *)
theory Status
  imports Preview Logstore
begin

text \<open>
  status.py and monitored_server.py: the worker's counters and connection state, what the
  status service answers, and the server whose life cycle drives them. The SDK is the
  environment: its coroutines start, hand over a registered socket, and end, in any order
  their nesting allows.
\<close>

section \<open>The status\<close>

datatype connection_state =
    IsStarting | IsConnecting | IsConnected | IsReconnecting | IsStopping | IsStopped | HasFailed

fun state_name :: "connection_state \<Rightarrow> pystr" where
  "state_name IsStarting = str ''starting''"
| "state_name IsConnecting = str ''connecting''"
| "state_name IsConnected = str ''connected''"
| "state_name IsReconnecting = str ''reconnecting''"
| "state_name IsStopping = str ''stopping''"
| "state_name IsStopped = str ''stopped''"
| "state_name HasFailed = str ''failed''"

datatype job_state = JobRunning | JobSuccess | JobFailed

record worker_status =
  ws_state :: connection_state
  ws_socket :: "nat option"
  ws_connections :: int
  ws_started :: int
  ws_active :: int
  ws_processed :: int
  ws_failed :: int
  ws_jobs :: "(nat \<times> job_state) list"

definition new_status :: worker_status where
  "new_status =
     \<lparr>ws_state = IsStarting, ws_socket = None, ws_connections = 0, ws_started = 0, ws_active = 0,
      ws_processed = 0, ws_failed = 0, ws_jobs = []\<rparr>"

definition connected :: "nat \<Rightarrow> worker_status \<Rightarrow> worker_status" where
  "connected socket s =
     s\<lparr>ws_socket := Some socket, ws_state := IsConnected, ws_connections := ws_connections s + 1\<rparr>"

definition disconnected :: "worker_status \<Rightarrow> worker_status" where
  "disconnected s =
     (let s = s\<lparr>ws_socket := None\<rparr> in
      if ws_state s \<notin> {IsStopping, IsStopped, HasFailed}
      then s\<lparr>ws_state := if ws_connections s \<noteq> 0 then IsReconnecting else IsConnecting\<rparr> else s)"

definition observe_job :: "nat \<Rightarrow> job_state \<Rightarrow> worker_status \<Rightarrow> worker_status" where
  "observe_job executor state s =
     (let s = (if lookup executor (ws_jobs s) = None
               then s\<lparr>ws_jobs := remember_as executor JobRunning (ws_jobs s),
                      ws_started := ws_started s + 1, ws_active := ws_active s + 1\<rparr>
               else s)
      in if lookup executor (ws_jobs s) = Some JobRunning \<and> state \<noteq> JobRunning
         then s\<lparr>ws_jobs := remember_as executor state (ws_jobs s), ws_active := ws_active s - 1,
                ws_processed := ws_processed s + 1,
                ws_failed := ws_failed s + (if state = JobFailed then 1 else 0)\<rparr>
         else s)"

text \<open>
  What one snapshot reads beside the counters: the build identity, when the process started
  and how many seconds ago, which sockets are closed, whether the server drains, the log
  store's counters.
\<close>

record surroundings =
  sur_build :: fields
  sur_started_at :: pystr
  sur_uptime :: int
  sur_closed :: "nat \<Rightarrow> bool"
  sur_draining :: bool
  sur_logstore :: fields

definition is_connected :: "surroundings \<Rightarrow> worker_status \<Rightarrow> bool" where
  "is_connected r s = (case ws_socket s of None \<Rightarrow> False | Some w \<Rightarrow> \<not> sur_closed r w)"

definition shown_state :: "surroundings \<Rightarrow> worker_status \<Rightarrow> connection_state" where
  "shown_state r s =
     (if ws_state s = IsConnected \<and> \<not> is_connected r s then IsReconnecting else ws_state s)"

definition sessions_json :: "worker_status \<Rightarrow> json" where
  "sessions_json s =
     JObj [(str ''started'', JInt (ws_started s)), (str ''active'', JInt (ws_active s)),
       (str ''processed'', JInt (ws_processed s)), (str ''completed'', JInt (ws_processed s - ws_failed s)),
       (str ''failed'', JInt (ws_failed s)), (str ''scope'', JStr (str ''since_process_start''))]"

definition status_snapshot :: "surroundings \<Rightarrow> worker_status \<Rightarrow> fields" where
  "status_snapshot r s =
     update_all
       [(str ''mode'', JStr (str ''worker'')), (str ''startedAt'', JStr (sur_started_at r)),
        (str ''uptimeSeconds'', JInt (sur_uptime r)), (str ''draining'', JBool (sur_draining r)),
        (str ''connection'', JObj [(str ''state'', JStr (state_name (shown_state r s))),
           (str ''connected'', JBool (is_connected r s)), (str ''connections'', JInt (ws_connections s))]),
        (str ''sessions'', sessions_json s), (str ''logstore'', JObj (sur_logstore r))] (sur_build r)"

section \<open>The status service\<close>

definition health :: "surroundings \<Rightarrow> worker_status \<Rightarrow> nat \<times> fields" where
  "health r s = (200, update_all (status_snapshot r s) [(str ''status'', JStr (str ''ok''))])"

definition is_ready :: "surroundings \<Rightarrow> bool \<Rightarrow> worker_status \<Rightarrow> bool" where
  "is_ready r sdk_healthy s \<longleftrightarrow>
     is_connected r s \<and> \<not> sur_draining r \<and> ws_state s = IsConnected \<and> sdk_healthy"

definition ready :: "surroundings \<Rightarrow> bool \<Rightarrow> worker_status \<Rightarrow> nat \<times> fields" where
  "ready r sdk_healthy s =
     (if is_ready r sdk_healthy s then 200 else 503,
      update_all (status_snapshot r s)
        [(str ''status'', JStr (if is_ready r sdk_healthy s then str ''ready'' else str ''not_ready'')),
         (str ''ready'', JBool (is_ready r sdk_healthy s)), (str ''sdkHealthy'', JBool sdk_healthy)])"

section \<open>The server\<close>

text \<open>Where the SDK's connection coroutine is.\<close>

datatype connection_phase = NotConnecting | Registering | Serving nat

record server =
  sv_status :: worker_status
  sv_phase :: connection_phase
  sv_client :: bool

definition new_server :: "pystr \<Rightarrow> server result" where
  "new_server sdk_version =
     (if sdk_version \<noteq> str ''1.8.0'' then Inl RuntimeError
      else Inr \<lparr>sv_status = new_status, sv_phase = NotConnecting, sv_client = False\<rparr>)"

text \<open>The SDK's own health: its port, and the status its endpoint answered, if it did.\<close>

definition sdk_health :: "nat option \<Rightarrow> nat option \<Rightarrow> server \<Rightarrow> bool" where
  "sdk_health port answer s \<longleftrightarrow>
     port \<noteq> None \<and> port \<noteq> Some 0 \<and> sv_client s \<and> answer = Some 200"

definition on_status :: "(worker_status \<Rightarrow> worker_status) \<Rightarrow> server \<Rightarrow> server" where
  "on_status f s = s\<lparr>sv_status := f (sv_status s)\<rparr>"

definition set_state :: "connection_state \<Rightarrow> worker_status \<Rightarrow> worker_status" where
  "set_state c s = s\<lparr>ws_state := c\<rparr>"

definition run_started :: "server \<Rightarrow> server" where
  "run_started s = s\<lparr>sv_client := True\<rparr>"

definition run_ended :: "server \<Rightarrow> server" where
  "run_ended s = on_status (\<lambda>w. w\<lparr>ws_state := IsStopped, ws_socket := None\<rparr>) s"

definition close_server :: "server \<Rightarrow> server" where
  "close_server s = on_status (\<lambda>w. w\<lparr>ws_state := IsStopping, ws_socket := None\<rparr>) s"

definition connection_started :: "server \<Rightarrow> server" where
  "connection_started s =
     (if sv_phase s \<noteq> NotConnecting then s
      else (on_status (set_state IsConnecting) s)\<lparr>sv_phase := Registering\<rparr>)"

text \<open>\<open>_run_ws\<close>: entered after a registration, left by the socket's end.\<close>

definition registered :: "nat \<Rightarrow> server \<Rightarrow> server" where
  "registered socket s =
     (if sv_phase s \<noteq> Registering then s
      else (on_status (connected socket) s)\<lparr>sv_phase := Serving socket\<rparr>)"

definition socket_ended :: "server \<Rightarrow> server" where
  "socket_ended s =
     (case sv_phase s of
        Serving w \<Rightarrow> (on_status disconnected s)\<lparr>sv_phase := Registering\<rparr>
      | _ \<Rightarrow> s)"

text \<open>The end of \<open>_connection_task\<close>, by an exception or not, out of \<open>_run_ws\<close> if it is in.\<close>

definition connection_ended :: "bool \<Rightarrow> server \<Rightarrow> server" where
  "connection_ended raised s =
     (let s = socket_ended s in
      if sv_phase s = NotConnecting then s
      else (on_status (\<lambda>w. disconnected (if raised then set_state HasFailed w else w)) s)
             \<lparr>sv_phase := NotConnecting\<rparr>)"

definition update_job_status :: "bool \<Rightarrow> nat \<Rightarrow> job_state option \<Rightarrow> server \<Rightarrow> server" where
  "update_job_status has_job executor state s =
     (case state of
        None \<Rightarrow> s
      | Some st \<Rightarrow> if has_job then on_status (observe_job executor st) s else s)"

text \<open>An executor that nothing refers to any more leaves the weak dictionary.\<close>

definition executor_dropped :: "nat \<Rightarrow> server \<Rightarrow> server" where
  "executor_dropped executor s = on_status (\<lambda>w. w\<lparr>ws_jobs := forget executor (ws_jobs w)\<rparr>) s"

datatype server_event =
    RunStarted
  | RunEnded
  | CloseServer
  | ConnectionStarted
  | Registered nat
  | SocketEnded
  | ConnectionEnded bool
  | JobUpdate bool nat "job_state option"
  | ExecutorDropped nat

fun server_step :: "server \<Rightarrow> server_event \<Rightarrow> server" where
  "server_step s RunStarted = run_started s"
| "server_step s RunEnded = run_ended s"
| "server_step s CloseServer = close_server s"
| "server_step s ConnectionStarted = connection_started s"
| "server_step s (Registered socket) = registered socket s"
| "server_step s SocketEnded = socket_ended s"
| "server_step s (ConnectionEnded raised) = connection_ended raised s"
| "server_step s (JobUpdate has_job executor state) = update_job_status has_job executor state s"
| "server_step s (ExecutorDropped executor) = executor_dropped executor s"

section \<open>Invariants\<close>

definition running_jobs :: "worker_status \<Rightarrow> nat" where
  "running_jobs s = length (filter (\<lambda>(k, st). st = JobRunning) (ws_jobs s))"

definition counts_inv :: "worker_status \<Rightarrow> bool" where
  "counts_inv s \<longleftrightarrow>
     ws_started s = ws_active s + ws_processed s \<and> 0 \<le> ws_failed s \<and> ws_failed s \<le> ws_processed s
     \<and> int (running_jobs s) \<le> ws_active s \<and> distinct (map fst (ws_jobs s)) \<and> 0 \<le> ws_connections s"

definition socket_inv :: "server \<Rightarrow> bool" where
  "socket_inv s \<longleftrightarrow>
     (case ws_socket (sv_status s) of
        None \<Rightarrow> ws_state (sv_status s) \<noteq> IsConnected
      | Some w \<Rightarrow> ws_state (sv_status s) = IsConnected \<and> sv_phase s = Serving w)"

definition server_inv :: "server \<Rightarrow> bool" where
  "server_inv s \<longleftrightarrow> counts_inv (sv_status s) \<and> socket_inv s"

lemma remember_running:
  "length (filter (\<lambda>(k, st). st = JobRunning) (remember_as e v d))
     + (if lookup e d = Some JobRunning then 1 else 0)
   = length (filter (\<lambda>(k, st). st = JobRunning) d) + (if v = JobRunning then 1 else 0)"
  by (induction d) (auto simp: lookup_def)

lemma observe_counts_inv: "counts_inv s \<Longrightarrow> counts_inv (observe_job e st s)"
proof -
  assume inv: "counts_inv s"
  show ?thesis
  proof (cases "lookup e (ws_jobs s) = None")
    case True
    let ?d = "remember_as e JobRunning (ws_jobs s)"
    show ?thesis
      using inv True remember_running [of e JobRunning "ws_jobs s"] remember_running [of e st ?d]
      by (auto simp: observe_job_def counts_inv_def running_jobs_def remember_as_distinct Let_def)
  next
    case False
    then show ?thesis
      using inv remember_running [of e st "ws_jobs s"]
      by (auto simp: observe_job_def counts_inv_def running_jobs_def remember_as_distinct Let_def)
  qed
qed

lemma forget_counts_inv: "counts_inv w \<Longrightarrow> counts_inv (w\<lparr>ws_jobs := forget e (ws_jobs w)\<rparr>)"
proof -
  assume inv: "counts_inv w"
  have "length (filter (\<lambda>(k, st). st = JobRunning) (forget e d)) \<le> length (filter (\<lambda>(k, st). st = JobRunning) d)"
    for d :: "(nat \<times> job_state) list"
    by (induction d) (auto simp: forget_def)
  from this [of "ws_jobs w"] inv show ?thesis
    by (auto simp: counts_inv_def running_jobs_def forget_distinct)
qed

lemma status_counts_inv:
  "counts_inv w \<Longrightarrow> counts_inv (connected k w)" "counts_inv w \<Longrightarrow> counts_inv (disconnected w)"
  "counts_inv w \<Longrightarrow> counts_inv (set_state c w)"
  "counts_inv (w\<lparr>ws_state := c, ws_socket := x\<rparr>) = counts_inv w"
  by (auto simp: counts_inv_def running_jobs_def connected_def disconnected_def set_state_def Let_def)

lemma server_step_counts: "counts_inv (sv_status s) \<Longrightarrow> counts_inv (sv_status (server_step s e))"
  by (cases e)
     (auto simp: run_started_def run_ended_def close_server_def connection_started_def registered_def
       socket_ended_def connection_ended_def update_job_status_def executor_dropped_def on_status_def
       status_counts_inv observe_counts_inv forget_counts_inv Let_def split: connection_phase.split option.split)

lemma observe_job_frame [simp]:
  "ws_socket (observe_job e st s) = ws_socket s" "ws_state (observe_job e st s) = ws_state s"
  by (simp_all add: observe_job_def Let_def)

lemma disconnected_socket [simp]:
  "ws_socket (disconnected s) = None" "ws_state (disconnected s) \<noteq> IsConnected"
  by (simp_all add: disconnected_def Let_def)

lemma server_step_socket: "socket_inv s \<Longrightarrow> socket_inv (server_step s e)"
  by (cases e)
     (auto simp: socket_inv_def run_started_def run_ended_def close_server_def connection_started_def registered_def
       socket_ended_def connection_ended_def update_job_status_def executor_dropped_def on_status_def
       connected_def set_state_def Let_def split: connection_phase.splits option.splits)

lemma new_server_inv: "new_server v = Inr s \<Longrightarrow> server_inv s"
  by (auto simp: new_server_def server_inv_def counts_inv_def socket_inv_def new_status_def running_jobs_def
      split: if_splits)

interpretation monitor: event_machine server_step server_inv
  by unfold_locales (simp add: server_inv_def server_step_counts server_step_socket)

text \<open>Having no socket lasts until the next registration.\<close>

lemma no_socket_step:
  "server_inv s \<Longrightarrow> ws_socket (sv_status s) = None \<Longrightarrow> (\<forall>w. Registered w \<noteq> e) \<Longrightarrow>
     ws_socket (sv_status (server_step s e)) = None"
  by (cases e)
     (auto simp: run_started_def run_ended_def close_server_def connection_started_def
       socket_ended_def connection_ended_def update_job_status_def executor_dropped_def on_status_def
       set_state_def Let_def split: connection_phase.split option.split)

section \<open>Properties\<close>

text \<open>The session counters add up at every moment, executors dropped or reported again
  included: started is active plus processed, failed is at most processed (so completed is
  not negative), and every executor that still runs is counted as active.
\<close>

theorem session_counts:
  assumes "new_server version = Inr s"
  shows "ws_started (sv_status (run server_step s es))
      = ws_active (sv_status (run server_step s es)) + ws_processed (sv_status (run server_step s es))
    \<and> 0 \<le> ws_failed (sv_status (run server_step s es))
    \<and> ws_failed (sv_status (run server_step s es)) \<le> ws_processed (sv_status (run server_step s es))
    \<and> int (running_jobs (sv_status (run server_step s es))) \<le> ws_active (sv_status (run server_step s es))"
  using monitor.run_inv [OF new_server_inv [OF assms], of es]
  unfolding server_inv_def counts_inv_def by blast

lemma session_counts_witness:
  "\<exists>s. new_server (str ''1.8.0'') = Inr s
     \<and> ws_started (sv_status (run server_step s [JobUpdate True 1 (Some JobFailed)]))
       = ws_active (sv_status (run server_step s [JobUpdate True 1 (Some JobFailed)]))
         + ws_processed (sv_status (run server_step s [JobUpdate True 1 (Some JobFailed)]))"
proof -
  obtain s where s: "new_server (str ''1.8.0'') = Inr s" by (simp add: new_server_def)
  from session_counts [OF this, of "[JobUpdate True 1 (Some JobFailed)]"] s show ?thesis by blast
qed

text \<open>C39.
  /readyz answers 200 exactly when the worker can take calls: the connection coroutine is
  serving a registered socket that is open and has not been closed by the server, the
  server does not drain and the SDK's own endpoint is healthy; otherwise 503. The state it
  reports is \<open>connected\<close> exactly when such a socket is there.
\<close>

theorem ready_exact:
  assumes "new_server version = Inr s0" "s = run server_step s0 es"
  shows "(fst (ready r (sdk_health port answer s) (sv_status s)) = 200 \<longleftrightarrow>
      (\<exists>w. sv_phase s = Serving w \<and> ws_socket (sv_status s) = Some w \<and> \<not> sur_closed r w)
      \<and> \<not> sur_draining r \<and> sdk_health port answer s)
    \<and> fst (ready r (sdk_health port answer s) (sv_status s)) \<in> {200, 503}
    \<and> (shown_state r (sv_status s) = IsConnected \<longleftrightarrow> is_connected r (sv_status s))"
proof -
  have "socket_inv s"
    using monitor.run_inv [OF new_server_inv [OF assms(1)], of es] assms(2) by (simp add: server_inv_def)
  then show ?thesis
    by (auto simp: ready_def is_ready_def is_connected_def shown_state_def socket_inv_def split: option.splits)
qed

definition sample_surroundings :: surroundings where
  "sample_surroundings = \<lparr>sur_build = unbuilt, sur_started_at = str ''now'', sur_uptime = 1,
     sur_closed = (\<lambda>_. False), sur_draining = False, sur_logstore = []\<rparr>"

lemma ready_exact_witness:
  "\<exists>s0 s. new_server (str ''1.8.0'') = Inr s0
     \<and> s = run server_step s0 [RunStarted, ConnectionStarted, Registered 7]
     \<and> fst (ready sample_surroundings (sdk_health (Some 8081) (Some 200) s) (sv_status s)) = 200"
proof -
  obtain s0 where s0: "new_server (str ''1.8.0'') = Inr s0" by (simp add: new_server_def)
  let ?s = "run server_step s0 [RunStarted, ConnectionStarted, Registered 7]"
  have "sv_phase ?s = Serving 7" "ws_socket (sv_status ?s) = Some 7" "sdk_health (Some 8081) (Some 200) ?s"
    using s0 by (auto simp: new_server_def run_started_def connection_started_def registered_def on_status_def
        connected_def set_state_def sdk_health_def)
  with ready_exact [OF s0 refl, where es = "[RunStarted, ConnectionStarted, Registered 7]"
      and r = sample_surroundings and port = "Some 8081" and answer = "Some 200"] s0
  show ?thesis by (auto simp: sample_surroundings_def)
qed

text \<open>Once the server is closing, it is not ready again: after \<open>aclose\<close> no event but a new
  registration handshake makes /readyz answer 200, whatever the sockets and the SDK report.
\<close>

theorem not_ready_after_close:
  assumes "new_server version = Inr s" "\<forall>w. Registered w \<notin> set es'"
  shows "fst (ready r healthy (sv_status (run server_step s (es @ CloseServer # es')))) = 503"
proof -
  have "server_inv t \<Longrightarrow> ws_socket (sv_status t) = None \<Longrightarrow> \<forall>w. Registered w \<notin> set es' \<Longrightarrow>
      ws_socket (sv_status (run server_step t es')) = None" for t
    by (induction es' arbitrary: t) (simp_all add: no_socket_step monitor.step_inv)
  moreover have "server_inv (run server_step s (es @ [CloseServer]))"
    using monitor.run_inv [OF new_server_inv [OF assms(1)]] .
  moreover have "ws_socket (sv_status (run server_step s (es @ [CloseServer]))) = None"
    by (simp add: run_append close_server_def on_status_def)
  ultimately have "ws_socket (sv_status (run server_step (run server_step s (es @ [CloseServer])) es')) = None"
    using assms(2) by blast
  then show ?thesis
    by (simp add: run_append ready_def is_ready_def is_connected_def)
qed

lemma not_ready_after_close_witness:
  "\<exists>s. new_server (str ''1.8.0'') = Inr s
     \<and> fst (ready sample_surroundings True (sv_status (run server_step s
          ([RunStarted, ConnectionStarted, Registered 7] @ CloseServer # [SocketEnded])))) = 503"
proof -
  obtain s where s: "new_server (str ''1.8.0'') = Inr s" by (simp add: new_server_def)
  from not_ready_after_close [OF this, of "[SocketEnded]" sample_surroundings True
      "[RunStarted, ConnectionStarted, Registered 7]"] s
  show ?thesis by auto
qed

end
