(* ===== verification/Worker.thy ===== *)
theory Worker
  imports Job_Properties Cli Status
begin

text \<open>
  worker.py, \<open>main\<close> and \<open>make_server\<close>: what the worker checks before it registers, in which
  order and with which errors, and the server it makes. The SDK's command line is the
  environment; its version and \<open>int\<close> on text with non-ASCII characters are parameters.
\<close>

section \<open>\<open>int\<close>\<close>

text \<open>Digits with single underscores between them, without the underscores.\<close>

fun plain_digits :: "pystr \<Rightarrow> pystr option" where
  "plain_digits [] = None"
| "plain_digits [d] = (if is_digit d then Some [d] else None)"
| "plain_digits (d # e # t) =
     (if \<not> is_digit d then None
      else map_option ((#) d) (if e = 95 then plain_digits t else plain_digits (e # t)))"

definition is_c_space :: "nat \<Rightarrow> bool" where
  "is_c_space c \<longleftrightarrow> 9 \<le> c \<and> c \<le> 13 \<or> c = 32"

definition signed_digits :: "pystr \<Rightarrow> int option" where
  "signed_digits s =
     (let magnitude = (\<lambda>t. case plain_digits t of
            None \<Rightarrow> None
          | Some ds \<Rightarrow> if max_int_digits < length ds then None else Some (int (digits_value ds)))
      in case s of
           [] \<Rightarrow> None
         | c # t \<Rightarrow>
             if c = 45 then map_option uminus (magnitude t)
             else if c = 43 then magnitude t else magnitude s)"

definition int_of :: "(pystr \<Rightarrow> int option) \<Rightarrow> pystr \<Rightarrow> int option" where
  "int_of other s = (if is_ascii s then signed_digits (strip_by is_c_space s) else other s)"

section \<open>The server\<close>

text \<open>What a job process is given before its jobs: the voice activity detector of the wheel.\<close>

definition prewarm :: "'vad \<Rightarrow> (string \<rightharpoonup> 'vad) \<Rightarrow> (string \<rightharpoonup> 'vad)" where
  "prewarm vad userdata = userdata(''vad'' \<mapsto> vad)"

record worker_server =
  sw_agent_name :: pystr
  sw_host :: pystr
  sw_port :: int
  sw_server :: server
  sw_logged :: bool

definition status_port :: "(pystr \<Rightarrow> int option) \<Rightarrow> environ \<Rightarrow> int result" where
  "status_port other env =
     (case int_of other (env_get env (str ''AIDA_STATUS_PORT'') (str ''8082'')) of
        Some n \<Rightarrow>
          if \<not> (1 \<le> n \<and> n \<le> 65535) \<or> n = 8081
          then invalid ''AIDA_STATUS_PORT must be 1-65535 and differ from SDK port 8081'' else Inr n
      | None \<Rightarrow> invalid ''AIDA_STATUS_PORT must be 1-65535 and differ from SDK port 8081'')"

definition make_server :: "(pystr \<Rightarrow> int option) \<Rightarrow> pystr \<Rightarrow> environ \<Rightarrow> worker_server result" where
  "make_server other sdk_version env =
     (let agent_name = env_get env (str ''LIVEKIT_AGENT_NAME'') (str ''aida-prime'') in
      if \<not> fullmatch is_token_char 1 64 agent_name then invalid ''invalid LIVEKIT_AGENT_NAME''
      else bind_res (status_port other env) (\<lambda>port.
           bind_res (new_server sdk_version) (\<lambda>server.
             Inr \<lparr>sw_agent_name = agent_name,
                  sw_host = env_get env (str ''AIDA_STATUS_HOST'') (str ''0.0.0.0''), sw_port = port,
                  sw_server = server, sw_logged = watch_server env\<rparr>)))"

section \<open>The main program\<close>

text \<open>\<open>argv\<close> is \<open>sys.argv\<close>, the program's name first.\<close>

definition starts_worker :: "pystr list \<Rightarrow> bool" where
  "starts_worker argv \<longleftrightarrow>
     (\<exists>a \<in> set (drop 1 argv). a = str ''start'' \<or> a = str ''dev'') \<and> str ''--help'' \<notin> set argv"

definition livekit_keys :: "string list" where
  "livekit_keys = [''LIVEKIT_URL'', ''LIVEKIT_API_KEY'', ''LIVEKIT_API_SECRET'']"

text \<open>The first required row that is blank.\<close>

fun require_keys :: "environ \<Rightarrow> string list \<Rightarrow> unit result" where
  "require_keys env [] = Inr ()"
| "require_keys env (k # ks) =
     (if strip (env_get env (str k) []) = []
      then Inl (SystemExit (str (''deployment setting '' @ k @ '' is required (PlatformConfig app=aida)'')))
      else require_keys env ks)"

definition exit_on_invalid :: "'a result \<Rightarrow> 'a result" where
  "exit_on_invalid r = (case r of Inl (InvalidConfiguration m) \<Rightarrow> Inl (SystemExit (str m)) | _ \<Rightarrow> r)"

definition check_settings :: "python \<Rightarrow> environ \<Rightarrow> unit result" where
  "check_settings py env =
     bind_res (exit_on_invalid (bind_res (deployment_from_env env) (\<lambda>d.
               bind_res (bootstrap_from_env py env) (\<lambda>b. Inr ())))) (\<lambda>u.
     require_keys env livekit_keys)"

text \<open>The environment, the key file written, and the server handed to the SDK or the exception.\<close>

definition worker_main ::
  "python \<Rightarrow> (pystr \<Rightarrow> int option) \<Rightarrow> pystr \<Rightarrow> bool \<Rightarrow> pystr result \<Rightarrow> pystr list \<Rightarrow> environ
     \<Rightarrow> environ \<times> (pystr \<times> pystr) option \<times> worker_server result"
where
  "worker_main py other sdk_version installed temp_path argv env =
     (if \<not> starts_worker argv then (env, None, make_server other sdk_version env)
      else (case check_settings py env of
              Inl e \<Rightarrow> (env, None, Inl e)
            | Inr u \<Rightarrow>
                (case configure py installed temp_path env of
                   (env, key_file, Inl e) \<Rightarrow> (env, key_file, Inl e)
                 | (env, key_file, Inr on) \<Rightarrow> (env, key_file, make_server other sdk_version env))))"

section \<open>Facts\<close>

lemma require_keys_iff: "require_keys env ks = Inr () \<longleftrightarrow> (\<forall>k \<in> set ks. strip (env_get env (str k) []) \<noteq> [])"
  by (induction ks) auto

lemma exit_on_invalid_Inr [simp]: "exit_on_invalid r = Inr x \<longleftrightarrow> r = Inr x"
  by (auto simp: exit_on_invalid_def split: sum.split exn.split)

definition settings_ok :: "python \<Rightarrow> environ \<Rightarrow> bool" where
  "settings_ok py env \<longleftrightarrow>
     (\<exists>d. deployment_from_env env = Inr d) \<and> (\<exists>b. bootstrap_from_env py env = Inr b)
     \<and> (\<forall>k \<in> set livekit_keys. strip (env_get env (str k) []) \<noteq> [])"

lemma check_settings_iff: "check_settings py env = Inr () \<longleftrightarrow> settings_ok py env"
  by (auto simp: check_settings_def bind_res_eq_Inr require_keys_iff settings_ok_def)

lemma require_keys_error: "require_keys env ks = Inl e \<Longrightarrow> \<exists>m. e = SystemExit m"
  by (induction ks) (auto split: if_splits)

lemma check_settings_error:
  assumes "check_settings py env = Inl e"
  shows "\<exists>m. e = SystemExit m"
proof -
  let ?r = "bind_res (deployment_from_env env) (\<lambda>d. bind_res (bootstrap_from_env py env) (\<lambda>b. Inr ()))"
  have "only_invalid ?r"
    by (intro only_invalid_bind) (simp_all add: deployment_from_env_only bootstrap_from_env_only)
  then have x: "?r = Inl f \<Longrightarrow> is_invalid_configuration f" for f by (auto simp: only_invalid_def)
  show ?thesis
  proof (cases ?r)
    case (Inl f)
    then obtain m where "f = InvalidConfiguration m" using x by (cases f) auto
    with Inl assms show ?thesis by (auto simp: check_settings_def exit_on_invalid_def)
  next
    case (Inr u)
    then have "require_keys env livekit_keys = Inl e"
      using assms by (simp add: check_settings_def exit_on_invalid_def)
    then show ?thesis by (rule require_keys_error)
  qed
qed

text \<open>The log store's three variables are read by no configuration.\<close>

lemma configure_same:
  assumes "configure py installed temp_path env = (env', key_file, r)"
    and "k \<notin> {key_json_var, key_file_var, enabled_var}"
  shows "env' k = env k"
proof -
  have "fst (configure py installed temp_path env) k = env k"
    using configure_cases [of py installed temp_path env] assms(2)
    by (elim disjE exE conjE) simp_all
  with assms(1) show ?thesis by simp
qed

lemma make_server_InrD:
  assumes "make_server other sdk_version env = Inr s"
  shows "fullmatch is_token_char 1 64 (sw_agent_name s)" "1 \<le> sw_port s" "sw_port s \<le> 65535" "sw_port s \<noteq> 8081"
    "sdk_version = str ''1.8.0''" "sw_logged s = enabled env" "sw_server s = \<lparr>sv_status = new_status, sv_phase = NotConnecting, sv_client = False\<rparr>"
  using assms
  by (auto simp: make_server_def status_port_def new_server_def watch_server_def bind_res_eq_Inr Let_def
      split: if_splits option.splits)

lemma plain_digits_digits: "ds \<noteq> [] \<Longrightarrow> list_all is_digit ds \<Longrightarrow> plain_digits ds = Some ds"
  by (induction ds rule: plain_digits.induct) (auto simp: is_digit_def)

lemma worker_main_started:
  assumes "worker_main py other sdk_version installed temp_path argv env = (env', key_file, Inr s)" "starts_worker argv"
  shows "settings_ok py env" "\<exists>on. configure py installed temp_path env = (env', key_file, Inr on)"
    "make_server other sdk_version env' = Inr s"
  using assms check_settings_iff [of py env]
  by (auto simp: worker_main_def split: sum.splits prod.splits)

lemma int_of_show_nat: "n \<le> 65535 \<Longrightarrow> int_of other (show_nat n) = Some (int n)"
proof -
  assume n: "n \<le> 65535"
  let ?s = "show_nat n"
  have d: "list_all is_digit ?s" "?s \<noteq> []" by (simp_all add: show_nat_digits)
  have nd: "dropWhile is_c_space t = t" if "list_all is_digit t" for t
    using that by (cases t) (auto simp: is_digit_def is_c_space_def)
  have "is_ascii ?s" using d(1) by (auto simp: is_ascii_def list_all_iff is_digit_def)
  moreover have "strip_by is_c_space ?s = ?s"
    using nd [OF d(1)] nd [of "rev ?s"] d(1) by (simp add: strip_by_def lstrip_by_def rstrip_by_def list_all_rev)
  moreover have "length ?s \<le> 5"
  proof -
    have "n < 10 ^ 5" using n by simp
    then show ?thesis by (intro length_show_nat_le) simp_all
  qed
  ultimately show ?thesis
    using d plain_digits_digits [OF d(2,1)] digits_value_show_nat [of n]
    by (cases ?s) (auto simp: int_of_def signed_digits_def max_int_digits_def is_digit_def Let_def)
qed

section \<open>Properties\<close>

text \<open>The status ports the worker can be given are exactly those from 1 to 65535 but the SDK's
  8081: no text of the variable yields another, and each of them has one.\<close>

theorem status_port_exact:
  "(\<exists>v. status_port other (env(str ''AIDA_STATUS_PORT'' \<mapsto> v)) = Inr n) \<longleftrightarrow> 1 \<le> n \<and> n \<le> 65535 \<and> n \<noteq> 8081"
proof
  assume "1 \<le> n \<and> n \<le> 65535 \<and> n \<noteq> 8081"
  moreover from this have "nat n \<le> 65535" by linarith
  ultimately have "status_port other (env(str ''AIDA_STATUS_PORT'' \<mapsto> show_nat (nat n))) = Inr n"
    using int_of_show_nat [of "nat n" other] by (simp add: status_port_def env_get_def)
  then show "\<exists>v. status_port other (env(str ''AIDA_STATUS_PORT'' \<mapsto> v)) = Inr n" by blast
qed (auto simp: status_port_def split: option.splits if_splits)

text \<open>C18. The worker registers exactly when nothing is missing: a start hands a server to the SDK
  if and only if every deployment and bootstrap setting is valid, the three LiveKit settings
  are not blank, the log store could be set up, the agent's name and the status port are
  valid and the SDK is the pinned one.\<close>

theorem worker_starts_exactly:
  assumes "starts_worker argv"
  shows "(\<exists>env' key_file s. worker_main py other sdk_version installed temp_path argv env = (env', key_file, Inr s))
    \<longleftrightarrow> settings_ok py env \<and> (\<exists>on. snd (snd (configure py installed temp_path env)) = Inr on)
      \<and> fullmatch is_token_char 1 64 (env_get env (str ''LIVEKIT_AGENT_NAME'') (str ''aida-prime''))
      \<and> (\<exists>n. status_port other env = Inr n) \<and> sdk_version = str ''1.8.0''"
proof -
  obtain env1 kf r where c: "configure py installed temp_path env = (env1, kf, r)" by (cases "configure py installed temp_path env")
  have g: "env_get env1 (str ''LIVEKIT_AGENT_NAME'') d = env_get env (str ''LIVEKIT_AGENT_NAME'') d"
    "env_get env1 (str ''AIDA_STATUS_PORT'') d = env_get env (str ''AIDA_STATUS_PORT'') d" for d
    by (simp_all add: env_get_def configure_same [OF c] key_json_var_def key_file_var_def enabled_var_def)
  have m: "(\<exists>s. make_server other sdk_version env1 = Inr s) \<longleftrightarrow>
      fullmatch is_token_char 1 64 (env_get env (str ''LIVEKIT_AGENT_NAME'') (str ''aida-prime''))
      \<and> (\<exists>n. status_port other env = Inr n) \<and> sdk_version = str ''1.8.0''"
    by (auto simp: make_server_def g status_port_def new_server_def bind_res_eq_Inr Let_def)
  show ?thesis
  proof (cases "check_settings py env")
    case (Inl e)
    then have "\<not> settings_ok py env" using check_settings_iff [of py env] by simp
    with Inl assms show ?thesis by (simp add: worker_main_def)
  next
    case (Inr u)
    then have "settings_ok py env" using check_settings_iff [of py env] by simp
    with Inr assms m c show ?thesis by (cases r) (simp_all add: worker_main_def)
  qed
qed

text \<open>A start with settings missing ends before anything is done: the environment is as it was,
  no key file is written, no server is made, and the program exits with a message.\<close>

theorem missing_settings_exit:
  assumes "starts_worker argv" "\<not> settings_ok py env"
  shows "\<exists>m. worker_main py other sdk_version installed temp_path argv env = (env, None, Inl (SystemExit m))"
proof -
  obtain e where e: "check_settings py env = Inl e"
    using assms(2) check_settings_iff [of py env] by (cases "check_settings py env") auto
  from check_settings_error [OF e] e assms(1) show ?thesis by (auto simp: worker_main_def)
qed

text \<open>C16. A worker that started can serve every call: in the environment it leaves to its jobs the
  log store's key is gone, and a job is refused for its metadata only, never for a setting.\<close>

theorem jobs_refused_for_metadata_only:
  assumes "worker_main py other sdk_version installed temp_path argv env = (env', key_file, Inr s)"
    and "starts_worker argv"
  shows "env' key_json_var = None
    \<and> ((\<exists>j. accept_job py metadata room env' = Inr (Inr j)) \<longleftrightarrow> (\<exists>d. parse_dispatch py metadata room = Inr d))"
proof -
  note w = worker_main_started [OF assms]
  then obtain on where c: "configure py installed temp_path env = (env', key_file, Inr on)" by blast
  obtain d b where "deployment_from_env env = Inr d" "bootstrap_from_env py env = Inr b"
    using w(1) by (auto simp: settings_ok_def)
  moreover have "deployment_from_env env' = deployment_from_env env" "bootstrap_from_env py env' = bootstrap_from_env py env"
    by (rule deployment_same bootstrap_same;
        auto intro!: configure_same [OF c] simp: key_json_var_def key_file_var_def enabled_var_def)+
  ultimately have "deployment_from_env env' = Inr d" "bootstrap_from_env py env' = Inr b" by simp_all
  then have "(\<exists>j. accept_job py metadata room env' = Inr (Inr j)) \<longleftrightarrow> (\<exists>d. parse_dispatch py metadata room = Inr d)"
    using parse_dispatch_only [of py metadata room]
    by (auto simp: accept_job_def load_job_def only_invalid_def split: sum.split)
       (cases "parse_dispatch py metadata room"; simp)
  moreover have "env' key_json_var = None"
    using configure_cases [of py installed temp_path env] c by auto
  ultimately show ?thesis by blast
qed

text \<open>Concrete starts.\<close>

definition worker_env :: environ where
  "worker_env k = (if k \<in> str ` set livekit_keys then Some (str ''x'') else job_env k)"

abbreviation start_argv :: "pystr list" where
  "start_argv \<equiv> [str ''aida-agent'', str ''start'']"

lemma worker_env_ok: "settings_ok plain_python worker_env"
proof -
  have "strip (str ''x'') = str ''x''" by (simp add: strip_def strip_by_def lstrip_by_def rstrip_by_def str_def py_isspace_def)
  then have "\<forall>k \<in> set livekit_keys. strip (env_get worker_env (str k) []) \<noteq> []"
    by (auto simp: env_get_def worker_env_def)
  moreover have "deployment_from_env worker_env = deployment_from_env job_env"
    "bootstrap_from_env plain_python worker_env = bootstrap_from_env plain_python job_env"
    by (rule deployment_same bootstrap_same; auto simp: worker_env_def livekit_keys_def)+
  ultimately show ?thesis using job_env_settings sample_bootstrap by (simp add: settings_ok_def)
qed

lemma configure_off:
  assumes "env enabled_var = None"
  shows "configure py installed temp_path env
     = (env(key_json_var := None, key_file_var := None, enabled_var \<mapsto> str ''0''), None, Inr False)"
proof -
  have "env_get (env(key_json_var := None, key_file_var := None)) enabled_var [] = []"
    using assms by (simp add: env_get_def key_json_var_def key_file_var_def enabled_var_def)
  moreover have "strip [] \<noteq> str ''1''" by (simp add: strip_def strip_by_def lstrip_by_def rstrip_by_def str_def)
  ultimately show ?thesis unfolding configure_def Let_def by simp
qed

lemma worker_env_configure:
  "configure plain_python installed temp_path worker_env
     = (worker_env(key_json_var := None, key_file_var := None, enabled_var \<mapsto> str ''0''), None, Inr False)"
  by (rule configure_off) (auto simp: worker_env_def job_env_def sample_env_def enabled_var_def livekit_keys_def)

lemma worker_env_server:
  "env (str ''LIVEKIT_AGENT_NAME'') = None \<Longrightarrow> env (str ''AIDA_STATUS_PORT'') = None \<Longrightarrow>
     fullmatch is_token_char 1 64 (env_get env (str ''LIVEKIT_AGENT_NAME'') (str ''aida-prime''))
     \<and> status_port other env = Inr 8082"
proof -
  assume "env (str ''LIVEKIT_AGENT_NAME'') = None" "env (str ''AIDA_STATUS_PORT'') = None"
  moreover have "show_nat 8082 = str ''8082''" by (simp add: show_nat.simps str_def)
  ultimately show ?thesis
    using int_of_show_nat [of 8082 other]
    by (simp add: env_get_def status_port_def) (simp add: fullmatch_def str_def is_token_char_def char_class_defs)
qed

lemma start_argv_starts: "starts_worker start_argv"
  by (simp add: starts_worker_def)

theorem worker_starts_exactly_witness:
  "\<exists>env' key_file s. worker_main plain_python (\<lambda>_. None) (str ''1.8.0'') False (Inr []) start_argv worker_env
     = (env', key_file, Inr s)"
  using worker_starts_exactly [OF start_argv_starts, of plain_python "\<lambda>_. None" "str ''1.8.0''" False "Inr []" worker_env]
    worker_env_ok worker_env_configure worker_env_server [of worker_env "\<lambda>_. None"]
  by (auto simp: worker_env_def job_env_def sample_env_def livekit_keys_def)

theorem missing_settings_exit_witness:
  "\<exists>m. worker_main plain_python (\<lambda>_. None) (str ''1.8.0'') False (Inr []) start_argv job_env
     = (job_env, None, Inl (SystemExit m))"
proof -
  have "env_get job_env (str ''LIVEKIT_URL'') [] = []"
    by (simp add: env_get_def job_env_def sample_env_def)
  then have "\<not> settings_ok plain_python job_env"
    by (simp add: settings_ok_def livekit_keys_def strip_def strip_by_def lstrip_by_def rstrip_by_def)
  from missing_settings_exit [OF start_argv_starts this] show ?thesis by blast
qed

theorem jobs_refused_for_metadata_only_witness:
  "\<exists>env'. env' key_json_var = None \<and>
     (\<exists>j. accept_job plain_python (json_dumps default_dump (JObj (dispatch_fields sample_dispatch)))
        (room_of (d_call_id sample_dispatch)) env' = Inr (Inr j))"
proof -
  let ?env = "worker_env(key_json_var := None, key_file_var := None, enabled_var \<mapsto> str ''0'')"
  have "check_settings plain_python worker_env = Inr ()" using worker_env_ok by (simp add: check_settings_iff)
  moreover have "?env (str ''LIVEKIT_AGENT_NAME'') = None" "?env (str ''AIDA_STATUS_PORT'') = None"
    by (auto simp: worker_env_def job_env_def sample_env_def livekit_keys_def key_json_var_def key_file_var_def enabled_var_def)
  then obtain s where "make_server (\<lambda>_. None) (str ''1.8.0'') ?env = Inr s"
    using worker_env_server [of ?env "\<lambda>_. None"] by (auto simp: make_server_def new_server_def Let_def)
  ultimately have "worker_main plain_python (\<lambda>_. None) (str ''1.8.0'') False (Inr []) start_argv worker_env = (?env, None, Inr s)"
    using start_argv_starts by (simp add: worker_main_def worker_env_configure)
  from jobs_refused_for_metadata_only [OF this start_argv_starts] show ?thesis
    using sample_dispatch_parsed by blast
qed

end
