(* ===== verification/Build.thy ===== *)
theory Build
  imports Preview
begin

text \<open>
  build_metadata.py and setup.py: the identity stamped into a package and the file that
  carries it. Git's answers and the conversion of a time to the zone's calendar are
  parameters; build_info.py, which reads the file back, is in Preview.
\<close>

section \<open>The stamp\<close>

text \<open>What \<open>datetime.fromtimestamp\<close> returns, with its \<open>isoformat\<close> to the second.\<close>

record zoned =
  z_year :: int
  z_month :: int
  z_day :: int
  z_hour :: int
  z_minute :: int
  z_iso :: pystr

text \<open>\<open>git\<close>: the output of the command, stripped, or its exception.\<close>

type_synonym git_command = "string list \<Rightarrow> pystr result"

definition run_git :: "git_command \<Rightarrow> string list \<Rightarrow> pystr result" where
  "run_git git args = bind_res (git args) (\<lambda>output. Inr (strip output))"

record source_identity =
  si_revision :: pystr
  si_epoch :: pystr
  si_dirty :: bool

definition explicit_metadata :: "environ \<Rightarrow> bool" where
  "explicit_metadata env \<longleftrightarrow>
     env_get env (str ''BUILD_REVISION'') [] \<noteq> [] \<or> env_get env (str ''SOURCE_DATE_EPOCH'') [] \<noteq> []"

definition source_of :: "git_command \<Rightarrow> environ \<Rightarrow> source_identity result" where
  "source_of git env =
     (if explicit_metadata env
      then (if env (str ''BUILD_DIRTY'') \<notin> {Some (str ''true''), Some (str ''false'')} then Inl ValueError
            else Inr \<lparr>si_revision = env_get env (str ''BUILD_REVISION'') [],
                      si_epoch = env_get env (str ''SOURCE_DATE_EPOCH'') [],
                      si_dirty = (env (str ''BUILD_DIRTY'') = Some (str ''true''))\<rparr>)
      else bind_res (run_git git [''rev-parse'', ''HEAD'']) (\<lambda>revision.
           bind_res (run_git git [''show'', ''-s'', ''--format=%ct'', ''HEAD'']) (\<lambda>epoch.
           bind_res (run_git git [''status'', ''--porcelain'', ''--untracked-files=normal'']) (\<lambda>status.
             Inr \<lparr>si_revision = revision, si_epoch = epoch, si_dirty = (status \<noteq> [])\<rparr>))))"

definition full_revision :: "pystr \<Rightarrow> bool" where
  "full_revision r \<longleftrightarrow> fullmatch is_lower_hex 40 40 r \<or> fullmatch is_lower_hex 64 64 r"

definition whole_epoch :: "pystr \<Rightarrow> int result" where
  "whole_epoch s =
     (if s = [] \<or> \<not> list_all is_digit s \<or> max_int_digits < length s then Inl ValueError
      else Inr (int (digits_value s)))"

definition version_text :: "zoned \<Rightarrow> bool \<Rightarrow> pystr" where
  "version_text z dirty =
     join (str ''.'') (map show_int [z_year z, z_month z, z_day z, z_hour z, z_minute z])
     @ (if dirty then str ''-dirty'' else [])"

definition stamp :: "git_command \<Rightarrow> (int \<Rightarrow> zoned result) \<Rightarrow> environ \<Rightarrow> fields result" where
  "stamp git local_time env =
     bind_res (source_of git env) (\<lambda>s.
       if \<not> full_revision (si_revision s) then Inl ValueError
       else bind_res (whole_epoch (si_epoch s)) (\<lambda>t.
            bind_res (local_time t) (\<lambda>z.
              Inr [(str ''version'', JStr (version_text z (si_dirty s))),
                   (str ''revision'', JStr (si_revision s)), (str ''sourceUpdatedAt'', JStr (z_iso z)),
                   (str ''timeZone'', JStr (str ''America/Los_Angeles'')), (str ''dirty'', JBool (si_dirty s))])))"

section \<open>The file\<close>

definition line_break :: pystr where
  "line_break = [10]"

text \<open>\<open>json.dumps(info, indent=2)\<close> of a flat dict: one member a line.\<close>

definition indented_dump :: dump_opts where
  "indented_dump =
     \<lparr>ensure_ascii = True, item_separator = str '','' @ line_break @ str ''  '', key_separator = str '': ''\<rparr>"

definition dumps_indented :: "fields \<Rightarrow> pystr" where
  "dumps_indented ps =
     (if ps = [] then str ''{}''
      else str ''{'' @ line_break @ str ''  ''
        @ join (item_separator indented_dump)
            (map (\<lambda>(k, v). quote True k @ key_separator indented_dump @ json_dumps indented_dump v) ps)
        @ line_break @ str ''}'')"

definition build_py :: "git_command \<Rightarrow> (int \<Rightarrow> zoned result) \<Rightarrow> environ \<Rightarrow> pystr result" where
  "build_py git local_time env =
     bind_res (stamp git local_time env) (\<lambda>info. Inr (dumps_indented info @ line_break))"

section \<open>Reading it back\<close>

lemma indented_seps:
  "item_separator indented_dump = 44 # [10, 32, 32]" "list_all is_ws [10, 32, 32]"
  "key_separator indented_dump = 58 # [32]" "list_all is_ws [32]" "ensure_ascii indented_dump = True"
  "seps_ok indented_dump"
proof -
  show i: "item_separator indented_dump = 44 # [10, 32, 32]" "list_all is_ws [10, 32, 32]"
    "key_separator indented_dump = 58 # [32]" "list_all is_ws [32]" "ensure_ascii indented_dump = True"
    by (simp_all add: indented_dump_def line_break_def str_def is_ws_def)
  then show "seps_ok indented_dump" unfolding seps_ok_def by blast
qed

lemma loads_indented:
  assumes "wf_json (JObj ps)" "ps \<noteq> []" "\<forall>p \<in> set ps. jdepth (snd p) \<le> d" "hook_ok jo"
  shows "json_loads jo (Suc d) (RawStr (dumps_indented ps @ line_break)) = Inr (JObj ps)"
proof -
  let ?m = "\<lambda>(k, v). quote (ensure_ascii indented_dump) k @ key_separator indented_dump @ json_dumps indented_dump v"
  let ?body = "join (item_separator indented_dump) (map ?m ps) @ [10] @ 125 # [10]"
  let ?s = "123 # [10, 32, 32] @ ?body"
  have s: "dumps_indented ps @ line_break = ?s"
    using assms(2) by (simp add: dumps_indented_def indented_seps(5) line_break_def str_def)
  have p: "\<forall>(k, v) \<in> set ps. parses jo indented_dump v \<and> wf_json v \<and> jdepth v \<le> d \<and> list_all is_scalar k"
    using assms parses_dumps [OF indented_seps(6) assms(4)] by auto
  have m: "parse_members jo n d ?body = POk ps [10]" if "2 * length ?body + 2 \<le> n" for n
    using that
    by (intro parse_members_padded [OF indented_seps(1-4) _ refl p assms(2)]) (simp_all add: is_ws_def)
  have "?m kv @ t = 34 # tl (?m kv @ t)" for kv t
    by (cases kv) (simp, subst (1 2) quote_hd, simp)
  then have hd: "?body = 34 # tl ?body" using assms(2) by (cases ps; cases "tl ps") simp_all
  have sk: "skip_ws ([10, 32, 32] @ ?body) = ?body"
    by (subst skip_ws_append [OF indented_seps(2)]) (subst (1 2) hd, simp add: is_ws_def)
  have ex: "expect 125 ?body = None" by (subst hd) simp
  have h: "object_hook jo ps = Some (JObj ps)" using assms(1,4) by (simp add: hook_ok_def)
  obtain n where n: "json_fuel ?s = Suc n" "2 * length ?body + 2 \<le> n"
    by (cases "json_fuel ?s") (auto simp: json_fuel_def)
  have v: "parse_value jo (json_fuel ?s) (Suc d) ?s = POk (JObj ps) [10]"
    unfolding n(1) parse_value.simps list.case using sk ex h m [OF n(2)] by simp
  have "skip_ws ?s = ?s" by (simp add: is_ws_def)
  then show ?thesis
    unfolding s json_loads_def json_decode_def raw.case using v by (simp add: skip_ws_def is_ws_def)
qed

section \<open>Properties\<close>

lemma stamp_InrD:
  assumes "stamp git local_time env = Inr info"
  obtains s t z where "source_of git env = Inr s" "full_revision (si_revision s)" "whole_epoch (si_epoch s) = Inr t"
    "local_time t = Inr z"
    "info = [(str ''version'', JStr (version_text z (si_dirty s))), (str ''revision'', JStr (si_revision s)),
       (str ''sourceUpdatedAt'', JStr (z_iso z)), (str ''timeZone'', JStr (str ''America/Los_Angeles'')),
       (str ''dirty'', JBool (si_dirty s))]"
  using assms by (auto simp: stamp_def bind_res_eq_Inr split: if_splits)

lemma join_scalar: "list_all is_scalar sep \<Longrightarrow> \<forall>x \<in> set xs. list_all is_scalar x \<Longrightarrow> list_all is_scalar (join sep xs)"
  by (rule join_all)

lemma version_scalar: "list_all is_scalar (version_text z dirty)"
proof -
  have "list_all is_scalar (show_int i)" for i
    using digit_scalar [OF show_nat_digits] by (simp add: show_int_def)
  then show ?thesis by (auto simp: version_text_def str_scalar intro!: join_scalar)
qed

text \<open>C40. What was built is what is reported: the identity a build stamps is a full revision with
  the version of its commit time, marked dirty exactly when the source was, and the
  installed program reads exactly that identity back from the file the build wrote.\<close>

theorem build_identity:
  assumes "build_py git local_time env = Inr content"
    and "\<And>t z. local_time t = Inr z \<Longrightarrow> list_all is_scalar (z_iso z)" and "0 < rec_limit py"
  shows "\<exists>info revision z dirty. build_info py (Some content) = Inr (JObj info)
    \<and> get info ''revision'' = Some (JStr revision) \<and> full_revision revision
    \<and> get info ''dirty'' = Some (JBool dirty) \<and> get info ''version'' = Some (JStr (version_text z dirty))
    \<and> stamp git local_time env = Inr info"
proof -
  obtain info where i: "stamp git local_time env = Inr info" "content = dumps_indented info @ line_break"
    using assms(1) by (auto simp: build_py_def bind_res_eq_Inr)
  obtain s t z where source: "source_of git env = Inr s" and s1: "full_revision (si_revision s)"
    and epoch: "whole_epoch (si_epoch s) = Inr t" and s2: "local_time t = Inr z" and s3: "info = [(str ''version'', JStr (version_text z (si_dirty s))), (str ''revision'', JStr (si_revision s)),
       (str ''sourceUpdatedAt'', JStr (z_iso z)), (str ''timeZone'', JStr (str ''America/Los_Angeles'')),
       (str ''dirty'', JBool (si_dirty s))]"
    using i(1) by (rule stamp_InrD)
  note s = s1 s2 s3
  have "list_all is_scalar (si_revision s)"
    using s(1) by (auto simp: full_revision_def fullmatch_def list_all_iff is_lower_hex_def is_digit_def is_scalar_def surrogate_defs)
  then have wf: "wf_json (JObj info)"
    using assms(2) [OF s(2)] version_scalar by (simp add: s(3) str_scalar)
  obtain d where d: "rec_limit py = Suc d" using assms(3) by (cases "rec_limit py") auto
  have "json_loads (plain_opts (repr_float py)) (Suc d) (RawStr (dumps_indented info @ line_break)) = Inr (JObj info)"
    using wf by (rule loads_indented) (simp_all add: s(3) hook_ok_plain)
  then have "build_info py (Some content) = Inr (JObj info)" by (simp add: build_info_def d i(2))
  moreover have "get info ''revision'' = Some (JStr (si_revision s))" "get info ''dirty'' = Some (JBool (si_dirty s))"
    "get info ''version'' = Some (JStr (version_text z (si_dirty s)))"
    by (simp_all add: s(3) get_def)
  ultimately show ?thesis using s(1) i(1) by blast
qed

text \<open>
  A stamp from explicit metadata does not depend on the checkout: no command of Git is run,
  and whether the source was dirty has to be said.
\<close>

theorem explicit_stamp:
  assumes "explicit_metadata env"
  shows "stamp git local_time env = stamp git' local_time env"
    and "env (str ''BUILD_DIRTY'') \<notin> {Some (str ''true''), Some (str ''false'')} \<Longrightarrow>
      stamp git local_time env = Inl ValueError"
  using assms by (simp_all add: stamp_def source_of_def)

definition sample_build_env :: environ where
  "sample_build_env =
     [str ''BUILD_REVISION'' \<mapsto> replicate 40 97, str ''SOURCE_DATE_EPOCH'' \<mapsto> str ''0'', str ''BUILD_DIRTY'' \<mapsto> str ''false'']"

definition sample_zoned :: zoned where
  "sample_zoned =
     \<lparr>z_year = 1969, z_month = 12, z_day = 31, z_hour = 16, z_minute = 0, z_iso = str ''1969-12-31T16:00:00-08:00''\<rparr>"

theorem build_identity_witness:
  "\<exists>content info. build_py (\<lambda>_. Inl OSError) (\<lambda>_. Inr sample_zoned) sample_build_env = Inr content
     \<and> build_info plain_python (Some content) = Inr (JObj info)
     \<and> get info ''dirty'' = Some (JBool False)"
proof -
  have "source_of (\<lambda>_. Inl OSError) sample_build_env
      = Inr \<lparr>si_revision = replicate 40 97, si_epoch = str ''0'', si_dirty = False\<rparr>"
    by (simp add: source_of_def explicit_metadata_def env_get_def sample_build_env_def)
  moreover have "full_revision (replicate 40 97)" by (simp add: full_revision_def fullmatch_def is_lower_hex_def list_all_iff)
  moreover have "whole_epoch (str ''0'') = Inr 0"
    by (simp add: whole_epoch_def str_def is_digit_def max_int_digits_def digits_value_def)
  ultimately obtain info where i: "stamp (\<lambda>_. Inl OSError) (\<lambda>_. Inr sample_zoned) sample_build_env = Inr info"
    "get info ''dirty'' = Some (JBool False)"
    by (simp add: stamp_def get_def)
  then obtain content where c: "build_py (\<lambda>_. Inl OSError) (\<lambda>_. Inr sample_zoned) sample_build_env = Inr content"
    by (simp add: build_py_def)
  have "list_all is_scalar (z_iso sample_zoned)" by (simp add: sample_zoned_def str_scalar)
  moreover have "0 < rec_limit plain_python" by (simp add: plain_python_def)
  ultimately show ?thesis using build_identity [OF c, of plain_python] c i by auto
qed

end
