(* ===== verification/Spec2Isabelle.thy ===== *)
theory Spec2Isabelle
  imports Worker Build
begin

text \<open>
  A verification development for the Aida voice worker, the Python package
  src/aida_agent with its build files build_metadata.py and setup.py.

  \<^bold>\<open>The program.\<close> A command line (cli.py) fills the environment with the deployment's
  settings from a remote table (platform_config.py) and starts the preview service
  (preview.py) or the worker (worker.py). The worker checks its settings, switches the log
  store on or off (logstore.py) and hands a server to the LiveKit SDK: monitored_server.py
  counts what the SDK does in status.py, which answers the health probes. For each call the
  SDK runs one job, \<open>entrypoint\<close> of worker.py. It parses the dispatch (config.py), waits for
  the caller's SIP leg (admission.py), asks the bootstrap service to authorize the call
  (bootstrap.py), opens a muted session, subscribes to the leg's audio, announces that the
  agent is ready, and then lets caller and agent hear each other. During the conversation
  control.py takes commands and hands the call to a human, transcripts.py publishes what was
  said, and transcript_history.py keeps it and serves it to authorised observers. Any failure
  silences the agent and closes the job.

  \<^bold>\<open>The theories.\<close> Definitions keep the names of the source's functions, classes and constants.
  \<^item> Prelude: text as lists of code points, the exceptions as values of a sum type, the
    environment as a map; the locales \<open>event_machine\<close> and \<open>latched_machine\<close>.
  \<^item> Codecs, Json, Json_Print, Interpreter, Floats: what the program uses of the standard
    library. UTF-8, UTF-16 and UTF-32, \<open>json.loads\<close> and \<open>json.dumps\<close> with their round trip
    and output sizes, \<open>str.lower\<close>, \<open>uuid.UUID\<close>, \<open>urlsplit\<close>, and the rounding of doubles
    where control.py converts milliseconds.
  \<^item> Bounded_Queue, Dictionary: the contracts of \<open>asyncio.Queue\<close> and \<open>dict\<close>, with the queue
    of 128 entries and the association list the components use.
  \<^item> Config (config.py): \<open>strict_json\<close>, the field grammars, the four configurations.
  \<^item> Bootstrap (bootstrap.py): \<open>sip_leg\<close>, \<open>authorize\<close> and the validation of the response.
  \<^item> Control (control.py): the record \<open>handler\<close> holds the attributes of TakeoverControl, its
    tasks and their suspension points; \<open>control_step\<close> takes one uninterrupted piece.
  \<^item> Admission (admission.py): the record \<open>admission\<close>, its room handlers and both coroutines.
  \<^item> Transcripts (transcripts.py): \<open>transcript_stream\<close> and \<open>publisher\<close>.
  \<^item> History, Paging (transcript_history.py): \<open>history\<close> with its rows, snapshots, RPC and sender,
    and an observer that reads a snapshot page by page.
  \<^item> Job (worker.py, \<open>entrypoint\<close>): the record \<open>job\<close> holds its local variables with the
    components' states; \<open>job_step\<close> is one resumption, callback or component step.
    Job_Invariant, Job_Calls, Job_Shutdown and Job_Parts prove what holds in every run,
    Job_Properties states it.
  \<^item> Platform (platform_config.py), Logstore (logstore.py), Preview (build_info.py and
    preview.py), Cli (cli.py), Status (status.py and monitored_server.py), Worker (worker.py,
    \<open>main\<close> and \<open>make_server\<close>), Build (build_metadata.py and setup.py).
  \<^item> This theory: the settings on their way from the store to a session.

  \<^bold>\<open>What is shown.\<close>
  \<^item> Acceptance: the strict reader, the dispatch and the profile accept exactly the documents
    the rules describe; the authorized profile is bound to the dispatch, the room and the leg;
    the credential goes to the configured origin only, in one bounded request.
  \<^item> A job: in every run the startup makes its calls in one order and at most once; nothing
    is heard or said before admission, authorization and the announcement; an abort is
    final; a cleanup closes everything; an undisturbed startup opens the conversation; the
    handler, the admission, the publisher and the history inside a job take only steps of
    their own machines.
  \<^item> Take-over: a human's answer silences the agent for good and ends the job, a command is
    carried out at most once, announcements are spoken within their grace period.
  \<^item> Transcripts: events are numbered, bounded, delivered in order and fail closed; what an
    observer joins from the pages is the snapshot frozen at its first request.
  \<^item> Deployment: resolving the settings refines its rule and depends on the set of rows only;
    the worker runs on the store's settings only and registers exactly when all are valid;
    readiness is reported exactly when the server can take calls; the build's identity is
    read back as it was stamped.

  \<^bold>\<open>Interfaces.\<close> \<open>event_machine\<close> (an invariant of the steps holds in every run) is
  interpreted on the machines of Control, Admission, History, Status and Job, and its
  extension \<open>latched_machine\<close> (a flag no step clears) on Control, Transcripts and Job.
  \<open>bounded_queue\<close> and \<open>dictionary\<close> are interpreted on the structures of the components,
  \<open>wire_format\<close> on the two JSON formats the program sends.

  \<^bold>\<open>Bounds and fuel.\<close> The JSON scanner recurses with fuel; \<open>json_fuel\<close> gives more than the text
  is long and \<open>parse_value_fuel\<close> shows that it is never exhausted, so only the interpreter's
  recursion limit, a parameter, ends a deep document. Integers have at most 4300 digits, as in
  the language. The page loop of platform_config.py has no bound in the code: it is a partial
  function, and it is proved to end on every store that serves a finite table. Every
  other function is total. A cleanup needs at most six resumptions.

  \<^bold>\<open>Parameters.\<close> Code outside the package is an argument: the HTTP client (\<open>post\<close>), the settings
  store (\<open>serve\<close>), the room and the participants (with each event), the calls on the session
  that raise (\<open>fails\<close>), clocks and random ids, the interpreter's tables (the record
  \<open>python\<close>: recursion limit, \<open>repr\<close> and \<open>float\<close> of numbers, lower case and NFKC outside ASCII),
  the text of a container (\<open>py_repr\<close>), \<open>int\<close> on other digits than ASCII ones (\<open>other\<close>), Git's
  answers and the time zone.

  \<^bold>\<open>Concurrency.\<close> The package runs on one event loop, so a step is a piece between two
  awaits and a run is any sequence of steps. The calls on the SDK are recorded in the state
  in the order in which they are made. A cleanup is split more finely than in the code (one
  resumption for each resource, whether its close finished, failed or timed out), which admits more
  interleavings than the program has.

  \<^bold>\<open>Not modelled.\<close> The SDK itself (its media, its RPC transport, the process pool),
  imports and the configuration of logging, the HTTP servers' socket loops, the argument
  parser's usage texts, the copying of files by setuptools, and the \<open>__repr__\<close> texts. They hold
  no decision of the package, or are the environment of the steps above.
\<close>

section \<open>From the store to the call\<close>

lemma setting_present:
  assumes "deployment_setting env n = Inr v"
  shows "map_option strip (env (str n)) = Some v"
proof (cases "env (str n)")
  case None
  then have "strip (env_get env (str n) []) = []" by (simp add: env_get_def strip_def strip_by_def lstrip_by_def rstrip_by_def)
  with assms show ?thesis by (simp add: deployment_setting_def)
qed (use assms in \<open>auto simp: deployment_setting_def env_get_def Let_def split: if_splits\<close>)

lemma deployment_values:
  assumes "deployment_from_env env = Inr d"
  shows "map (\<lambda>n. map_option strip (env (str n))) [''AIDA_STT_MODEL'', ''AIDA_LLM_MODEL'', ''AIDA_TTS_MODEL'', ''AIDA_TTS_VOICE'']
    = map Some [stt_model d, llm_model d, tts_model d, tts_voice d]"
  using assms setting_present by (auto simp: deployment_from_env_def bind_res_eq_Inr)

lemma attribute_present:
  assumes "bootstrap_from_env py env = Inr b"
  shows "env (str ''AIDA_ROUTE_TOKEN_ATTRIBUTE'') = Some (b_route_token_attribute b)"
  using assms
  by (cases "env (str ''AIDA_ROUTE_TOKEN_ATTRIBUTE'')")
     (auto simp: bootstrap_from_env_def env_get_def Let_def fullmatch_def split: if_splits option.splits)

text \<open>C17. What the store holds is what a call uses, whatever the environment held: when the worker
  was started by the command line on the store's settings and a job of it makes a session, its
  three models and its voice are the store's, and the route token is looked for under the
  store's attribute.\<close>

theorem calls_use_store_settings:
  assumes "cli_main py py_repr serve args env = Some (env1, Inr RunWorker)" "\<not> asks_help args"
    and "worker_main py other sdk_version installed temp_path (program # args) env1 = (env2, key_file, Inr server)"
    and "starts_worker (program # args)" "load_job py metadata room env2 = Inr cfg"
    and "CreateSession options \<in> set (j_effects (run (job_step py cfg) (new_job cfg) es))"
  shows "\<exists>ps. fetch py py_repr serve (time_zone env) = Some (Inr ps)
    \<and> map (\<lambda>n. map_option strip (lookup (str n) ps))
        [''AIDA_STT_MODEL'', ''AIDA_LLM_MODEL'', ''AIDA_TTS_MODEL'', ''AIDA_TTS_VOICE'']
      = map Some [so_stt_model options, so_llm_model options, so_tts_model options, so_tts_voice options]
    \<and> lookup (str ''AIDA_ROUTE_TOKEN_ATTRIBUTE'') ps = Some (b_route_token_attribute (jc_bootstrap cfg))"
proof -
  obtain ps where f: "fetch py py_repr serve (time_zone env) = Some (Inr ps)"
    and a: "store_applied ps (time_zone env) env1"
    using run_worker_settings [OF assms(1,2)] by blast
  obtain on where c: "configure py installed temp_path env1 = (env2, key_file, Inr on)"
    using worker_main_started(2) [OF assms(3,4)] by blast
  have e: "env2 (str n) = lookup (str n) ps"
    if "n \<in> {''AIDA_STT_MODEL'', ''AIDA_LLM_MODEL'', ''AIDA_TTS_MODEL'', ''AIDA_TTS_VOICE'', ''AIDA_ROUTE_TOKEN_ATTRIBUTE''}" for n
  proof -
    have "env2 (str n) = env1 (str n)"
      using that by (intro configure_same [OF c]) (auto simp: key_json_var_def key_file_var_def enabled_var_def)
    moreover have "str n \<in> set SETTING_KEYS" using that by (auto simp: SETTING_KEYS_def)
    ultimately show ?thesis using a by (simp add: store_applied_def)
  qed
  note l = load_job_InrD [OF assms(5)]
  obtain call where o: "options = create_session py (jc_deployment cfg) call"
    using session_options_made [OF assms(6)] by blast
  show ?thesis
    using f deployment_values [OF l(2)] attribute_present [OF l(3)] by (simp add: e o create_session_def)
qed

text \<open>A store with the settings of a worker, and a call it serves.\<close>

definition worker_settings :: "(string \<times> string) list" where
  "worker_settings =
     [(''LIVEKIT_URL'', ''wss://x''), (''LIVEKIT_API_KEY'', ''k''), (''LIVEKIT_API_SECRET'', ''s''),
      (''OFFICEPULSE_API_BASE_URL'', ''https://api.acme.test/''),
      (''AIDA_ROUTE_TOKEN_ATTRIBUTE'', ''sip.aidaRouteToken''),
      (''AIDA_STT_MODEL'', ''stt''), (''AIDA_LLM_MODEL'', ''llm''), (''AIDA_TTS_MODEL'', ''tts''), (''AIDA_TTS_VOICE'', ''v'')]"

lemma worker_settings_plain: "plain_settings worker_settings"
  by (simp add: plain_settings_def worker_settings_def SETTING_KEYS_def) (simp add: str_def)

lemma stored_env:
  assumes "store_applied (setting_pairs worker_settings) (time_zone sample_environ) env1"
  shows "settings_ok plain_python env1" "env1 enabled_var = None"
    "env1 (str ''LIVEKIT_AGENT_NAME'') = None" "env1 (str ''AIDA_STATUS_PORT'') = None"
proof -
  have e: "env1 (str n) = map_option str (map_of worker_settings n)" if "str n \<in> set SETTING_KEYS" for n
  proof -
    have "lookup (str n) (setting_pairs kvs) = map_option str (map_of kvs n)" for kvs
      by (induction kvs) (auto simp: lookup_def setting_pairs_def)
    with that assms show ?thesis by (simp add: store_applied_def)
  qed
  have k: "str n \<in> set SETTING_KEYS"
    if "n \<in> {''OFFICEPULSE_API_BASE_URL'', ''AIDA_ROUTE_TOKEN_ATTRIBUTE'', ''AIDA_BOOTSTRAP_TIMEOUT_SECONDS'',
      ''AIDA_STT_MODEL'', ''AIDA_LLM_MODEL'', ''AIDA_TTS_MODEL'', ''AIDA_TTS_VOICE'', ''LIVEKIT_URL'', ''LIVEKIT_API_KEY'',
      ''LIVEKIT_API_SECRET'', ''LIVEKIT_AGENT_NAME'', ''LOGSTORE_ENABLED''}" for n
    using that by (auto simp: SETTING_KEYS_def)
  have t: "strip (str v) = str v \<and> \<not> list_ex py_isspace (str v)"
    if "v \<in> snd ` set worker_settings" for v
  proof -
    have "list_all (\<lambda>c. 32 < c \<and> c < 127) (str v)"
      using that worker_settings_plain by (auto simp: plain_settings_def list_all_iff)
    moreover from this have "\<not> list_ex py_isspace (str v)"
      by (auto simp: list_all_iff list_ex_iff py_isspace_def)
    ultimately show ?thesis by (simp add: strip_no_space)
  qed
  have x: "env1 (str ''OFFICEPULSE_API_BASE_URL'') = sample_env (str ''OFFICEPULSE_API_BASE_URL'')"
    "env1 (str ''AIDA_ROUTE_TOKEN_ATTRIBUTE'') = sample_env (str ''AIDA_ROUTE_TOKEN_ATTRIBUTE'')"
    "env1 (str ''AIDA_BOOTSTRAP_TIMEOUT_SECONDS'') = sample_env (str ''AIDA_BOOTSTRAP_TIMEOUT_SECONDS'')"
    by (simp_all add: e k worker_settings_def sample_env_def)
  have "bootstrap_from_env plain_python env1 = bootstrap_from_env plain_python sample_env"
    by (rule bootstrap_same) (elim insertE emptyE; simp only: x)
  then have b: "\<exists>b. bootstrap_from_env plain_python env1 = Inr b" using sample_bootstrap by simp
  have "deployment_setting env1 ''AIDA_STT_MODEL'' = Inr (str ''stt'')" "deployment_setting env1 ''AIDA_LLM_MODEL'' = Inr (str ''llm'')"
    "deployment_setting env1 ''AIDA_TTS_MODEL'' = Inr (str ''tts'')" "deployment_setting env1 ''AIDA_TTS_VOICE'' = Inr (str ''v'')"
    by (simp_all add: deployment_setting_def env_get_def e k worker_settings_def t)
  then have d: "\<exists>d. deployment_from_env env1 = Inr d" by (simp add: deployment_from_env_def)
  have "\<forall>n \<in> set livekit_keys. strip (env_get env1 (str n) []) \<noteq> []"
    by (simp add: livekit_keys_def env_get_def e k worker_settings_def t)
  with b d show "settings_ok plain_python env1" by (simp add: settings_ok_def)
  show "env1 enabled_var = None" "env1 (str ''LIVEKIT_AGENT_NAME'') = None"
    by (simp_all add: enabled_var_def e k worker_settings_def)
  have "str ''AIDA_STATUS_PORT'' \<notin> set SETTING_KEYS" by (simp add: SETTING_KEYS_def)
  with assms show "env1 (str ''AIDA_STATUS_PORT'') = None"
    by (simp add: store_applied_def) (simp add: time_zone_def sample_environ_def)
qed

theorem calls_use_store_settings_witness:
  "\<exists>env1 env2 s cfg options ps.
     cli_main plain_python (\<lambda>_. []) (serve_rows (aida_rows worker_settings)) [str ''start''] sample_environ = Some (env1, Inr RunWorker)
     \<and> worker_main plain_python (\<lambda>_. None) (str ''1.8.0'') False (Inr []) start_argv env1 = (env2, None, Inr s)
     \<and> CreateSession options \<in> set (j_effects (run (job_step plain_python cfg) (new_job cfg) sample_events))
     \<and> fetch plain_python (\<lambda>_. []) (serve_rows (aida_rows worker_settings)) (time_zone sample_environ) = Some (Inr ps)
     \<and> map_option strip (lookup (str ''AIDA_STT_MODEL'') ps) = Some (so_stt_model options)"
proof -
  let ?serve = "serve_rows (aida_rows worker_settings)"
  have h: "\<not> asks_help [str ''start'']" by (simp add: asks_help_def)
  obtain env1 where c: "cli_main plain_python (\<lambda>_. []) ?serve [str ''start''] sample_environ = Some (env1, Inr RunWorker)"
    using worker_started_on_rows [OF worker_settings_plain] by blast
  from run_worker_settings [OF this h] have a: "store_applied (setting_pairs worker_settings) (time_zone sample_environ) env1"
    using rows_fetched [OF worker_settings_plain] by simp
  note e = stored_env [OF a]
  let ?env2 = "env1(key_json_var := None, key_file_var := None, enabled_var \<mapsto> str ''0'')"
  have "check_settings plain_python env1 = Inr ()" using e(1) by (simp add: check_settings_iff)
  moreover have "?env2 (str ''LIVEKIT_AGENT_NAME'') = None" "?env2 (str ''AIDA_STATUS_PORT'') = None"
    using e by (simp_all add: key_json_var_def key_file_var_def enabled_var_def)
  then obtain s where "make_server (\<lambda>_. None) (str ''1.8.0'') ?env2 = Inr s"
    using worker_env_server [of ?env2 "\<lambda>_. None"] by (auto simp: make_server_def new_server_def Let_def)
  ultimately have w: "worker_main plain_python (\<lambda>_. None) (str ''1.8.0'') False (Inr []) start_argv env1 = (?env2, None, Inr s)"
    using start_argv_starts by (simp add: worker_main_def configure_off [of env1] e(2))
  obtain d b where "deployment_from_env env1 = Inr d" "bootstrap_from_env plain_python env1 = Inr b"
    using e(1) by (auto simp: settings_ok_def)
  moreover have "deployment_from_env ?env2 = deployment_from_env env1" "bootstrap_from_env plain_python ?env2 = bootstrap_from_env plain_python env1"
    by (rule deployment_same bootstrap_same; auto simp: key_json_var_def key_file_var_def enabled_var_def)+
  ultimately have "\<exists>cfg. load_job plain_python (json_dumps default_dump (JObj (dispatch_fields sample_dispatch)))
      (room_of (d_call_id sample_dispatch)) ?env2 = Inr cfg
      \<and> jc_dispatch cfg = sample_dispatch \<and> jc_room_name cfg = room_of (d_call_id sample_dispatch)"
    unfolding load_job_def sample_dispatch_parsed by simp
  then obtain cfg where l: "load_job plain_python (json_dumps default_dump (JObj (dispatch_fields sample_dispatch)))
      (room_of (d_call_id sample_dispatch)) ?env2 = Inr cfg"
    and g: "jc_dispatch cfg = sample_dispatch" "jc_room_name cfg = room_of (d_call_id sample_dispatch)"
    by blast
  have o: "CreateSession (create_session plain_python (jc_deployment cfg) sample_call)
      \<in> set (j_effects (run (job_step plain_python cfg) (new_job cfg) sample_events))"
    using undisturbed_run [OF sample_undisturbed [OF g], of "\<lambda>_. False"] by (simp add: startup_calls_def)
  from calls_use_store_settings [OF c h w start_argv_starts l this] c w o show ?thesis by auto
qed

end
